theory Spec2Isabelle
  imports Complex_Main "HOL-Library.Word"
begin

unbundle bit_operations_syntax

section \<open>Pixel formats and their descriptors\<close>

text \<open>
  The enumeration \<open>PixelFormat\<close> is declared in the pixel data header; the order of its
  members is the order of the rows of the table \<open>_pixelFormats\<close>, which is indexed by the
  ordinal of the format.
\<close>

datatype PixelFormat =
    PF_UNKNOWN | PF_R8 | PF_R8G8 | PF_R8G8B8 | PF_B8G8R8
  | PF_A8R8G8B8 | PF_A8B8G8R8 | PF_B8G8R8A8 | PF_R8G8B8A8
  | PF_X8R8G8B8 | PF_X8B8G8R8 | PF_R8G8B8X8 | PF_B8G8R8X8
  | PF_DXT1 | PF_DXT2 | PF_DXT3 | PF_DXT4 | PF_DXT5
  | PF_FLOAT16_R | PF_FLOAT16_RG | PF_FLOAT16_RGB | PF_FLOAT16_RGBA
  | PF_FLOAT32_R | PF_FLOAT32_RG | PF_FLOAT32_RGB | PF_FLOAT32_RGBA
  | PF_D32_S8X24 | PF_D24_S8 | PF_D32 | PF_D16

datatype PixelComponentType = PCT_BYTE | PCT_FLOAT16 | PCT_FLOAT32

datatype error =
    NotImplementedException
  | InvalidParametersException
  | AssertionFailed
  | NullPointerAccess
  | DivisionByZero

type_synonym u8 = "8 word"
type_synonym u16 = "16 word"
type_synonym u32 = "32 word"
type_synonym u64 = "64 word"

text \<open>
  Modelled from the spec: the capability flags (has-alpha, compressed, floating-point,
  depth, native-endian-packed) are an enumeration of the pixel data header, which is not
  among the sources. They are five distinct bits of the flag word.
\<close>

definition PFF_HASALPHA :: u32 where "PFF_HASALPHA = 0x1"
definition PFF_COMPRESSED :: u32 where "PFF_COMPRESSED = 0x2"
definition PFF_FLOAT :: u32 where "PFF_FLOAT = 0x4"
definition PFF_DEPTH :: u32 where "PFF_DEPTH = 0x8"
definition PFF_NATIVEENDIAN :: u32 where "PFF_NATIVEENDIAN = 0x10"

record PixelFormatDescription =
  name :: string
  elemBytes :: u8
  flags :: u32
  componentType :: PixelComponentType
  componentCount :: u8
  rbits :: u8
  gbits :: u8
  bbits :: u8
  abits :: u8
  rmask :: u32
  gmask :: u32
  bmask :: u32
  amask :: u32
  rshift :: u8
  gshift :: u8
  bshift :: u8
  ashift :: u8

text \<open>One row of the table, in the order of the aggregate initialiser.\<close>

definition row ::
  "string \<Rightarrow> u8 \<Rightarrow> u32 \<Rightarrow> PixelComponentType \<Rightarrow> u8 \<Rightarrow> u8 \<Rightarrow> u8 \<Rightarrow> u8 \<Rightarrow> u8
    \<Rightarrow> u32 \<Rightarrow> u32 \<Rightarrow> u32 \<Rightarrow> u32 \<Rightarrow> u8 \<Rightarrow> u8 \<Rightarrow> u8 \<Rightarrow> u8 \<Rightarrow> PixelFormatDescription" where
  "row n eb fl ct cc rb gb bb ab rm gm bm am rs gs bs as =
     \<lparr> name = n, elemBytes = eb, flags = fl, componentType = ct, componentCount = cc,
       rbits = rb, gbits = gb, bbits = bb, abits = ab,
       rmask = rm, gmask = gm, bmask = bm, amask = am,
       rshift = rs, gshift = gs, bshift = bs, ashift = as \<rparr>"

definition pixelFormats :: "PixelFormatDescription list" where
  "pixelFormats = [
    row ''PF_UNKNOWN'' 0 0 PCT_BYTE 0  0 0 0 0  0 0 0 0  0 0 0 0,
    row ''PF_R8'' 1 0 PCT_BYTE 1  8 0 0 0  0x000000FF 0 0 0  0 0 0 0,
    row ''PF_R8G8'' 2 0 PCT_BYTE 2  8 8 0 0  0x000000FF 0x0000FF00 0 0  0 8 0 0,
    row ''PF_R8G8B8'' 3 PFF_NATIVEENDIAN PCT_BYTE 3  8 8 8 0
      0x000000FF 0x0000FF00 0x00FF0000 0  0 8 16 0,
    row ''PF_B8G8R8'' 3 PFF_NATIVEENDIAN PCT_BYTE 3  8 8 8 0
      0x00FF0000 0x0000FF00 0x000000FF 0  16 8 0 0,
    row ''PF_A8R8G8B8'' 4 (PFF_HASALPHA OR PFF_NATIVEENDIAN) PCT_BYTE 4  8 8 8 8
      0x0000FF00 0x00FF0000 0xFF000000 0x000000FF  8 16 24 0,
    row ''PF_A8B8G8R8'' 4 (PFF_HASALPHA OR PFF_NATIVEENDIAN) PCT_BYTE 4  8 8 8 8
      0xFF000000 0x00FF0000 0x0000FF00 0x000000FF  24 16 8 0,
    row ''PF_B8G8R8A8'' 4 (PFF_HASALPHA OR PFF_NATIVEENDIAN) PCT_BYTE 4  8 8 8 8
      0x00FF0000 0x0000FF00 0x000000FF 0xFF000000  16 8 0 24,
    row ''PF_R8G8B8A8'' 4 (PFF_HASALPHA OR PFF_NATIVEENDIAN) PCT_BYTE 4  8 8 8 8
      0x000000FF 0x0000FF00 0x00FF0000 0xFF000000  0 8 16 24,
    row ''PF_X8R8G8B8'' 4 PFF_NATIVEENDIAN PCT_BYTE 3  8 8 8 0
      0x0000FF00 0x00FF0000 0xFF000000 0x000000FF  8 16 24 0,
    row ''PF_X8B8G8R8'' 4 PFF_NATIVEENDIAN PCT_BYTE 3  8 8 8 0
      0xFF000000 0x00FF0000 0x0000FF00 0x000000FF  24 16 8 0,
    row ''PF_R8G8B8X8'' 4 (PFF_HASALPHA OR PFF_NATIVEENDIAN) PCT_BYTE 3  8 8 8 0
      0x000000FF 0x0000FF00 0x00FF0000 0xFF000000  0 8 16 0,
    row ''PF_B8G8R8X8'' 4 (PFF_HASALPHA OR PFF_NATIVEENDIAN) PCT_BYTE 3  8 8 8 0
      0x00FF0000 0x0000FF00 0x000000FF 0xFF000000  16 8 0 0,
    row ''PF_DXT1'' 0 (PFF_COMPRESSED OR PFF_HASALPHA) PCT_BYTE 3  0 0 0 0  0 0 0 0  0 0 0 0,
    row ''PF_DXT2'' 0 (PFF_COMPRESSED OR PFF_HASALPHA) PCT_BYTE 4  0 0 0 0  0 0 0 0  0 0 0 0,
    row ''PF_DXT3'' 0 (PFF_COMPRESSED OR PFF_HASALPHA) PCT_BYTE 4  0 0 0 0  0 0 0 0  0 0 0 0,
    row ''PF_DXT4'' 0 (PFF_COMPRESSED OR PFF_HASALPHA) PCT_BYTE 4  0 0 0 0  0 0 0 0  0 0 0 0,
    row ''PF_DXT5'' 0 (PFF_COMPRESSED OR PFF_HASALPHA) PCT_BYTE 4  0 0 0 0  0 0 0 0  0 0 0 0,
    row ''PF_FLOAT16_R'' 2 PFF_FLOAT PCT_FLOAT16 1  16 0 0 0  0 0 0 0  0 0 0 0,
    row ''PF_FLOAT16_RG'' 4 PFF_FLOAT PCT_FLOAT16 2  16 16 0 0  0 0 0 0  0 0 0 0,
    row ''PF_FLOAT16_RGB'' 6 PFF_FLOAT PCT_FLOAT16 3  16 16 16 0  0 0 0 0  0 0 0 0,
    row ''PF_FLOAT16_RGBA'' 8 (PFF_FLOAT OR PFF_HASALPHA) PCT_FLOAT16 4  16 16 16 16
      0 0 0 0  0 0 0 0,
    row ''PF_FLOAT32_R'' 4 PFF_FLOAT PCT_FLOAT32 1  32 0 0 0  0 0 0 0  0 0 0 0,
    row ''PF_FLOAT32_RG'' 8 PFF_FLOAT PCT_FLOAT32 2  32 32 0 0  0 0 0 0  0 0 0 0,
    row ''PF_FLOAT32_RGB'' 12 PFF_FLOAT PCT_FLOAT32 3  32 32 32 0  0 0 0 0  0 0 0 0,
    row ''PF_FLOAT32_RGBA'' 16 (PFF_FLOAT OR PFF_HASALPHA) PCT_FLOAT32 4  32 32 32 32
      0 0 0 0  0 0 0 0,
    row ''PF_D32_S8X24'' 4 (PFF_DEPTH OR PFF_FLOAT) PCT_FLOAT32 1  0 0 0 0  0 0 0 0  0 0 0 0,
    row ''PF_D24_S8'' 8 (PFF_DEPTH OR PFF_FLOAT) PCT_FLOAT32 2  0 0 0 0  0 0 0 0  0 0 0 0,
    row ''PF_D32'' 4 (PFF_DEPTH OR PFF_FLOAT) PCT_FLOAT32 1  0 0 0 0  0 0 0 0  0 0 0 0,
    row ''PF_D16'' 2 (PFF_DEPTH OR PFF_FLOAT) PCT_FLOAT16 1  0 0 0 0  0 0 0 0  0 0 0 0
  ]"

text \<open>The ordinal of a format: its position in the enumeration.\<close>

fun ordinal :: "PixelFormat \<Rightarrow> nat" where
  "ordinal PF_UNKNOWN = 0" | "ordinal PF_R8 = 1" | "ordinal PF_R8G8 = 2"
| "ordinal PF_R8G8B8 = 3" | "ordinal PF_B8G8R8 = 4" | "ordinal PF_A8R8G8B8 = 5"
| "ordinal PF_A8B8G8R8 = 6" | "ordinal PF_B8G8R8A8 = 7" | "ordinal PF_R8G8B8A8 = 8"
| "ordinal PF_X8R8G8B8 = 9" | "ordinal PF_X8B8G8R8 = 10" | "ordinal PF_R8G8B8X8 = 11"
| "ordinal PF_B8G8R8X8 = 12" | "ordinal PF_DXT1 = 13" | "ordinal PF_DXT2 = 14"
| "ordinal PF_DXT3 = 15" | "ordinal PF_DXT4 = 16" | "ordinal PF_DXT5 = 17"
| "ordinal PF_FLOAT16_R = 18" | "ordinal PF_FLOAT16_RG = 19" | "ordinal PF_FLOAT16_RGB = 20"
| "ordinal PF_FLOAT16_RGBA = 21" | "ordinal PF_FLOAT32_R = 22" | "ordinal PF_FLOAT32_RG = 23"
| "ordinal PF_FLOAT32_RGB = 24" | "ordinal PF_FLOAT32_RGBA = 25" | "ordinal PF_D32_S8X24 = 26"
| "ordinal PF_D24_S8 = 27" | "ordinal PF_D32 = 28" | "ordinal PF_D16 = 29"

text \<open>
  \<open>getDescriptionFor\<close> asserts that the ordinal lies in the table and returns the row.
  Every value of the datatype has an ordinal below \<open>PF_COUNT = 30\<close>, so the assertion
  cannot fail here.
\<close>

definition getDescriptionFor :: "PixelFormat \<Rightarrow> PixelFormatDescription" where
  "getDescriptionFor fmt = pixelFormats ! ordinal fmt"

definition getNumElemBytes :: "PixelFormat \<Rightarrow> u32" where
  "getNumElemBytes format = ucast (elemBytes (getDescriptionFor format))"

definition getFlags :: "PixelFormat \<Rightarrow> u32" where
  "getFlags format = flags (getDescriptionFor format)"

definition hasAlpha :: "PixelFormat \<Rightarrow> bool" where
  "hasAlpha format = (getFlags format AND PFF_HASALPHA > 0)"


definition isCompressed :: "PixelFormat \<Rightarrow> bool" where
  "isCompressed format = (getFlags format AND PFF_COMPRESSED > 0)"

definition isDepth :: "PixelFormat \<Rightarrow> bool" where
  "isDepth format = (getFlags format AND PFF_DEPTH > 0)"

definition isNativeEndian :: "PixelFormat \<Rightarrow> bool" where
  "isNativeEndian format = (getFlags format AND PFF_NATIVEENDIAN > 0)"

definition isAccessible :: "PixelFormat \<Rightarrow> bool" where
  "isAccessible srcformat =
     (if srcformat = PF_UNKNOWN then False
      else let flags = getFlags srcformat
           in \<not> (flags AND PFF_COMPRESSED \<noteq> 0 \<or> flags AND PFF_DEPTH \<noteq> 0))"

text \<open>
  \<open>getMemorySize\<close>: all arithmetic is on \<open>UINT32\<close> and wraps around. The \<open>default\<close>
  branch of the switch raises; no compressed format of the table reaches it.
\<close>

definition getMemorySize :: "u32 \<Rightarrow> u32 \<Rightarrow> u32 \<Rightarrow> PixelFormat \<Rightarrow> error + u32" where
  "getMemorySize width height depth format =
     (if isCompressed format then
        (if format = PF_DXT1 then
           Inr (((width + 3) div 4) * ((height + 3) div 4) * 8 * depth)
         else if format \<in> {PF_DXT2, PF_DXT3, PF_DXT4, PF_DXT5} then
           Inr (((width + 3) div 4) * ((height + 3) div 4) * 16 * depth)
         else Inl InvalidParametersException)
      else Inr (width * height * depth * getNumElemBytes format))"

definition isValidExtent :: "u32 \<Rightarrow> u32 \<Rightarrow> u32 \<Rightarrow> PixelFormat \<Rightarrow> bool" where
  "isValidExtent width height depth format =
     (if isCompressed format then
        (if format \<in> {PF_DXT1, PF_DXT2, PF_DXT3, PF_DXT4, PF_DXT5} then
           (width AND 3 = 0 \<and> height AND 3 = 0 \<and> depth = 1)
         else True)
      else True)"

section \<open>Memory and the numeric helpers\<close>

text \<open>
  Raw memory is a store from byte addresses to bytes; a pointer is an address. A value
  of the C type \<open>float\<close> is a real number. How a float lies in memory (its 32-bit
  pattern), the half-precision conversions, and how the float operations \<open>+\<close>, \<open>-\<close>,
  \<open>*\<close>, \<open>/\<close> round their results are not fixed here: they are the parameter \<open>fc\<close> of
  everything that stores, loads or computes with floats. Infinities and NaN are not
  represented: where the code divides a float by zero, \<open>fdiv fc x 0\<close> stands for
  whatever the platform yields, and nothing is raised. Multiplying or dividing by a
  power of two and converting an integer of at most 24 bits are exact on the platform,
  and are written with the exact operations.
\<close>

type_synonym memory = "nat \<Rightarrow> u8"

record FloatCodec =
  floatToBits :: "real \<Rightarrow> u32"
  bitsToFloat :: "u32 \<Rightarrow> real"
  floatToHalf :: "real \<Rightarrow> u16"
  halfToFloat :: "u16 \<Rightarrow> real"
  fadd :: "real \<Rightarrow> real \<Rightarrow> real"
  fsub :: "real \<Rightarrow> real \<Rightarrow> real"
  fmul :: "real \<Rightarrow> real \<Rightarrow> real"
  fdiv :: "real \<Rightarrow> real \<Rightarrow> real"

text \<open>Integers of \<open>n\<close> bytes in memory, low byte first (the byte order of the platform).\<close>

fun loadLE :: "memory \<Rightarrow> nat \<Rightarrow> nat \<Rightarrow> u32" where
  "loadLE mem p 0 = 0"
| "loadLE mem p (Suc n) = ucast (mem p) OR push_bit 8 (loadLE mem (Suc p) n)"

fun storeLE :: "nat \<Rightarrow> nat \<Rightarrow> u32 \<Rightarrow> memory \<Rightarrow> memory" where
  "storeLE p 0 v mem = mem"
| "storeLE p (Suc n) v mem = storeLE (Suc p) n (drop_bit 8 v) (mem(p := ucast v))"

definition memcpy :: "nat \<Rightarrow> nat \<Rightarrow> nat \<Rightarrow> memory \<Rightarrow> memory" where
  "memcpy dst src n mem = (\<lambda>a. if dst \<le> a \<and> a < dst + n then mem (src + (a - dst)) else mem a)"

definition loadFloat :: "FloatCodec \<Rightarrow> memory \<Rightarrow> nat \<Rightarrow> nat \<Rightarrow> real" where
  "loadFloat fc mem p i = bitsToFloat fc (loadLE mem (p + 4 * i) 4)"

definition storeFloat :: "FloatCodec \<Rightarrow> nat \<Rightarrow> nat \<Rightarrow> real \<Rightarrow> memory \<Rightarrow> memory" where
  "storeFloat fc p i v mem = storeLE (p + 4 * i) 4 (floatToBits fc v) mem"

definition loadHalf :: "memory \<Rightarrow> nat \<Rightarrow> nat \<Rightarrow> u16" where
  "loadHalf mem p i = ucast (loadLE mem (p + 2 * i) 2)"

definition storeHalf :: "nat \<Rightarrow> nat \<Rightarrow> u16 \<Rightarrow> memory \<Rightarrow> memory" where
  "storeHalf p i v mem = storeLE (p + 2 * i) 2 (ucast v) mem"

definition bindE :: "error + 'a \<Rightarrow> ('a \<Rightarrow> error + 'b) \<Rightarrow> error + 'b" where
  "bindE m k = (case m of Inl e \<Rightarrow> Inl e | Inr x \<Rightarrow> k x)"

text \<open>
  Modelled from the spec: the class \<open>Bitwise\<close> (fixed-to-fixed, float-to-fixed,
  fixed-to-float conversion, and reading and writing an integer of 1 to 4 bytes in native
  byte order) is declared in a header that is not among the sources. Widening a
  fixed-point value keeps the full range (0 stays 0, all-ones stays all-ones, anything
  else is rescaled by division), narrowing drops the low bits; a float is clamped to
  [0, 1], scaled by \<open>2 ^ bits\<close> and truncated; a fixed-point value is read back as the
  fraction of \<open>2 ^ bits - 1\<close>. Rescaling from a width of 0 bits divides by zero: the
  integer division of \<open>fixedToFixed\<close> traps (\<open>DivisionByZero\<close>); the float division
  of \<open>fixedToFloat\<close> raises nothing and yields what the platform's division by zero
  yields. The quotient by a non-zero \<open>2 ^ bits - 1\<close>, like the quotient by 255 in the
  byte overload of \<open>packColor\<close>, is taken exactly: its rounding on the platform is far
  below the quantization step.
\<close>

definition fixedToFixed :: "u32 \<Rightarrow> nat \<Rightarrow> nat \<Rightarrow> error + u32" where
  "fixedToFixed v n p =
     (if n > p then Inr (drop_bit (n - p) v)
      else if n < p then
        (if v = 0 then Inr 0
         else if v = push_bit n 1 - 1 then Inr (push_bit p 1 - 1)
         else if push_bit n 1 - 1 = (0 :: u32) then Inl DivisionByZero
         else Inr (v * push_bit p 1 div (push_bit n 1 - 1)))
      else Inr v)"

definition floatToFixed :: "real \<Rightarrow> nat \<Rightarrow> u32" where
  "floatToFixed v bits =
     (if v \<le> 0 then 0
      else if v \<ge> 1 then push_bit bits 1 - 1
      else word_of_int \<lfloor>v * 2 ^ bits\<rfloor>)"

definition fixedToFloat :: "FloatCodec \<Rightarrow> u32 \<Rightarrow> nat \<Rightarrow> real" where
  "fixedToFloat fc v bits =
     (if (2 :: nat) ^ bits - 1 = 0 then fdiv fc (real (unat v)) 0
      else real (unat v) / real (2 ^ bits - 1))"

definition intWrite :: "nat \<Rightarrow> nat \<Rightarrow> u32 \<Rightarrow> memory \<Rightarrow> memory" where
  "intWrite dest n v mem = (if n \<in> {1, 2, 3, 4} then storeLE dest n v mem else mem)"

definition intRead :: "memory \<Rightarrow> nat \<Rightarrow> nat \<Rightarrow> u32" where
  "intRead mem src n = (if n \<in> {1, 2, 3, 4} then loadLE mem src n else 0)"

section \<open>Packing and unpacking a colour\<close>

text \<open>
  \<open>packColor\<close>, float overload. The destination is the address \<open>dest\<close> in \<open>mem\<close>; the
  result is the memory after the write, or the exception raised (before any write).
\<close>

definition packColor ::
  "FloatCodec \<Rightarrow> real \<Rightarrow> real \<Rightarrow> real \<Rightarrow> real \<Rightarrow> PixelFormat \<Rightarrow> nat \<Rightarrow> memory
     \<Rightarrow> error + memory" where
  "packColor fc r g b a format dest mem =
     (let des = getDescriptionFor format in
      if flags des AND PFF_NATIVEENDIAN \<noteq> 0 then
        (let v = (push_bit (unat (rshift des)) (floatToFixed r (unat (rbits des))) AND rmask des)
              OR (push_bit (unat (gshift des)) (floatToFixed g (unat (gbits des))) AND gmask des)
              OR (push_bit (unat (bshift des)) (floatToFixed b (unat (bbits des))) AND bmask des)
              OR (push_bit (unat (ashift des)) (floatToFixed a (unat (abits des))) AND amask des)
         in Inr (intWrite dest (unat (elemBytes des)) v mem))
      else
        (case format of
           PF_FLOAT32_R \<Rightarrow> Inr (storeFloat fc dest 0 r mem)
         | PF_FLOAT32_RG \<Rightarrow> Inr (storeFloat fc dest 1 g (storeFloat fc dest 0 r mem))
         | PF_FLOAT32_RGB \<Rightarrow>
             Inr (storeFloat fc dest 2 b (storeFloat fc dest 1 g (storeFloat fc dest 0 r mem)))
         | PF_FLOAT32_RGBA \<Rightarrow>
             Inr (storeFloat fc dest 3 a (storeFloat fc dest 2 b
                   (storeFloat fc dest 1 g (storeFloat fc dest 0 r mem))))
         | PF_FLOAT16_R \<Rightarrow> Inr (storeHalf dest 0 (floatToHalf fc r) mem)
         | PF_FLOAT16_RG \<Rightarrow>
             Inr (storeHalf dest 1 (floatToHalf fc g) (storeHalf dest 0 (floatToHalf fc r) mem))
         | PF_FLOAT16_RGB \<Rightarrow>
             Inr (storeHalf dest 2 (floatToHalf fc b) (storeHalf dest 1 (floatToHalf fc g)
                   (storeHalf dest 0 (floatToHalf fc r) mem)))
         | PF_FLOAT16_RGBA \<Rightarrow>
             Inr (storeHalf dest 3 (floatToHalf fc a) (storeHalf dest 2 (floatToHalf fc b)
                   (storeHalf dest 1 (floatToHalf fc g)
                     (storeHalf dest 0 (floatToHalf fc r) mem))))
         | PF_R8G8 \<Rightarrow>
             Inr ((mem(dest := ucast (floatToFixed r 8)))(Suc dest := ucast (floatToFixed g 8)))
         | PF_R8 \<Rightarrow> Inr (mem(dest := ucast (floatToFixed r 8)))
         | _ \<Rightarrow> Inl NotImplementedException))"

text \<open>\<open>packColor\<close>, byte overload.\<close>

definition packColor8 ::
  "FloatCodec \<Rightarrow> u8 \<Rightarrow> u8 \<Rightarrow> u8 \<Rightarrow> u8 \<Rightarrow> PixelFormat \<Rightarrow> nat \<Rightarrow> memory \<Rightarrow> error + memory" where
  "packColor8 fc r g b a format dest mem =
     (let des = getDescriptionFor format in
      if flags des AND PFF_NATIVEENDIAN \<noteq> 0 then
        bindE (fixedToFixed (ucast r) 8 (unat (rbits des))) (\<lambda>fr.
        bindE (fixedToFixed (ucast g) 8 (unat (gbits des))) (\<lambda>fg.
        bindE (fixedToFixed (ucast b) 8 (unat (bbits des))) (\<lambda>fb.
        bindE (fixedToFixed (ucast a) 8 (unat (abits des))) (\<lambda>fa.
          (let v = (push_bit (unat (rshift des)) fr AND rmask des)
                OR (push_bit (unat (gshift des)) fg AND gmask des)
                OR (push_bit (unat (bshift des)) fb AND bmask des)
                OR (push_bit (unat (ashift des)) fa AND amask des)
           in Inr (intWrite dest (unat (elemBytes des)) v mem))))))
      else
        packColor fc (real (unat r) / 255) (real (unat g) / 255) (real (unat b) / 255)
          (real (unat a) / 255) format dest mem)"

text \<open>\<open>unpackColor\<close>, float overload: the four out-parameters are the result.\<close>

definition unpackColor ::
  "FloatCodec \<Rightarrow> PixelFormat \<Rightarrow> nat \<Rightarrow> memory \<Rightarrow> error + real \<times> real \<times> real \<times> real" where
  "unpackColor fc format src mem =
     (let des = getDescriptionFor format in
      if flags des AND PFF_NATIVEENDIAN \<noteq> 0 then
        (let v = intRead mem src (unat (elemBytes des));
             r = fixedToFloat fc (drop_bit (unat (rshift des)) (v AND rmask des))
                   (unat (rbits des));
             g = fixedToFloat fc (drop_bit (unat (gshift des)) (v AND gmask des))
                   (unat (gbits des));
             b = fixedToFloat fc (drop_bit (unat (bshift des)) (v AND bmask des))
                   (unat (bbits des))
         in if flags des AND PFF_HASALPHA \<noteq> 0 then
              Inr (r, g, b, fixedToFloat fc (drop_bit (unat (ashift des)) (v AND amask des))
                              (unat (abits des)))
            else Inr (r, g, b, 1))
      else
        (case format of
           PF_FLOAT32_R \<Rightarrow>
             Inr (loadFloat fc mem src 0, loadFloat fc mem src 0, loadFloat fc mem src 0, 1)
         | PF_FLOAT32_RG \<Rightarrow>
             Inr (loadFloat fc mem src 0, loadFloat fc mem src 1, loadFloat fc mem src 1, 1)
         | PF_FLOAT32_RGB \<Rightarrow>
             Inr (loadFloat fc mem src 0, loadFloat fc mem src 1, loadFloat fc mem src 2, 1)
         | PF_FLOAT32_RGBA \<Rightarrow>
             Inr (loadFloat fc mem src 0, loadFloat fc mem src 1, loadFloat fc mem src 2,
                  loadFloat fc mem src 3)
         | PF_FLOAT16_R \<Rightarrow>
             Inr (halfToFloat fc (loadHalf mem src 0), halfToFloat fc (loadHalf mem src 0),
                  halfToFloat fc (loadHalf mem src 0), 1)
         | PF_FLOAT16_RG \<Rightarrow>
             Inr (halfToFloat fc (loadHalf mem src 0), halfToFloat fc (loadHalf mem src 1),
                  halfToFloat fc (loadHalf mem src 1), 1)
         | PF_FLOAT16_RGB \<Rightarrow>
             Inr (halfToFloat fc (loadHalf mem src 0), halfToFloat fc (loadHalf mem src 1),
                  halfToFloat fc (loadHalf mem src 2), 1)
         | PF_FLOAT16_RGBA \<Rightarrow>
             Inr (halfToFloat fc (loadHalf mem src 0), halfToFloat fc (loadHalf mem src 1),
                  halfToFloat fc (loadHalf mem src 2), halfToFloat fc (loadHalf mem src 3))
         | PF_R8G8 \<Rightarrow>
             Inr (fixedToFloat fc (ucast (mem src)) 8, fixedToFloat fc (ucast (mem (Suc src))) 8,
                  0, 1)
         | PF_R8 \<Rightarrow> Inr (fixedToFloat fc (ucast (mem src)) 8, 0, 0, 1)
         | _ \<Rightarrow> Inl NotImplementedException))"

text \<open>\<open>unpackColor\<close>, byte overload.\<close>

definition unpackColor8 ::
  "FloatCodec \<Rightarrow> PixelFormat \<Rightarrow> nat \<Rightarrow> memory \<Rightarrow> error + u8 \<times> u8 \<times> u8 \<times> u8" where
  "unpackColor8 fc format src mem =
     (let des = getDescriptionFor format in
      if flags des AND PFF_NATIVEENDIAN \<noteq> 0 then
        (let v = intRead mem src (unat (elemBytes des)) in
         bindE (fixedToFixed (drop_bit (unat (rshift des)) (v AND rmask des)) (unat (rbits des)) 8)
           (\<lambda>r.
         bindE (fixedToFixed (drop_bit (unat (gshift des)) (v AND gmask des)) (unat (gbits des)) 8)
           (\<lambda>g.
         bindE (fixedToFixed (drop_bit (unat (bshift des)) (v AND bmask des)) (unat (bbits des)) 8)
           (\<lambda>b.
         if flags des AND PFF_HASALPHA \<noteq> 0 then
           bindE (fixedToFixed (drop_bit (unat (ashift des)) (v AND amask des))
                    (unat (abits des)) 8)
             (\<lambda>a. Inr (ucast r, ucast g, ucast b, ucast a))
         else Inr (ucast r, ucast g, ucast b, 255)))))
      else
        bindE (unpackColor fc format src mem) (\<lambda>(rr, gg, bb, aa).
          Inr (ucast (floatToFixed rr 8), ucast (floatToFixed gg 8),
               ucast (floatToFixed bb 8), ucast (floatToFixed aa 8))))"

text \<open>
  The packed integer of a native-endian format, as both overloads of \<open>packColor\<close>
  build it, and what \<open>intRead\<close> gets back of it from the bytes of one element.
\<close>

definition packFields :: "PixelFormatDescription \<Rightarrow> u32 \<Rightarrow> u32 \<Rightarrow> u32 \<Rightarrow> u32 \<Rightarrow> u32" where
  "packFields des fr fg fb fa =
     (push_bit (unat (rshift des)) fr AND rmask des)
     OR (push_bit (unat (gshift des)) fg AND gmask des)
     OR (push_bit (unat (bshift des)) fb AND bmask des)
     OR (push_bit (unat (ashift des)) fa AND amask des)"


text \<open>
  Concrete inputs for the examples below: a float codec that agrees with IEEE 754 on the
  few values the examples store and load (binary32: \<open>0x3F800000\<close> is 1,
  \<open>0x3F7FFF00\<close> is \<open>65535/65536\<close>, \<open>0\<close> is 0; binary16: \<open>0x3800\<close> is 1/2, and
  \<open>2049/4096\<close>, halfway between the neighbouring halves \<open>0x3800\<close> and \<open>0x3801\<close>,
  converts to \<open>0x3800\<close> by truncation as by rounding to even) and on the operations
  they compute: binary32 rounds \<open>255 / 298\<close> to \<open>14356343 / 2^24\<close> and 298 times
  that to \<open>16711681 / 2^16\<close>; everything else the examples compute (products and sums
  of small integers and of 0, 1, \<open>1/65536\<close>, \<open>65535/65536\<close>) is exact in binary32,
  and the codec computes it exactly. And a memory of zero bytes.
\<close>

definition sampleCodec :: FloatCodec where
  "sampleCodec =
     \<lparr> floatToBits = (\<lambda>x. if x = 1 then 0x3F800000
                          else if x = 65535 / 65536 then 0x3F7FFF00 else 0),
       bitsToFloat = (\<lambda>w. if w = 0x3F800000 then 1
                          else if w = 0x3F7FFF00 then 65535 / 65536 else 0),
       floatToHalf = (\<lambda>x. if x = 2049 / 4096 then 0x3800 else 0),
       halfToFloat = (\<lambda>w. if w = 0x3800 then 1 / 2 else 0),
       fadd = (\<lambda>x y. x + y), fsub = (\<lambda>x y. x - y),
       fmul = (\<lambda>x y. if x = 298 \<and> y = 14356343 / 16777216 then 16711681 / 65536 else x * y),
       fdiv = (\<lambda>x y. if x = 255 \<and> y = 298 then 14356343 / 16777216 else x / y) \<rparr>"

definition zeroMemory :: memory where
  "zeroMemory = (\<lambda>a. 0)"

section \<open>Pixel buffers and bulk conversion\<close>

text \<open>
  Modelled from the spec: the class \<open>PixelData\<close> is declared in a header that is not
  among the sources. A buffer descriptor holds the bounds of the addressed region
  (left, top, front, right, bottom, back), the row pitch and slice pitch in elements, the
  format and the pointer to the memory, which is null (\<open>None\<close>) until a buffer is
  attached or allocated. Width, height and depth are the differences of the bounds; the
  row skip and slice skip are what the pitches exceed the logical extent by; a buffer is
  consecutive when it has no such padding, and its consecutive size is the memory size of
  its extent. The constructor from extents and a format yields a consecutive descriptor
  at the origin with no memory attached: \<open>scale\<close> and \<open>bulkPixelConversion\<close> call
  \<open>allocateInternalBuffer\<close> or \<open>setExternalBuffer\<close> after it.
\<close>

record PixelData =
  mLeft :: u32
  mTop :: u32
  mFront :: u32
  mRight :: u32
  mBottom :: u32
  mBack :: u32
  mRowPitch :: u32
  mSlicePitch :: u32
  mFormat :: PixelFormat
  mData :: "nat option"

definition getLeft :: "PixelData \<Rightarrow> u32" where "getLeft pd = mLeft pd"
definition getTop :: "PixelData \<Rightarrow> u32" where "getTop pd = mTop pd"
definition getFront :: "PixelData \<Rightarrow> u32" where "getFront pd = mFront pd"
definition getRight :: "PixelData \<Rightarrow> u32" where "getRight pd = mRight pd"
definition getBottom :: "PixelData \<Rightarrow> u32" where "getBottom pd = mBottom pd"
definition getBack :: "PixelData \<Rightarrow> u32" where "getBack pd = mBack pd"
definition getWidth :: "PixelData \<Rightarrow> u32" where "getWidth pd = mRight pd - mLeft pd"
definition getHeight :: "PixelData \<Rightarrow> u32" where "getHeight pd = mBottom pd - mTop pd"
definition getDepth :: "PixelData \<Rightarrow> u32" where "getDepth pd = mBack pd - mFront pd"
definition getRowPitch :: "PixelData \<Rightarrow> u32" where "getRowPitch pd = mRowPitch pd"
definition getSlicePitch :: "PixelData \<Rightarrow> u32" where "getSlicePitch pd = mSlicePitch pd"
definition getRowSkip :: "PixelData \<Rightarrow> u32" where
  "getRowSkip pd = mRowPitch pd - getWidth pd"
definition getSliceSkip :: "PixelData \<Rightarrow> u32" where
  "getSliceSkip pd = mSlicePitch pd - getHeight pd * mRowPitch pd"
definition getFormat :: "PixelData \<Rightarrow> PixelFormat" where "getFormat pd = mFormat pd"
definition getData :: "PixelData \<Rightarrow> nat option" where "getData pd = mData pd"
definition isConsecutive :: "PixelData \<Rightarrow> bool" where
  "isConsecutive pd =
     (mRowPitch pd = getWidth pd \<and> mSlicePitch pd = getWidth pd * getHeight pd)"
definition getConsecutiveSize :: "PixelData \<Rightarrow> error + u32" where
  "getConsecutiveSize pd = getMemorySize (getWidth pd) (getHeight pd) (getDepth pd) (mFormat pd)"

definition newPixelData :: "u32 \<Rightarrow> u32 \<Rightarrow> u32 \<Rightarrow> PixelFormat \<Rightarrow> PixelData" where
  "newPixelData width height depth pixelFormat =
     \<lparr> mLeft = 0, mTop = 0, mFront = 0, mRight = width, mBottom = height, mBack = depth,
       mRowPitch = width, mSlicePitch = width * height, mFormat = pixelFormat,
       mData = None \<rparr>"

definition setExternalBuffer :: "PixelData \<Rightarrow> nat option \<Rightarrow> PixelData" where
  "setExternalBuffer pd p = pd\<lparr>mData := p\<rparr>"

text \<open>
  Pointers that may be null. Dereferencing a null pointer stops the program
  (\<open>NullPointerAccess\<close>); \<open>packColor\<close> and \<open>unpackColor\<close> raise "not implemented"
  for a format without a conversion before they touch memory.
\<close>

definition ptrAdd :: "nat option \<Rightarrow> nat \<Rightarrow> nat option" where
  "ptrAdd p n = map_option (\<lambda>a. a + n) p"

definition codecImplemented :: "PixelFormat \<Rightarrow> bool" where
  "codecImplemented format =
     (flags (getDescriptionFor format) AND PFF_NATIVEENDIAN \<noteq> 0 \<or>
      format \<in> {PF_FLOAT32_R, PF_FLOAT32_RG, PF_FLOAT32_RGB, PF_FLOAT32_RGBA,
                PF_FLOAT16_R, PF_FLOAT16_RG, PF_FLOAT16_RGB, PF_FLOAT16_RGBA, PF_R8G8, PF_R8})"

definition packColorAt ::
  "FloatCodec \<Rightarrow> real \<times> real \<times> real \<times> real \<Rightarrow> PixelFormat \<Rightarrow> nat option \<Rightarrow> memory
     \<Rightarrow> error + memory" where
  "packColorAt fc c format dest mem =
     (case c of (r, g, b, a) \<Rightarrow>
      case dest of
        Some d \<Rightarrow> packColor fc r g b a format d mem
      | None \<Rightarrow> if codecImplemented format then Inl NullPointerAccess
                else Inl NotImplementedException)"

definition unpackColorAt ::
  "FloatCodec \<Rightarrow> PixelFormat \<Rightarrow> nat option \<Rightarrow> memory \<Rightarrow> error + real \<times> real \<times> real \<times> real" where
  "unpackColorAt fc format src mem =
     (case src of
        Some s \<Rightarrow> unpackColor fc format s mem
      | None \<Rightarrow> if codecImplemented format then Inl NullPointerAccess
                else Inl NotImplementedException)"

definition memcpyAt ::
  "nat option \<Rightarrow> nat option \<Rightarrow> nat \<Rightarrow> memory \<Rightarrow> (error \<times> memory) + memory" where
  "memcpyAt dst src n mem =
     (if n = 0 then Inr mem
      else case (dst, src) of
             (Some d, Some s) \<Rightarrow> Inr (memcpy d s n mem)
           | _ \<Rightarrow> Inl (NullPointerAccess, mem))"

text \<open>
  The loops of \<open>bulkPixelConversion\<close>. A loop \<open>for (i = lo; i < hi; i++)\<close> over
  \<open>UINT32\<close> runs \<open>unat hi - unat lo\<close> times; its state is the two running pointers and
  the memory. An exception leaves the loops with the memory as it is at that moment.
\<close>

type_synonym cursor = "nat option \<times> nat option \<times> memory"

fun copyRows ::
  "nat \<Rightarrow> nat \<Rightarrow> nat \<Rightarrow> nat \<Rightarrow> cursor \<Rightarrow> (error \<times> memory) + cursor" where
  "copyRows rowSize srcRowPitchBytes dstRowPitchBytes 0 cur = Inr cur"
| "copyRows rowSize srcRowPitchBytes dstRowPitchBytes (Suc n) (srcptr, dstptr, mem) =
     (case memcpyAt dstptr srcptr rowSize mem of
        Inl e \<Rightarrow> Inl e
      | Inr mem' \<Rightarrow>
          copyRows rowSize srcRowPitchBytes dstRowPitchBytes n
            (ptrAdd srcptr srcRowPitchBytes, ptrAdd dstptr dstRowPitchBytes, mem'))"

fun copySlices ::
  "nat \<Rightarrow> nat \<Rightarrow> nat \<Rightarrow> nat \<Rightarrow> nat \<Rightarrow> nat \<Rightarrow> nat \<Rightarrow> cursor \<Rightarrow> (error \<times> memory) + cursor" where
  "copySlices rowSize srp drp rows sss dss 0 cur = Inr cur"
| "copySlices rowSize srp drp rows sss dss (Suc n) cur =
     (case copyRows rowSize srp drp rows cur of
        Inl e \<Rightarrow> Inl e
      | Inr (srcptr, dstptr, mem') \<Rightarrow>
          copySlices rowSize srp drp rows sss dss n (ptrAdd srcptr sss, ptrAdd dstptr dss, mem'))"

fun convertPixels ::
  "FloatCodec \<Rightarrow> PixelFormat \<Rightarrow> PixelFormat \<Rightarrow> nat \<Rightarrow> nat \<Rightarrow> nat \<Rightarrow> cursor
     \<Rightarrow> (error \<times> memory) + cursor" where
  "convertPixels fc sf df sps dps 0 cur = Inr cur"
| "convertPixels fc sf df sps dps (Suc n) (srcptr, dstptr, mem) =
     (case unpackColorAt fc sf srcptr mem of
        Inl e \<Rightarrow> Inl (e, mem)
      | Inr c \<Rightarrow>
          (case packColorAt fc c df dstptr mem of
             Inl e \<Rightarrow> Inl (e, mem)
           | Inr mem' \<Rightarrow>
               convertPixels fc sf df sps dps n (ptrAdd srcptr sps, ptrAdd dstptr dps, mem')))"

fun convertRows ::
  "FloatCodec \<Rightarrow> PixelFormat \<Rightarrow> PixelFormat \<Rightarrow> nat \<Rightarrow> nat \<Rightarrow> nat \<Rightarrow> nat \<Rightarrow> nat \<Rightarrow> nat
     \<Rightarrow> cursor \<Rightarrow> (error \<times> memory) + cursor" where
  "convertRows fc sf df sps dps cols srs drs 0 cur = Inr cur"
| "convertRows fc sf df sps dps cols srs drs (Suc n) cur =
     (case convertPixels fc sf df sps dps cols cur of
        Inl e \<Rightarrow> Inl e
      | Inr (srcptr, dstptr, mem') \<Rightarrow>
          convertRows fc sf df sps dps cols srs drs n (ptrAdd srcptr srs, ptrAdd dstptr drs, mem'))"

fun convertSlices ::
  "FloatCodec \<Rightarrow> PixelFormat \<Rightarrow> PixelFormat \<Rightarrow> nat \<Rightarrow> nat \<Rightarrow> nat \<Rightarrow> nat \<Rightarrow> nat \<Rightarrow> nat
     \<Rightarrow> nat \<Rightarrow> nat \<Rightarrow> nat \<Rightarrow> cursor \<Rightarrow> (error \<times> memory) + cursor" where
  "convertSlices fc sf df sps dps cols srs drs rows sss dss 0 cur = Inr cur"
| "convertSlices fc sf df sps dps cols srs drs rows sss dss (Suc n) cur =
     (case convertRows fc sf df sps dps cols srs drs rows cur of
        Inl e \<Rightarrow> Inl e
      | Inr (srcptr, dstptr, mem') \<Rightarrow>
          convertSlices fc sf df sps dps cols srs drs rows sss dss n
            (ptrAdd srcptr sss, ptrAdd dstptr dss, mem'))"

definition paddedToAlpha :: "PixelFormat \<Rightarrow> PixelFormat" where
  "paddedToAlpha format = (if format = PF_X8R8G8B8 then PF_A8R8G8B8 else PF_A8B8G8R8)"

function bulkPixelConversion ::
  "FloatCodec \<Rightarrow> PixelData \<Rightarrow> PixelData \<Rightarrow> memory \<Rightarrow> (error \<times> memory) + memory" where
  "bulkPixelConversion fc src dst mem =
     (if \<not> (getWidth src = getWidth dst \<and> getHeight src = getHeight dst \<and>
             getDepth src = getDepth dst) then Inl (AssertionFailed, mem)
      else if isCompressed (getFormat src) \<or> isCompressed (getFormat dst) then
        (if getFormat src = getFormat dst then
           (case getConsecutiveSize src of
              Inl e \<Rightarrow> Inl (e, mem)
            | Inr n \<Rightarrow> memcpyAt (getData dst) (getData src) (unat n) mem)
         else Inl (NotImplementedException, mem))
      else if getFormat src = getFormat dst then
        (if isConsecutive src \<and> isConsecutive dst then
           (case getConsecutiveSize src of
              Inl e \<Rightarrow> Inl (e, mem)
            | Inr n \<Rightarrow> memcpyAt (getData dst) (getData src) (unat n) mem)
         else
           (let srcPixelSize = getNumElemBytes (getFormat src);
                dstPixelSize = getNumElemBytes (getFormat dst);
                srcptr = ptrAdd (getData src)
                  (unat ((getLeft src + getTop src * getRowPitch src
                          + getFront src * getSlicePitch src) * srcPixelSize));
                dstptr = ptrAdd (getData dst)
                  (unat ((getLeft dst + getTop dst * getRowPitch dst
                          + getFront dst * getSlicePitch dst) * dstPixelSize));
                srcRowPitchBytes = getRowPitch src * srcPixelSize;
                srcSliceSkipBytes = getSliceSkip src * srcPixelSize;
                dstRowPitchBytes = getRowPitch dst * dstPixelSize;
                dstSliceSkipBytes = getSliceSkip dst * dstPixelSize;
                rowSize = getWidth src * srcPixelSize
            in case copySlices (unat rowSize) (unat srcRowPitchBytes) (unat dstRowPitchBytes)
                      (unat (getBottom src) - unat (getTop src))
                      (unat srcSliceSkipBytes) (unat dstSliceSkipBytes)
                      (unat (getBack src) - unat (getFront src)) (srcptr, dstptr, mem) of
                 Inl e \<Rightarrow> Inl e
               | Inr (sp, dp, mem') \<Rightarrow> Inr mem'))
      else if getFormat dst = PF_X8R8G8B8 \<or> getFormat dst = PF_X8B8G8R8 then
        (let tempFormat = paddedToAlpha (getFormat dst);
             tempdst = newPixelData (getWidth dst) (getHeight dst) (getDepth dst) tempFormat
         in bulkPixelConversion fc src tempdst mem)
      else if (getFormat src = PF_X8R8G8B8 \<or> getFormat src = PF_X8B8G8R8)
              \<and> \<not> hasAlpha (getFormat dst) then
        (let tempFormat = paddedToAlpha (getFormat src);
             tempsrc = setExternalBuffer
               (newPixelData (getWidth src) (getHeight src) (getDepth src) tempFormat)
               (getData src)
         in bulkPixelConversion fc tempsrc dst mem)
      else
        (let srcPixelSize = getNumElemBytes (getFormat src);
             dstPixelSize = getNumElemBytes (getFormat dst);
             srcptr = ptrAdd (getData src)
               (unat ((getLeft src + getTop src * getRowPitch src
                       + getFront src * getSlicePitch src) * srcPixelSize));
             dstptr = ptrAdd (getData dst)
               (unat ((getLeft dst + getTop dst * getRowPitch dst
                       + getFront dst * getSlicePitch dst) * dstPixelSize));
             srcRowSkipBytes = getRowSkip src * srcPixelSize;
             srcSliceSkipBytes = getSliceSkip src * srcPixelSize;
             dstRowSkipBytes = getRowSkip dst * dstPixelSize;
             dstSliceSkipBytes = getSliceSkip dst * dstPixelSize
         in case convertSlices fc (getFormat src) (getFormat dst)
                   (unat srcPixelSize) (unat dstPixelSize)
                   (unat (getRight src) - unat (getLeft src))
                   (unat srcRowSkipBytes) (unat dstRowSkipBytes)
                   (unat (getBottom src) - unat (getTop src))
                   (unat srcSliceSkipBytes) (unat dstSliceSkipBytes)
                   (unat (getBack src) - unat (getFront src)) (srcptr, dstptr, mem) of
              Inl e \<Rightarrow> Inl e
            | Inr (sp, dp, mem') \<Rightarrow> Inr mem'))"
  by pat_completeness auto
termination
  by (relation "measure (\<lambda>(fc, src, dst, mem).
        (if getFormat dst \<in> {PF_X8R8G8B8, PF_X8B8G8R8} then 2 else 0) +
        (if getFormat src \<in> {PF_X8R8G8B8, PF_X8B8G8R8} then 1 else 0))")
     (auto simp add: getFormat_def newPixelData_def setExternalBuffer_def paddedToAlpha_def)

declare bulkPixelConversion.simps [simp del]

text \<open>A consecutive buffer over attached memory at address \<open>p\<close>, for the examples.\<close>

definition bufferAt :: "nat \<Rightarrow> u32 \<Rightarrow> u32 \<Rightarrow> u32 \<Rightarrow> PixelFormat \<Rightarrow> PixelData" where
  "bufferAt p width height depth pixelFormat =
     setExternalBuffer (newPixelData width height depth pixelFormat) (Some p)"

section \<open>Resampling\<close>

text \<open>
  The kernels walk the destination with a 16.48 fixed-point source coordinate per axis:
  the step is \<open>(source extent << 48) / destination extent\<close> on \<open>UINT64\<close> (the division
  traps for an empty destination extent), the walk starts at \<open>(step >> 1) - 1\<close> and adds
  the step at each destination pixel. \<open>nearestCoord\<close>, \<open>linearSample\<close> and
  \<open>byteSample\<close> are what the three kinds of kernel derive from the running coordinate:
  the source coordinate, or the two sample coordinates and the blend weight (16 bits in
  the generic and float32 kernels, 12 bits in the byte kernel). The template parameters
  (element size, channel count) are ordinary arguments. A kernel dereferences its data
  pointers at the first destination pixel; nothing is dereferenced when the destination
  region has no pixel.
\<close>

definition fixedStep :: "u32 \<Rightarrow> u32 \<Rightarrow> u64" where
  "fixedStep srcExtent dstExtent = push_bit 48 (ucast srcExtent) div ucast dstExtent"

definition startCoord :: "u64 \<Rightarrow> u64" where
  "startCoord step = drop_bit 1 step - 1"

definition nearestCoord :: "u64 \<Rightarrow> u32" where
  "nearestCoord cur = ucast (drop_bit 48 cur)"

definition linearSample :: "u64 \<Rightarrow> u32 \<Rightarrow> u32 \<times> u32 \<times> u32" where
  "linearSample cur srcExtent =
     (let temp = (ucast (drop_bit 32 cur) :: u32);
          temp = (if temp > 0x8000 then temp - 0x8000 else 0);
          sampleCoord1 = drop_bit 16 temp;
          sampleCoord2 = min (sampleCoord1 + 1) (srcExtent - 1)
      in (sampleCoord1, sampleCoord2, temp AND 0xFFFF))"

definition byteSample :: "u64 \<Rightarrow> u32 \<Rightarrow> u32 \<times> u32 \<times> u32" where
  "byteSample cur srcExtent =
     (let temp = (ucast (drop_bit 36 cur) :: u32);
          temp = (if temp > 0x800 then temp - 0x800 else 0);
          sampleWeight = temp AND 0xFFF;
          sampleCoord1 = drop_bit 12 temp;
          sampleCoord2 = min (sampleCoord1 + 1) (srcExtent - 1)
      in (sampleCoord1, sampleCoord2, sampleWeight))"

definition regionEmpty :: "PixelData \<Rightarrow> bool" where
  "regionEmpty pd =
     (unat (getRight pd) - unat (getLeft pd) = 0 \<or> unat (getBottom pd) - unat (getTop pd) = 0
      \<or> unat (getBack pd) - unat (getFront pd) = 0)"

fun nearestRow ::
  "nat \<Rightarrow> nat \<Rightarrow> u32 \<Rightarrow> u32 \<Rightarrow> u64 \<Rightarrow> nat \<Rightarrow> u64 \<Rightarrow> nat \<Rightarrow> memory \<Rightarrow> nat \<times> memory" where
  "nearestRow elementSize sourceData offsetY offsetZ stepX 0 curX destPtr mem = (destPtr, mem)"
| "nearestRow elementSize sourceData offsetY offsetZ stepX (Suc n) curX destPtr mem =
     (let offsetX = nearestCoord curX;
          offsetBytes = (of_nat elementSize :: u32) * (offsetX + offsetY + offsetZ)
      in nearestRow elementSize sourceData offsetY offsetZ stepX n (curX + stepX)
           (destPtr + elementSize)
           (memcpy destPtr (sourceData + unat offsetBytes) elementSize mem))"

fun nearestRows ::
  "nat \<Rightarrow> PixelData \<Rightarrow> PixelData \<Rightarrow> nat \<Rightarrow> u32 \<Rightarrow> u64 \<Rightarrow> u64 \<Rightarrow> nat \<Rightarrow> u64 \<Rightarrow> nat
     \<Rightarrow> memory \<Rightarrow> nat \<times> memory" where
  "nearestRows elementSize source dest sourceData offsetZ stepX stepY 0 curY destPtr mem =
     (destPtr, mem)"
| "nearestRows elementSize source dest sourceData offsetZ stepX stepY (Suc n) curY destPtr mem =
     (let offsetY = nearestCoord curY * getRowPitch source
      in case nearestRow elementSize sourceData offsetY offsetZ stepX
                (unat (getRight dest) - unat (getLeft dest)) (startCoord stepX) destPtr mem of
           (destPtr', mem') \<Rightarrow>
             nearestRows elementSize source dest sourceData offsetZ stepX stepY n (curY + stepY)
               (destPtr' + unat ((of_nat elementSize :: u32) * getRowSkip dest)) mem')"

fun nearestSlices ::
  "nat \<Rightarrow> PixelData \<Rightarrow> PixelData \<Rightarrow> nat \<Rightarrow> u64 \<Rightarrow> u64 \<Rightarrow> u64 \<Rightarrow> nat \<Rightarrow> u64 \<Rightarrow> nat
     \<Rightarrow> memory \<Rightarrow> nat \<times> memory" where
  "nearestSlices elementSize source dest sourceData stepX stepY stepZ 0 curZ destPtr mem =
     (destPtr, mem)"
| "nearestSlices elementSize source dest sourceData stepX stepY stepZ (Suc n) curZ destPtr mem =
     (let offsetZ = nearestCoord curZ * getSlicePitch source
      in case nearestRows elementSize source dest sourceData offsetZ stepX stepY
                (unat (getBottom dest) - unat (getTop dest)) (startCoord stepY) destPtr mem of
           (destPtr', mem') \<Rightarrow>
             nearestSlices elementSize source dest sourceData stepX stepY stepZ n (curZ + stepZ)
               (destPtr' + unat ((of_nat elementSize :: u32) * getSliceSkip dest)) mem')"

definition NearestResampler_scale ::
  "nat \<Rightarrow> PixelData \<Rightarrow> PixelData \<Rightarrow> memory \<Rightarrow> (error \<times> memory) + memory" where
  "NearestResampler_scale elementSize source dest mem =
     (if getWidth dest = 0 \<or> getHeight dest = 0 \<or> getDepth dest = 0
      then Inl (DivisionByZero, mem)
      else
        (let stepX = fixedStep (getWidth source) (getWidth dest);
             stepY = fixedStep (getHeight source) (getHeight dest);
             stepZ = fixedStep (getDepth source) (getDepth dest)
         in if regionEmpty dest then Inr mem
            else case (getData source, getData dest) of
                (Some sourceData, Some destPtr) \<Rightarrow>
                  Inr (snd (nearestSlices elementSize source dest sourceData stepX stepY stepZ
                         (unat (getBack dest) - unat (getFront dest)) (startCoord stepZ)
                         destPtr mem))
              | _ \<Rightarrow> Inl (NullPointerAccess, mem)))"

type_synonym Color = "real \<times> real \<times> real \<times> real"

definition colorScale :: "FloatCodec \<Rightarrow> Color \<Rightarrow> real \<Rightarrow> Color" where
  "colorScale fc c f =
     (case c of (r, g, b, a) \<Rightarrow> (fmul fc r f, fmul fc g f, fmul fc b f, fmul fc a f))"

definition colorAdd :: "FloatCodec \<Rightarrow> Color \<Rightarrow> Color \<Rightarrow> Color" where
  "colorAdd fc c c' =
     (case c of (r, g, b, a) \<Rightarrow> case c' of (r', g', b', a') \<Rightarrow>
        (fadd fc r r', fadd fc g g', fadd fc b b', fadd fc a a'))"

text \<open>
  The eight blend factors of a destination pixel, in the order of the code:
  \<open>x1y1z1\<close>, \<open>x2y1z1\<close>, \<open>x1y2z1\<close>, \<open>x2y2z1\<close>, \<open>x1y1z2\<close>, \<open>x2y1z2\<close>, \<open>x1y2z2\<close>,
  \<open>x2y2z2\<close>; each is a product of three floats, multiplied from the left.
\<close>

definition blendFactors :: "FloatCodec \<Rightarrow> real \<Rightarrow> real \<Rightarrow> real \<Rightarrow> real list" where
  "blendFactors fc wx wy wz =
     (let ox = fsub fc 1 wx; oy = fsub fc 1 wy; oz = fsub fc 1 wz
      in [fmul fc (fmul fc ox oy) oz, fmul fc (fmul fc wx oy) oz,
          fmul fc (fmul fc ox wy) oz, fmul fc (fmul fc wx wy) oz,
          fmul fc (fmul fc ox oy) wz, fmul fc (fmul fc wx oy) wz,
          fmul fc (fmul fc ox wy) wz, fmul fc (fmul fc wx wy) wz])"

definition sampleWeight :: "u32 \<Rightarrow> real" where
  "sampleWeight t = real (unat t) / 65536"

definition getSourceData :: "PixelData \<Rightarrow> nat \<Rightarrow> u32 \<Rightarrow> u32 \<Rightarrow> u32 \<Rightarrow> u32 \<Rightarrow> nat" where
  "getSourceData source sourceData sourceElemSize x y z =
     sourceData + unat (sourceElemSize * (x + y * getRowPitch source + z * getSlicePitch source))"

definition linearPixel ::
  "FloatCodec \<Rightarrow> PixelData \<Rightarrow> nat \<Rightarrow> u32 \<times> u32 \<times> u32 \<Rightarrow> u32 \<times> u32 \<times> u32 \<Rightarrow> u32 \<times> u32 \<times> u32
     \<Rightarrow> memory \<Rightarrow> error + Color" where
  "linearPixel fc source sourceData sx sy sz mem =
     (case sx of (x1, x2, fx) \<Rightarrow> case sy of (y1, y2, fy) \<Rightarrow> case sz of (z1, z2, fz) \<Rightarrow>
      let ses = getNumElemBytes (getFormat source);
          fs = blendFactors fc (sampleWeight fx) (sampleWeight fy) (sampleWeight fz);
          get = (\<lambda>x y z. unpackColor fc (getFormat source)
                            (getSourceData source sourceData ses x y z) mem)
      in bindE (get x1 y1 z1) (\<lambda>x1y1z1.
         bindE (get x2 y1 z1) (\<lambda>x2y1z1.
         bindE (get x1 y2 z1) (\<lambda>x1y2z1.
         bindE (get x2 y2 z1) (\<lambda>x2y2z1.
         bindE (get x1 y1 z2) (\<lambda>x1y1z2.
         bindE (get x2 y1 z2) (\<lambda>x2y1z2.
         bindE (get x1 y2 z2) (\<lambda>x1y2z2.
         bindE (get x2 y2 z2) (\<lambda>x2y2z2.
           Inr (foldl (colorAdd fc) (colorScale fc x1y1z1 (fs ! 0))
                  [colorScale fc x2y1z1 (fs ! 1), colorScale fc x1y2z1 (fs ! 2),
                   colorScale fc x2y2z1 (fs ! 3), colorScale fc x1y1z2 (fs ! 4),
                   colorScale fc x2y1z2 (fs ! 5), colorScale fc x1y2z2 (fs ! 6),
                   colorScale fc x2y2z2 (fs ! 7)]))))))))))"

type_synonym walk = "(error \<times> memory) + (nat \<times> memory)"

fun linearRow ::
  "FloatCodec \<Rightarrow> PixelData \<Rightarrow> PixelData \<Rightarrow> nat \<Rightarrow> u32 \<times> u32 \<times> u32 \<Rightarrow> u32 \<times> u32 \<times> u32 \<Rightarrow> u64
     \<Rightarrow> nat \<Rightarrow> u64 \<Rightarrow> nat \<Rightarrow> memory \<Rightarrow> walk" where
  "linearRow fc source dest sourceData sy sz stepX 0 curX destPtr mem = Inr (destPtr, mem)"
| "linearRow fc source dest sourceData sy sz stepX (Suc n) curX destPtr mem =
     (case linearPixel fc source sourceData (linearSample curX (getWidth source)) sy sz mem of
        Inl e \<Rightarrow> Inl (e, mem)
      | Inr accum \<Rightarrow>
          (case accum of (r, g, b, a) \<Rightarrow>
           case packColor fc r g b a (getFormat dest) destPtr mem of
             Inl e \<Rightarrow> Inl (e, mem)
           | Inr mem' \<Rightarrow>
               linearRow fc source dest sourceData sy sz stepX n (curX + stepX)
                 (destPtr + unat (getNumElemBytes (getFormat dest))) mem'))"

fun linearRows ::
  "FloatCodec \<Rightarrow> PixelData \<Rightarrow> PixelData \<Rightarrow> nat \<Rightarrow> u32 \<times> u32 \<times> u32 \<Rightarrow> u64 \<Rightarrow> u64
     \<Rightarrow> nat \<Rightarrow> u64 \<Rightarrow> nat \<Rightarrow> memory \<Rightarrow> walk" where
  "linearRows fc source dest sourceData sz stepX stepY 0 curY destPtr mem = Inr (destPtr, mem)"
| "linearRows fc source dest sourceData sz stepX stepY (Suc n) curY destPtr mem =
     (case linearRow fc source dest sourceData (linearSample curY (getHeight source)) sz stepX
             (unat (getRight dest) - unat (getLeft dest)) (startCoord stepX) destPtr mem of
        Inl e \<Rightarrow> Inl e
      | Inr (destPtr', mem') \<Rightarrow>
          linearRows fc source dest sourceData sz stepX stepY n (curY + stepY)
            (destPtr' + unat (getNumElemBytes (getFormat dest) * getRowSkip dest)) mem')"

fun linearSlices ::
  "FloatCodec \<Rightarrow> PixelData \<Rightarrow> PixelData \<Rightarrow> nat \<Rightarrow> u64 \<Rightarrow> u64 \<Rightarrow> u64
     \<Rightarrow> nat \<Rightarrow> u64 \<Rightarrow> nat \<Rightarrow> memory \<Rightarrow> walk" where
  "linearSlices fc source dest sourceData stepX stepY stepZ 0 curZ destPtr mem =
     Inr (destPtr, mem)"
| "linearSlices fc source dest sourceData stepX stepY stepZ (Suc n) curZ destPtr mem =
     (case linearRows fc source dest sourceData (linearSample curZ (getDepth source))
             stepX stepY (unat (getBottom dest) - unat (getTop dest)) (startCoord stepY)
             destPtr mem of
        Inl e \<Rightarrow> Inl e
      | Inr (destPtr', mem') \<Rightarrow>
          linearSlices fc source dest sourceData stepX stepY stepZ n (curZ + stepZ)
            (destPtr' + unat (getNumElemBytes (getFormat dest) * getSliceSkip dest)) mem')"

definition LinearResampler_scale ::
  "FloatCodec \<Rightarrow> PixelData \<Rightarrow> PixelData \<Rightarrow> memory \<Rightarrow> (error \<times> memory) + memory" where
  "LinearResampler_scale fc source dest mem =
     (if getWidth dest = 0 \<or> getHeight dest = 0 \<or> getDepth dest = 0
      then Inl (DivisionByZero, mem)
      else
        (let stepX = fixedStep (getWidth source) (getWidth dest);
             stepY = fixedStep (getHeight source) (getHeight dest);
             stepZ = fixedStep (getDepth source) (getDepth dest)
         in if regionEmpty dest then Inr mem
            else case (getData source, getData dest) of
                (Some sourceData, Some destPtr) \<Rightarrow>
                  (case linearSlices fc source dest sourceData stepX stepY stepZ
                          (unat (getBack dest) - unat (getFront dest)) (startCoord stepZ)
                          destPtr mem of
                     Inl e \<Rightarrow> Inl e
                   | Inr (destPtr', mem') \<Rightarrow> Inr mem')
              | _ \<Rightarrow> Inl (NullPointerAccess, mem)))"

definition accumSample ::
  "FloatCodec \<Rightarrow> PixelData \<Rightarrow> nat \<Rightarrow> u32 \<Rightarrow> nat \<Rightarrow> memory \<Rightarrow> real list \<Rightarrow> u32 \<Rightarrow> u32 \<Rightarrow> u32
     \<Rightarrow> real \<Rightarrow> real list" where
  "accumSample fc source sourceData numSourceChannels channels mem accum x y z f =
     (let offset = (x + y * getRowPitch source + z * getSlicePitch source) * numSourceChannels
      in map (\<lambda>(c, v). if c < channels
                         then fadd fc v
                                (fmul fc (loadFloat fc mem sourceData (unat (offset + of_nat c))) f)
                         else v) (zip [0 ..< 4] accum))"

definition float32Pixel ::
  "FloatCodec \<Rightarrow> PixelData \<Rightarrow> nat \<Rightarrow> u32 \<Rightarrow> u32 \<Rightarrow> u32 \<times> u32 \<times> u32 \<Rightarrow> u32 \<times> u32 \<times> u32
     \<Rightarrow> u32 \<times> u32 \<times> u32 \<Rightarrow> memory \<Rightarrow> real list" where
  "float32Pixel fc source sourceData numSourceChannels numDestChannels sx sy sz mem =
     (case sx of (x1, x2, fx) \<Rightarrow> case sy of (y1, y2, fy) \<Rightarrow> case sz of (z1, z2, fz) \<Rightarrow>
      let fs = blendFactors fc (sampleWeight fx) (sampleWeight fy) (sampleWeight fz);
          rgb = (numSourceChannels = 3 \<or> numDestChannels = 3);
          acc = accumSample fc source sourceData numSourceChannels (if rgb then 3 else 4) mem;
          accum = [0, 0, 0, 0];
          accum = acc accum x1 y1 z1 (fs ! 0);
          accum = acc accum x2 y1 z1 (fs ! 1);
          accum = acc accum x1 y2 z1 (fs ! 2);
          accum = acc accum x2 y2 z1 (fs ! 3);
          accum = acc accum x1 y1 z2 (fs ! 4);
          accum = acc accum x2 y1 z2 (fs ! 5);
          accum = acc accum x1 y2 z2 (fs ! 6);
          accum = acc accum x2 y2 z2 (fs ! 7)
      in if rgb then accum[3 := 1] else accum)"

definition storeFloats :: "FloatCodec \<Rightarrow> nat \<Rightarrow> nat \<Rightarrow> real list \<Rightarrow> memory \<Rightarrow> memory" where
  "storeFloats fc destPtr n accum mem =
     foldl (\<lambda>m (c, v). storeFloat fc destPtr c v m) mem (zip [0 ..< n] accum)"

fun float32Row ::
  "FloatCodec \<Rightarrow> PixelData \<Rightarrow> nat \<Rightarrow> u32 \<Rightarrow> u32 \<Rightarrow> u32 \<times> u32 \<times> u32 \<Rightarrow> u32 \<times> u32 \<times> u32 \<Rightarrow> u64
     \<Rightarrow> nat \<Rightarrow> u64 \<Rightarrow> nat \<Rightarrow> memory \<Rightarrow> nat \<times> memory" where
  "float32Row fc source sourceData nsc ndc sy sz stepX 0 curX destPtr mem = (destPtr, mem)"
| "float32Row fc source sourceData nsc ndc sy sz stepX (Suc n) curX destPtr mem =
     (let accum = float32Pixel fc source sourceData nsc ndc
                    (linearSample curX (getWidth source)) sy sz mem
      in float32Row fc source sourceData nsc ndc sy sz stepX n (curX + stepX)
           (destPtr + 4 * unat ndc) (storeFloats fc destPtr (unat ndc) accum mem))"

fun float32Rows ::
  "FloatCodec \<Rightarrow> PixelData \<Rightarrow> PixelData \<Rightarrow> nat \<Rightarrow> u32 \<Rightarrow> u32 \<Rightarrow> u32 \<times> u32 \<times> u32 \<Rightarrow> u64 \<Rightarrow> u64
     \<Rightarrow> nat \<Rightarrow> u64 \<Rightarrow> nat \<Rightarrow> memory \<Rightarrow> nat \<times> memory" where
  "float32Rows fc source dest sourceData nsc ndc sz stepX stepY 0 curY destPtr mem =
     (destPtr, mem)"
| "float32Rows fc source dest sourceData nsc ndc sz stepX stepY (Suc n) curY destPtr mem =
     (case float32Row fc source sourceData nsc ndc (linearSample curY (getHeight source)) sz
             stepX (unat (getRight dest) - unat (getLeft dest)) (startCoord stepX) destPtr mem of
        (destPtr', mem') \<Rightarrow>
          float32Rows fc source dest sourceData nsc ndc sz stepX stepY n (curY + stepY)
            (destPtr' + 4 * unat (ndc * getRowSkip dest)) mem')"

fun float32Slices ::
  "FloatCodec \<Rightarrow> PixelData \<Rightarrow> PixelData \<Rightarrow> nat \<Rightarrow> u32 \<Rightarrow> u32 \<Rightarrow> u64 \<Rightarrow> u64 \<Rightarrow> u64
     \<Rightarrow> nat \<Rightarrow> u64 \<Rightarrow> nat \<Rightarrow> memory \<Rightarrow> nat \<times> memory" where
  "float32Slices fc source dest sourceData nsc ndc stepX stepY stepZ 0 curZ destPtr mem =
     (destPtr, mem)"
| "float32Slices fc source dest sourceData nsc ndc stepX stepY stepZ (Suc n) curZ destPtr mem =
     (case float32Rows fc source dest sourceData nsc ndc (linearSample curZ (getDepth source))
             stepX stepY (unat (getBottom dest) - unat (getTop dest)) (startCoord stepY)
             destPtr mem of
        (destPtr', mem') \<Rightarrow>
          float32Slices fc source dest sourceData nsc ndc stepX stepY stepZ n (curZ + stepZ)
            (destPtr' + 4 * unat (ndc * getSliceSkip dest)) mem')"

definition LinearResampler_Float32_scale ::
  "FloatCodec \<Rightarrow> PixelData \<Rightarrow> PixelData \<Rightarrow> memory \<Rightarrow> (error \<times> memory) + memory" where
  "LinearResampler_Float32_scale fc source dest mem =
     (if getWidth dest = 0 \<or> getHeight dest = 0 \<or> getDepth dest = 0
      then Inl (DivisionByZero, mem)
      else
        (let numSourceChannels = getNumElemBytes (getFormat source) div 4;
             numDestChannels = getNumElemBytes (getFormat dest) div 4;
             stepX = fixedStep (getWidth source) (getWidth dest);
             stepY = fixedStep (getHeight source) (getHeight dest);
             stepZ = fixedStep (getDepth source) (getDepth dest)
         in if regionEmpty dest then Inr mem
            else case (getData source, getData dest) of
                (Some sourceData, Some destPtr) \<Rightarrow>
                  Inr (snd (float32Slices fc source dest sourceData numSourceChannels
                         numDestChannels stepX stepY stepZ
                         (unat (getBack dest) - unat (getFront dest)) (startCoord stepZ)
                         destPtr mem))
              | _ \<Rightarrow> Inl (NullPointerAccess, mem)))"

definition byteChannel ::
  "u32 \<Rightarrow> nat \<Rightarrow> memory \<Rightarrow> u32 \<Rightarrow> u32 \<Rightarrow> u32 \<Rightarrow> u32 \<Rightarrow> u32 \<Rightarrow> u32 \<Rightarrow> u32 \<Rightarrow> u8" where
  "byteChannel channels sourceData mem sampleCoordX1 sampleCoordX2 sampleY1Offset sampleY2Offset
       sampleWeightX sampleWeightY k =
     (let sxfsyf = sampleWeightX * sampleWeightY;
          rd = (\<lambda>x yoff. (ucast (mem (sourceData + unat ((x + yoff) * channels + k))) :: u32));
          accum =
            rd sampleCoordX1 sampleY1Offset
              * (0x1000000 - push_bit 12 sampleWeightX - push_bit 12 sampleWeightY + sxfsyf)
            + rd sampleCoordX2 sampleY1Offset * (push_bit 12 sampleWeightX - sxfsyf)
            + rd sampleCoordX1 sampleY2Offset * (push_bit 12 sampleWeightY - sxfsyf)
            + rd sampleCoordX2 sampleY2Offset * sxfsyf
      in ucast (drop_bit 24 (accum + 0x800000)))"

fun byteChannels ::
  "u32 \<Rightarrow> nat \<Rightarrow> u32 \<times> u32 \<times> u32 \<Rightarrow> u32 \<Rightarrow> u32 \<Rightarrow> u32 \<Rightarrow> nat \<Rightarrow> u32 \<Rightarrow> nat \<Rightarrow> memory
     \<Rightarrow> nat \<times> memory" where
  "byteChannels channels sourceData sx y1off y2off wy 0 k destPtr mem = (destPtr, mem)"
| "byteChannels channels sourceData sx y1off y2off wy (Suc n) k destPtr mem =
     (case sx of (x1, x2, wx) \<Rightarrow>
        byteChannels channels sourceData sx y1off y2off wy n (k + 1) (destPtr + 1)
          (mem(destPtr := byteChannel channels sourceData mem x1 x2 y1off y2off wx wy k)))"

fun byteRow ::
  "u32 \<Rightarrow> PixelData \<Rightarrow> nat \<Rightarrow> u32 \<Rightarrow> u32 \<Rightarrow> u32 \<Rightarrow> u64 \<Rightarrow> nat \<Rightarrow> u64 \<Rightarrow> nat \<Rightarrow> memory
     \<Rightarrow> nat \<times> memory" where
  "byteRow channels source sourceData y1off y2off wy stepX 0 curX destPtr mem = (destPtr, mem)"
| "byteRow channels source sourceData y1off y2off wy stepX (Suc n) curX destPtr mem =
     (case byteChannels channels sourceData
             (byteSample curX (getRight source - getLeft source)) y1off y2off wy
             (unat channels) 0 destPtr mem of
        (destPtr', mem') \<Rightarrow>
          byteRow channels source sourceData y1off y2off wy stepX n (curX + stepX) destPtr' mem')"

fun byteRows ::
  "u32 \<Rightarrow> PixelData \<Rightarrow> PixelData \<Rightarrow> nat \<Rightarrow> u64 \<Rightarrow> u64 \<Rightarrow> nat \<Rightarrow> u64 \<Rightarrow> nat \<Rightarrow> memory
     \<Rightarrow> nat \<times> memory" where
  "byteRows channels source dest sourceData stepX stepY 0 curY destPtr mem = (destPtr, mem)"
| "byteRows channels source dest sourceData stepX stepY (Suc n) curY destPtr mem =
     (case byteSample curY (getBottom source - getTop source) of
        (sampleCoordY1, sampleCoordY2, sampleWeightY) \<Rightarrow>
          (case byteRow channels source sourceData (sampleCoordY1 * getRowPitch source)
                  (sampleCoordY2 * getRowPitch source) sampleWeightY stepX
                  (unat (getRight dest) - unat (getLeft dest)) (startCoord stepX) destPtr mem of
             (destPtr', mem') \<Rightarrow>
               byteRows channels source dest sourceData stepX stepY n (curY + stepY)
                 (destPtr' + unat (channels * getRowSkip dest)) mem'))"

definition LinearResampler_Byte_scale ::
  "FloatCodec \<Rightarrow> u32 \<Rightarrow> PixelData \<Rightarrow> PixelData \<Rightarrow> memory \<Rightarrow> (error \<times> memory) + memory" where
  "LinearResampler_Byte_scale fc channels source dest mem =
     (if getDepth source > 1 \<or> getDepth dest > 1 then LinearResampler_scale fc source dest mem
      else if getWidth dest = 0 \<or> getHeight dest = 0 then Inl (DivisionByZero, mem)
      else
        (let stepX = fixedStep (getWidth source) (getWidth dest);
             stepY = fixedStep (getHeight source) (getHeight dest)
         in if unat (getRight dest) - unat (getLeft dest) = 0
               \<or> unat (getBottom dest) - unat (getTop dest) = 0 then Inr mem
            else case (getData source, getData dest) of
                (Some sourceData, Some destPtr) \<Rightarrow>
                  Inr (snd (byteRows channels source dest sourceData stepX stepY
                         (unat (getBottom dest) - unat (getTop dest)) (startCoord stepY)
                         destPtr mem))
              | _ \<Rightarrow> Inl (NullPointerAccess, mem)))"

text \<open>
  Modelled from the spec: the enumeration \<open>Filter\<close> and \<open>allocateInternalBuffer\<close> belong
  to headers that are not among the sources. The allocator is the parameter
  \<open>heapAddr\<close> of \<open>scale\<close>: the address of the block it hands out for the temporary.
\<close>

datatype Filter = FILTER_NEAREST | FILTER_BILINEAR

definition allocateInternalBuffer :: "PixelData \<Rightarrow> nat \<Rightarrow> PixelData" where
  "allocateInternalBuffer pd heapAddr = pd\<lparr>mData := Some heapAddr\<rparr>"

definition scaleTemp :: "nat \<Rightarrow> PixelData \<Rightarrow> PixelData \<Rightarrow> PixelData" where
  "scaleTemp heapAddr src scaled =
     (if getFormat src = getFormat scaled then scaled
      else allocateInternalBuffer
             (newPixelData (getWidth scaled) (getHeight scaled) (getDepth scaled) (getFormat src))
             heapAddr)"

definition scaleBlit ::
  "FloatCodec \<Rightarrow> PixelData \<Rightarrow> PixelData \<Rightarrow> (error \<times> memory) + memory
     \<Rightarrow> (error \<times> memory) + memory" where
  "scaleBlit fc temp scaled res =
     (case res of
        Inl e \<Rightarrow> Inl e
      | Inr mem' \<Rightarrow>
          if getData temp \<noteq> getData scaled then bulkPixelConversion fc temp scaled mem'
          else Inr mem')"

definition scale ::
  "FloatCodec \<Rightarrow> nat \<Rightarrow> PixelData \<Rightarrow> PixelData \<Rightarrow> Filter \<Rightarrow> memory
     \<Rightarrow> (error \<times> memory) + memory" where
  "scale fc heapAddr src scaled flt mem =
     (if \<not> isAccessible (getFormat src) \<or> \<not> isAccessible (getFormat scaled)
      then Inl (AssertionFailed, mem)
      else case flt of
        FILTER_NEAREST \<Rightarrow>
          (let temp = scaleTemp heapAddr src scaled;
               n = unat (getNumElemBytes (getFormat src))
           in if n \<in> {1, 2, 3, 4, 6, 8, 12, 16}
              then scaleBlit fc temp scaled (NearestResampler_scale n src temp mem)
              else Inl (AssertionFailed, mem))
      | FILTER_BILINEAR \<Rightarrow>
          (if getFormat src \<in> {PF_R8G8, PF_R8G8B8, PF_B8G8R8, PF_R8G8B8A8, PF_B8G8R8A8,
                                PF_A8B8G8R8, PF_A8R8G8B8, PF_X8B8G8R8, PF_X8R8G8B8} then
             (let temp = scaleTemp heapAddr src scaled;
                  n = getNumElemBytes (getFormat src)
              in if n \<in> {1, 2, 3, 4}
                 then scaleBlit fc temp scaled (LinearResampler_Byte_scale fc n src temp mem)
                 else Inl (AssertionFailed, mem))
           else if getFormat src \<in> {PF_FLOAT32_RGB, PF_FLOAT32_RGBA}
                   \<and> getFormat scaled \<in> {PF_FLOAT32_RGB, PF_FLOAT32_RGBA} then
             LinearResampler_Float32_scale fc src scaled mem
           else LinearResampler_scale fc src scaled mem))"

text \<open>The running coordinate of destination pixel i.\<close>

definition walkAt :: "u32 \<Rightarrow> u32 \<Rightarrow> nat \<Rightarrow> u64" where
  "walkAt srcExtent dstExtent i =
     startCoord (fixedStep srcExtent dstExtent) + of_nat i * fixedStep srcExtent dstExtent"

section \<open>Gamma correction\<close>









section \<open>The bytes of a buffer and the reads of a kernel\<close>

text \<open>
  \<open>pixelByte\<close> is the address of byte \<open>k\<close> of the pixel at \<open>(x, y, z)\<close> of a buffer
  whose data starts at \<open>p\<close>, and \<open>sourceBytes\<close> the set of the addresses of the pixels
  inside the extents. \<open>pitchesFit\<close> says that a row fits the row pitch, the rows of a
  slice fit the slice pitch, and the whole buffer is addressed without the \<open>UINT32\<close>
  offset wrapping.

  That a kernel reads the source only inside its bounds is stated on two runs of it:
  \<open>sameWrites R mem1 mem2 m1 m2\<close> holds of the memories \<open>m1\<close>, \<open>m2\<close> reached from
  \<open>mem1\<close>, \<open>mem2\<close> when they still agree on \<open>R\<close> and, at every address, either hold
  the same byte or both hold what the initial memories held. Two runs from memories
  that agree on \<open>R\<close> only and end in \<open>sameWrites\<close> have written the same bytes to the
  same addresses: no byte outside \<open>R\<close> had any effect. \<open>iter\<close> and \<open>iterE\<close> are
  the loops of the kernels with the loop body as a parameter.
\<close>

fun iter ::
  "(nat \<Rightarrow> nat \<Rightarrow> memory \<Rightarrow> nat \<times> memory) \<Rightarrow> nat \<Rightarrow> nat \<Rightarrow> nat \<Rightarrow> nat \<Rightarrow> memory
     \<Rightarrow> nat \<times> memory" where
  "iter body skip 0 j dp mem = (dp, mem)"
| "iter body skip (Suc n) j dp mem =
     (case body j dp mem of (dp', mem') \<Rightarrow> iter body skip n (Suc j) (dp' + skip) mem')"

fun iterE ::
  "(nat \<Rightarrow> nat \<Rightarrow> memory \<Rightarrow> walk) \<Rightarrow> nat \<Rightarrow> nat \<Rightarrow> nat \<Rightarrow> nat \<Rightarrow> memory \<Rightarrow> walk" where
  "iterE body skip 0 j dp mem = Inr (dp, mem)"
| "iterE body skip (Suc n) j dp mem =
     (case body j dp mem of
        Inl e \<Rightarrow> Inl e
      | Inr (dp', mem') \<Rightarrow> iterE body skip n (Suc j) (dp' + skip) mem')"

definition pixelByte :: "PixelData \<Rightarrow> nat \<Rightarrow> nat \<Rightarrow> nat \<Rightarrow> nat \<Rightarrow> nat \<Rightarrow> nat" where
  "pixelByte pd p x y z k =
     p + unat (getNumElemBytes (getFormat pd))
           * (x + y * unat (getRowPitch pd) + z * unat (getSlicePitch pd)) + k"

definition byteSize :: "PixelData \<Rightarrow> nat" where
  "byteSize pd =
     unat (getNumElemBytes (getFormat pd)) * (unat (getSlicePitch pd) * unat (getDepth pd))"

definition pitchesFit :: "PixelData \<Rightarrow> bool" where
  "pitchesFit pd =
     (unat (getWidth pd) \<le> unat (getRowPitch pd)
      \<and> unat (getRowPitch pd) * unat (getHeight pd) \<le> unat (getSlicePitch pd)
      \<and> byteSize pd < 4294967296)"

definition sourceBytes :: "PixelData \<Rightarrow> nat \<Rightarrow> nat set" where
  "sourceBytes src sd =
     {pixelByte src sd x y z k | x y z k.
        x < unat (getWidth src) \<and> y < unat (getHeight src) \<and> z < unat (getDepth src)
        \<and> k < unat (getNumElemBytes (getFormat src))}"

definition sameWrites :: "nat set \<Rightarrow> memory \<Rightarrow> memory \<Rightarrow> memory \<Rightarrow> memory \<Rightarrow> bool" where
  "sameWrites R mem1 mem2 m1 m2 =
     ((\<forall>a \<in> R. m1 a = m2 a)
      \<and> (\<forall>a. m1 a = m2 a \<or> (m1 a = mem1 a \<and> m2 a = mem2 a)))"

definition sameStep :: "nat set \<Rightarrow> memory \<Rightarrow> memory \<Rightarrow> nat \<times> memory \<Rightarrow> nat \<times> memory \<Rightarrow> bool" where
  "sameStep R mem1 mem2 r1 r2 =
     (fst r1 = fst r2 \<and> sameWrites R mem1 mem2 (snd r1) (snd r2))"

definition sameWalk :: "nat set \<Rightarrow> memory \<Rightarrow> memory \<Rightarrow> walk \<Rightarrow> walk \<Rightarrow> bool" where
  "sameWalk R mem1 mem2 w1 w2 =
     (case w1 of
        Inl (e1, m1) \<Rightarrow>
          (case w2 of Inl (e2, m2) \<Rightarrow> e1 = e2 \<and> sameWrites R mem1 mem2 m1 m2 | Inr x \<Rightarrow> False)
      | Inr (d1, m1) \<Rightarrow>
          (case w2 of Inl x \<Rightarrow> False
                    | Inr (d2, m2) \<Rightarrow> d1 = d2 \<and> sameWrites R mem1 mem2 m1 m2))"

definition sameOutcome ::
  "nat set \<Rightarrow> memory \<Rightarrow> memory \<Rightarrow> (error \<times> memory) + memory \<Rightarrow> (error \<times> memory) + memory
     \<Rightarrow> bool" where
  "sameOutcome R mem1 mem2 r1 r2 =
     (case r1 of
        Inl (e1, m1) \<Rightarrow>
          (case r2 of Inl (e2, m2) \<Rightarrow> e1 = e2 \<and> sameWrites R mem1 mem2 m1 m2 | Inr x \<Rightarrow> False)
      | Inr m1 \<Rightarrow>
          (case r2 of Inl x \<Rightarrow> False | Inr m2 \<Rightarrow> sameWrites R mem1 mem2 m1 m2))"

section \<open>Facts about the table\<close>

lemmas flag_defs =
  PFF_HASALPHA_def PFF_COMPRESSED_def PFF_FLOAT_def PFF_DEPTH_def PFF_NATIVEENDIAN_def

lemma getDescriptionFor_simps:
  "getDescriptionFor PF_UNKNOWN = row ''PF_UNKNOWN'' 0 0 PCT_BYTE 0  0 0 0 0  0 0 0 0  0 0 0 0"
  "getDescriptionFor PF_R8 = row ''PF_R8'' 1 0 PCT_BYTE 1  8 0 0 0  0x000000FF 0 0 0  0 0 0 0"
  "getDescriptionFor PF_R8G8 =
     row ''PF_R8G8'' 2 0 PCT_BYTE 2  8 8 0 0  0x000000FF 0x0000FF00 0 0  0 8 0 0"
  "getDescriptionFor PF_R8G8B8 = row ''PF_R8G8B8'' 3 0x10 PCT_BYTE 3  8 8 8 0
      0x000000FF 0x0000FF00 0x00FF0000 0  0 8 16 0"
  "getDescriptionFor PF_B8G8R8 = row ''PF_B8G8R8'' 3 0x10 PCT_BYTE 3  8 8 8 0
      0x00FF0000 0x0000FF00 0x000000FF 0  16 8 0 0"
  "getDescriptionFor PF_A8R8G8B8 = row ''PF_A8R8G8B8'' 4 0x11 PCT_BYTE 4  8 8 8 8
      0x0000FF00 0x00FF0000 0xFF000000 0x000000FF  8 16 24 0"
  "getDescriptionFor PF_A8B8G8R8 = row ''PF_A8B8G8R8'' 4 0x11 PCT_BYTE 4  8 8 8 8
      0xFF000000 0x00FF0000 0x0000FF00 0x000000FF  24 16 8 0"
  "getDescriptionFor PF_B8G8R8A8 = row ''PF_B8G8R8A8'' 4 0x11 PCT_BYTE 4  8 8 8 8
      0x00FF0000 0x0000FF00 0x000000FF 0xFF000000  16 8 0 24"
  "getDescriptionFor PF_R8G8B8A8 = row ''PF_R8G8B8A8'' 4 0x11 PCT_BYTE 4  8 8 8 8
      0x000000FF 0x0000FF00 0x00FF0000 0xFF000000  0 8 16 24"
  "getDescriptionFor PF_X8R8G8B8 = row ''PF_X8R8G8B8'' 4 0x10 PCT_BYTE 3  8 8 8 0
      0x0000FF00 0x00FF0000 0xFF000000 0x000000FF  8 16 24 0"
  "getDescriptionFor PF_X8B8G8R8 = row ''PF_X8B8G8R8'' 4 0x10 PCT_BYTE 3  8 8 8 0
      0xFF000000 0x00FF0000 0x0000FF00 0x000000FF  24 16 8 0"
  "getDescriptionFor PF_R8G8B8X8 = row ''PF_R8G8B8X8'' 4 0x11 PCT_BYTE 3  8 8 8 0
      0x000000FF 0x0000FF00 0x00FF0000 0xFF000000  0 8 16 0"
  "getDescriptionFor PF_B8G8R8X8 = row ''PF_B8G8R8X8'' 4 0x11 PCT_BYTE 3  8 8 8 0
      0x00FF0000 0x0000FF00 0x000000FF 0xFF000000  16 8 0 0"
  "getDescriptionFor PF_DXT1 = row ''PF_DXT1'' 0 0x3 PCT_BYTE 3  0 0 0 0  0 0 0 0  0 0 0 0"
  "getDescriptionFor PF_DXT2 = row ''PF_DXT2'' 0 0x3 PCT_BYTE 4  0 0 0 0  0 0 0 0  0 0 0 0"
  "getDescriptionFor PF_DXT3 = row ''PF_DXT3'' 0 0x3 PCT_BYTE 4  0 0 0 0  0 0 0 0  0 0 0 0"
  "getDescriptionFor PF_DXT4 = row ''PF_DXT4'' 0 0x3 PCT_BYTE 4  0 0 0 0  0 0 0 0  0 0 0 0"
  "getDescriptionFor PF_DXT5 = row ''PF_DXT5'' 0 0x3 PCT_BYTE 4  0 0 0 0  0 0 0 0  0 0 0 0"
  "getDescriptionFor PF_FLOAT16_R =
     row ''PF_FLOAT16_R'' 2 0x4 PCT_FLOAT16 1  16 0 0 0  0 0 0 0  0 0 0 0"
  "getDescriptionFor PF_FLOAT16_RG =
     row ''PF_FLOAT16_RG'' 4 0x4 PCT_FLOAT16 2  16 16 0 0  0 0 0 0  0 0 0 0"
  "getDescriptionFor PF_FLOAT16_RGB =
     row ''PF_FLOAT16_RGB'' 6 0x4 PCT_FLOAT16 3  16 16 16 0  0 0 0 0  0 0 0 0"
  "getDescriptionFor PF_FLOAT16_RGBA =
     row ''PF_FLOAT16_RGBA'' 8 0x5 PCT_FLOAT16 4  16 16 16 16  0 0 0 0  0 0 0 0"
  "getDescriptionFor PF_FLOAT32_R =
     row ''PF_FLOAT32_R'' 4 0x4 PCT_FLOAT32 1  32 0 0 0  0 0 0 0  0 0 0 0"
  "getDescriptionFor PF_FLOAT32_RG =
     row ''PF_FLOAT32_RG'' 8 0x4 PCT_FLOAT32 2  32 32 0 0  0 0 0 0  0 0 0 0"
  "getDescriptionFor PF_FLOAT32_RGB =
     row ''PF_FLOAT32_RGB'' 12 0x4 PCT_FLOAT32 3  32 32 32 0  0 0 0 0  0 0 0 0"
  "getDescriptionFor PF_FLOAT32_RGBA =
     row ''PF_FLOAT32_RGBA'' 16 0x5 PCT_FLOAT32 4  32 32 32 32  0 0 0 0  0 0 0 0"
  "getDescriptionFor PF_D32_S8X24 =
     row ''PF_D32_S8X24'' 4 0xC PCT_FLOAT32 1  0 0 0 0  0 0 0 0  0 0 0 0"
  "getDescriptionFor PF_D24_S8 =
     row ''PF_D24_S8'' 8 0xC PCT_FLOAT32 2  0 0 0 0  0 0 0 0  0 0 0 0"
  "getDescriptionFor PF_D32 = row ''PF_D32'' 4 0xC PCT_FLOAT32 1  0 0 0 0  0 0 0 0  0 0 0 0"
  "getDescriptionFor PF_D16 = row ''PF_D16'' 2 0xC PCT_FLOAT16 1  0 0 0 0  0 0 0 0  0 0 0 0"
  by (simp_all add: getDescriptionFor_def pixelFormats_def flag_defs)

lemma flag_tests:
  "isNativeEndian f = (f \<in> {PF_R8G8B8, PF_B8G8R8, PF_A8R8G8B8, PF_A8B8G8R8, PF_B8G8R8A8,
      PF_R8G8B8A8, PF_X8R8G8B8, PF_X8B8G8R8, PF_R8G8B8X8, PF_B8G8R8X8})"
  "isCompressed f = (f \<in> {PF_DXT1, PF_DXT2, PF_DXT3, PF_DXT4, PF_DXT5})"
  "isDepth f = (f \<in> {PF_D32_S8X24, PF_D24_S8, PF_D32, PF_D16})"
  "hasAlpha f = (f \<in> {PF_A8R8G8B8, PF_A8B8G8R8, PF_B8G8R8A8, PF_R8G8B8A8, PF_R8G8B8X8,
      PF_B8G8R8X8, PF_DXT1, PF_DXT2, PF_DXT3, PF_DXT4, PF_DXT5, PF_FLOAT16_RGBA,
      PF_FLOAT32_RGBA})"
  by (cases f; simp add: isNativeEndian_def isCompressed_def isDepth_def hasAlpha_def
        getFlags_def getDescriptionFor_simps row_def flag_defs)+

section \<open>Bytes, bit fields and quantization\<close>



lemma storeLE_below: "a < p \<Longrightarrow> storeLE p n v mem a = mem a"
  by (induction n arbitrary: p v mem) auto




lemma loadLE_cong:
  "(\<And>a. p \<le> a \<Longrightarrow> a < p + n \<Longrightarrow> m1 a = m2 a) \<Longrightarrow> loadLE m1 p n = loadLE m2 p n"
  by (induction n arbitrary: p) auto

lemma NE_iff: "(flags (getDescriptionFor f) AND PFF_NATIVEENDIAN \<noteq> 0) = isNativeEndian f"
  by (simp add: isNativeEndian_def getFlags_def word_greater_zero_iff)

lemma HA_iff: "(flags (getDescriptionFor f) AND PFF_HASALPHA \<noteq> 0) = hasAlpha f"
  by (simp add: hasAlpha_def getFlags_def word_greater_zero_iff)

lemma NE_shape:
  assumes "isNativeEndian f"
  shows "rbits (getDescriptionFor f) = 8" "gbits (getDescriptionFor f) = 8"
    "bbits (getDescriptionFor f) = 8"
    "abits (getDescriptionFor f) = 0 \<or> abits (getDescriptionFor f) = 8"
    "elemBytes (getDescriptionFor f) = 3 \<or> elemBytes (getDescriptionFor f) = 4"
  using assms by (cases f; simp add: flag_tests getDescriptionFor_simps row_def)+



lemma floatToFixed_zero_bits: "floatToFixed a 0 = 0"
proof -
  have "\<lfloor>a\<rfloor> = 0" if "\<not> a \<le> 0" "\<not> 1 \<le> a"
    using that by (simp add: floor_eq_iff)
  then show ?thesis by (auto simp: floatToFixed_def)
qed





lemma fixedToFloat8: "fixedToFloat fc x 8 = real (unat x) / 255"
  by (simp add: fixedToFloat_def)




lemma fixedToFixed_same: "fixedToFixed v n n = Inr v"
  by (simp add: fixedToFixed_def)

lemma drop8_ucast: "drop_bit 8 (ucast (a :: u8) :: u32) = 0"
  by (rule bit_word_eqI) (auto simp add: bit_simps dest: bit_imp_le_length)

lemma fixedToFixed_8_0: "fixedToFixed (ucast (a :: u8)) 8 0 = Inr 0"
  by (simp add: fixedToFixed_def drop8_ucast)



lemma packColor8_NE:
  assumes "isNativeEndian f"
  shows "packColor8 fc r g b a f p mem =
     Inr (intWrite p (unat (elemBytes (getDescriptionFor f)))
       (packFields (getDescriptionFor f) (ucast r) (ucast g) (ucast b)
          (if abits (getDescriptionFor f) = 0 then 0 else ucast a)) mem)"
  using assms NE_shape [OF assms]
  by (auto simp add: packColor8_def Let_def NE_iff packFields_def bindE_def
      fixedToFixed_same fixedToFixed_8_0)










lemma accessible_formats:
  "isAccessible f = (f \<notin> {PF_UNKNOWN, PF_DXT1, PF_DXT2, PF_DXT3, PF_DXT4, PF_DXT5,
      PF_D32_S8X24, PF_D24_S8, PF_D32, PF_D16})"
  by (cases f; simp add: isAccessible_def getFlags_def getDescriptionFor_simps row_def flag_defs)

lemma floatToFixed_one: "floatToFixed 1 8 = 255"
  by (simp add: floatToFixed_def)


lemma all8_formats:
  assumes "rbits (getDescriptionFor f) = 8" "gbits (getDescriptionFor f) = 8"
    "bbits (getDescriptionFor f) = 8" "abits (getDescriptionFor f) = 8"
  shows "isNativeEndian f \<and> hasAlpha f"
  using assms by (cases f; simp add: flag_tests getDescriptionFor_simps row_def)







section \<open>The round trip of a colour\<close>




section \<open>The alpha default\<close>

text \<open>
  C5, the claim as written fails: \<open>PF_D32\<close> is a one-channel format without alpha, and
  both overloads of \<open>unpackColor\<close> raise "not implemented" for it instead of yielding a
  colour with full alpha.
\<close>

theorem C5_depth_unpack_counterexample:
  "\<not> hasAlpha PF_D32 \<and> componentCount (getDescriptionFor PF_D32) = 1 \<and>
   unpackColor sampleCodec PF_D32 0 zeroMemory = Inl NotImplementedException \<and>
   unpackColor8 sampleCodec PF_D32 0 zeroMemory = Inl NotImplementedException"
  by (simp add: flag_tests unpackColor_def unpackColor8_def Let_def getDescriptionFor_simps
      row_def flag_defs bindE_def)

text \<open>
  C5 (amended): for every accessible format whose descriptor lacks the has-alpha flag and
  every source memory, \<open>unpackColor\<close> yields alpha 255 on the byte path and alpha 1.0
  on the float path; \<open>packColor\<close> into such a format writes bytes that do not depend on
  the alpha argument (both overloads).
\<close>

theorem C5_alpha_default:
  assumes "isAccessible f" and "\<not> hasAlpha f"
  shows "(\<exists>r g b. unpackColor fc f src mem = Inr (r, g, b, 1))
       \<and> (\<exists>r g b. unpackColor8 fc f src mem = Inr (r, g, b, 255))
       \<and> packColor fc r g b a f dest mem = packColor fc r g b a' f dest mem
       \<and> packColor8 fc r8 g8 b8 a8 f dest mem = packColor8 fc r8 g8 b8 a8' f dest mem"
proof -
  have "case unpackColor fc f src mem of Inl e \<Rightarrow> False | Inr (r, g, b, a) \<Rightarrow> a = 1"
    using assms
    by (cases f; simp add: accessible_formats flag_tests unpackColor_def Let_def
          getDescriptionFor_simps row_def flag_defs bindE_def fixedToFloat8)
  then have u: "\<exists>r g b. unpackColor fc f src mem = Inr (r, g, b, 1)"
    by (auto split: sum.splits prod.splits)
  then obtain r0 g0 b0 where u0: "unpackColor fc f src mem = Inr (r0, g0, b0, 1)" by blast
  have u8: "\<exists>r g b. unpackColor8 fc f src mem = Inr (r, g, b, 255)"
  proof cases
    assume ne: "isNativeEndian f"
    then show ?thesis using assms NE_shape [OF ne]
      by (auto simp add: unpackColor8_def Let_def NE_iff HA_iff bindE_def fixedToFixed_same)
  next
    assume ne: "\<not> isNativeEndian f"
    then show ?thesis using u0
      by (simp add: unpackColor8_def Let_def NE_iff bindE_def floatToFixed_one)
  qed
  have p: "packColor fc r g b a f dest mem = packColor fc r g b a' f dest mem"
    using assms
    by (cases f; simp add: flag_tests packColor_def Let_def
          getDescriptionFor_simps row_def flag_defs floatToFixed_zero_bits)
  have p8: "packColor8 fc r8 g8 b8 a8 f dest mem = packColor8 fc r8 g8 b8 a8' f dest mem"
  proof cases
    assume ne: "isNativeEndian f"
    have "abits (getDescriptionFor f) = 0"
      using assms ne by (cases f; simp add: flag_tests getDescriptionFor_simps row_def)
    then show ?thesis by (simp add: packColor8_NE [OF ne])
  next
    assume ne: "\<not> isNativeEndian f"
    have "packColor fc x y z w f dest mem = packColor fc x y z w' f dest mem" for x y z w w'
      using assms
      by (cases f; simp add: flag_tests packColor_def Let_def
          getDescriptionFor_simps row_def flag_defs floatToFixed_zero_bits)
    then show ?thesis using ne
      by (simp add: packColor8_def Let_def NE_iff)
  qed
  show ?thesis using u u8 p p8 by blast
qed

theorem C5_alpha_default_witness:
  "isAccessible PF_R8G8B8 \<and> \<not> hasAlpha PF_R8G8B8 \<and>
   (\<exists>r g b. unpackColor sampleCodec PF_R8G8B8 0 zeroMemory = Inr (r, g, b, 1)) \<and>
   (\<exists>r g b. unpackColor8 sampleCodec PF_R8G8B8 0 zeroMemory = Inr (r, g, b, 255)) \<and>
   packColor sampleCodec 1 0 1 0 PF_R8G8B8 0 zeroMemory
     = packColor sampleCodec 1 0 1 1 PF_R8G8B8 0 zeroMemory \<and>
   packColor8 sampleCodec 9 8 7 0 PF_R8G8B8 0 zeroMemory
     = packColor8 sampleCodec 9 8 7 255 PF_R8G8B8 0 zeroMemory"
  using C5_alpha_default [of PF_R8G8B8 sampleCodec 0 zeroMemory 1 0 1 0 0 1 9 8 7 0 255]
  by (simp add: accessible_formats flag_tests)

section \<open>The catalog invariant on masks, widths and shifts\<close>

text \<open>The mask the invariant prescribes: \<open>((1 << bits) - 1) << shift\<close>, on \<open>UINT32\<close>.\<close>

definition widthMask :: "u8 \<Rightarrow> u8 \<Rightarrow> u32" where
  "widthMask bits shift = push_bit (unat shift) (push_bit (unat bits) 1 - 1)"

definition paddedFormats :: "PixelFormat set" where
  "paddedFormats = {PF_X8R8G8B8, PF_X8B8G8R8, PF_R8G8B8X8, PF_B8G8R8X8}"

text \<open>
  C3, the claim as written fails: \<open>PF_X8R8G8B8\<close> is native-endian, its alpha width is
  0 and its alpha shift is 0, so the prescribed alpha mask is 0, but the table holds
  \<open>0x000000FF\<close> (the padding byte).
\<close>

theorem C3_padded_alpha_mask_counterexample:
  "\<not> (isNativeEndian PF_X8R8G8B8 \<longrightarrow>
        amask (getDescriptionFor PF_X8R8G8B8) =
          widthMask (abits (getDescriptionFor PF_X8R8G8B8))
                    (ashift (getDescriptionFor PF_X8R8G8B8)))"
  by (simp add: flag_tests getDescriptionFor_simps row_def widthMask_def)

text \<open>
  C3 (amended): for every native-endian format the red, green and blue masks are
  \<open>((1 << width) - 1) << shift\<close>; so is the alpha mask, except for the four padded
  formats \<open>PF_X8R8G8B8\<close>, \<open>PF_X8B8G8R8\<close>, \<open>PF_R8G8B8X8\<close>, \<open>PF_B8G8R8X8\<close>, whose alpha
  width is 0 while the alpha mask covers the padding byte. Every compressed or depth
  format has zero masks and zero shifts on all four channels.
\<close>

theorem C3_masks_consistent:
  fixes f :: PixelFormat
  defines "d \<equiv> getDescriptionFor f"
  shows "(isNativeEndian f \<longrightarrow>
            rmask d = widthMask (rbits d) (rshift d) \<and>
            gmask d = widthMask (gbits d) (gshift d) \<and>
            bmask d = widthMask (bbits d) (bshift d) \<and>
            (f \<notin> paddedFormats \<longrightarrow> amask d = widthMask (abits d) (ashift d)) \<and>
            (f \<in> paddedFormats \<longrightarrow> abits d = 0 \<and> amask d \<in> {0x000000FF, 0xFF000000}))
       \<and> (isCompressed f \<or> isDepth f \<longrightarrow>
            rmask d = 0 \<and> gmask d = 0 \<and> bmask d = 0 \<and> amask d = 0 \<and>
            rshift d = 0 \<and> gshift d = 0 \<and> bshift d = 0 \<and> ashift d = 0)"
  unfolding d_def
  by (cases f; simp add: flag_tests getDescriptionFor_simps row_def widthMask_def
        paddedFormats_def)

theorem C3_masks_consistent_witness:
  "isNativeEndian PF_A8R8G8B8 \<and> PF_A8R8G8B8 \<notin> paddedFormats \<and>
   amask (getDescriptionFor PF_A8R8G8B8) = 0x000000FF \<and>
   widthMask (abits (getDescriptionFor PF_A8R8G8B8)) (ashift (getDescriptionFor PF_A8R8G8B8))
     = 0x000000FF \<and>
   isNativeEndian PF_R8G8B8X8 \<and> PF_R8G8B8X8 \<in> paddedFormats \<and>
   abits (getDescriptionFor PF_R8G8B8X8) = 0 \<and>
   isCompressed PF_DXT1 \<and> rmask (getDescriptionFor PF_DXT1) = 0 \<and>
   isDepth PF_D16 \<and> ashift (getDescriptionFor PF_D16) = 0"
  using C3_masks_consistent [of PF_A8R8G8B8] C3_masks_consistent [of PF_R8G8B8X8]
    C3_masks_consistent [of PF_DXT1] C3_masks_consistent [of PF_D16]
  by (simp add: flag_tests paddedFormats_def getDescriptionFor_simps row_def widthMask_def)

section \<open>Accessibility\<close>

text \<open>
  C4, the claim as written fails at \<open>PF_UNKNOWN\<close>: its descriptor has neither the
  compressed nor the depth flag, and \<open>isAccessible\<close> returns false.
\<close>

theorem C4_unknown_counterexample:
  "\<not> (isAccessible PF_UNKNOWN \<longleftrightarrow>
        \<not> isCompressed PF_UNKNOWN \<and> \<not> isDepth PF_UNKNOWN)"
  by (simp add: isAccessible_def flag_tests)

text \<open>
  C4 (amended): \<open>isAccessible f\<close> is true if and only if \<open>f\<close> is not \<open>PF_UNKNOWN\<close> and
  has neither the compressed flag nor the depth flag in its descriptor.
\<close>

theorem C4_isAccessible_iff:
  "isAccessible f \<longleftrightarrow> f \<noteq> PF_UNKNOWN \<and> \<not> isCompressed f \<and> \<not> isDepth f"
  by (cases f; simp add: isAccessible_def isCompressed_def isDepth_def getFlags_def
        getDescriptionFor_simps row_def flag_defs)

theorem C4_isAccessible_iff_witness:
  "isAccessible PF_R8G8B8 \<and> \<not> isAccessible PF_UNKNOWN \<and> \<not> isAccessible PF_DXT3 \<and>
   \<not> isAccessible PF_D24_S8"
  using C4_isAccessible_iff [of PF_R8G8B8] C4_isAccessible_iff [of PF_UNKNOWN]
    C4_isAccessible_iff [of PF_DXT3] C4_isAccessible_iff [of PF_D24_S8]
  by (simp add: flag_tests)

section \<open>Memory size\<close>

text \<open>
  C7, the claim as written fails: the code multiplies on \<open>UINT32\<close>, so for a
  65536 x 65536 image of \<open>PF_R8\<close> (one byte per element) \<open>getMemorySize\<close> returns 0,
  not \<open>w * h * N = 4294967296\<close>.
\<close>

theorem C7_wrap_counterexample:
  "\<not> isCompressed PF_R8 \<and> unat (getNumElemBytes PF_R8) = 1 \<and>
   getMemorySize 65536 65536 1 PF_R8 = Inr 0 \<and>
   unat (65536 :: u32) * unat (65536 :: u32) * unat (getNumElemBytes PF_R8) = 4294967296"
  by (simp add: getMemorySize_def flag_tests getNumElemBytes_def getDescriptionFor_simps row_def)

text \<open>
  C7 (amended): for an uncompressed format with element size \<open>N\<close>,
  \<open>getMemorySize w h 1 f\<close> is \<open>w * h * N\<close> modulo \<open>2 ^ 32\<close>, hence \<open>w * h * N\<close>
  whenever that product is below \<open>2 ^ 32\<close>; for \<open>PF_DXT1\<close> a 4x4 image takes 8 bytes
  and a 5x5 image 32 bytes, and the other four compressed formats take 16 bytes per 4x4
  block (16 and 64 bytes for these two images).
\<close>

theorem C7_getMemorySize:
  "(\<not> isCompressed f \<longrightarrow>
      (\<exists>n. getMemorySize w h 1 f = Inr n \<and>
           unat n = (unat w * unat h * unat (getNumElemBytes f)) mod 2 ^ 32 \<and>
           (unat w * unat h * unat (getNumElemBytes f) < 2 ^ 32 \<longrightarrow>
              unat n = unat w * unat h * unat (getNumElemBytes f))))
   \<and> getMemorySize 4 4 1 PF_DXT1 = Inr 8
   \<and> getMemorySize 5 5 1 PF_DXT1 = Inr 32
   \<and> (f \<in> {PF_DXT2, PF_DXT3, PF_DXT4, PF_DXT5} \<longrightarrow>
        getMemorySize w h d f = Inr (((w + 3) div 4) * ((h + 3) div 4) * 16 * d) \<and>
        getMemorySize 4 4 1 f = Inr 16 \<and> getMemorySize 5 5 1 f = Inr 64)"
proof -
  have m: "unat (w * h * getNumElemBytes f)
            = (unat w * unat h * unat (getNumElemBytes f)) mod 2 ^ 32"
    by (simp add: unat_word_ariths mod_mult_left_eq)
  have unc: "\<exists>n. getMemorySize w h 1 f = Inr n \<and>
           unat n = (unat w * unat h * unat (getNumElemBytes f)) mod 2 ^ 32 \<and>
           (unat w * unat h * unat (getNumElemBytes f) < 2 ^ 32 \<longrightarrow>
              unat n = unat w * unat h * unat (getNumElemBytes f))"
    if "\<not> isCompressed f"
  proof (intro exI conjI impI)
    show "getMemorySize w h 1 f = Inr (w * h * getNumElemBytes f)"
      using that by (simp add: getMemorySize_def)
    show "unat (w * h * getNumElemBytes f)
            = (unat w * unat h * unat (getNumElemBytes f)) mod 2 ^ 32" by (rule m)
    show "unat (w * h * getNumElemBytes f) = unat w * unat h * unat (getNumElemBytes f)"
      if "unat w * unat h * unat (getNumElemBytes f) < 2 ^ 32"
      using that m by simp
  qed
  have dxt1: "getMemorySize 4 4 1 PF_DXT1 = Inr 8" "getMemorySize 5 5 1 PF_DXT1 = Inr 32"
    by (simp_all add: getMemorySize_def flag_tests)
  have dxtn: "getMemorySize w h d f = Inr (((w + 3) div 4) * ((h + 3) div 4) * 16 * d)
      \<and> getMemorySize 4 4 1 f = Inr 16 \<and> getMemorySize 5 5 1 f = Inr 64"
    if "f \<in> {PF_DXT2, PF_DXT3, PF_DXT4, PF_DXT5}"
    using that by (auto simp add: getMemorySize_def flag_tests)
  show ?thesis
    using unc dxt1 dxtn by blast
qed

theorem C7_getMemorySize_witness:
  "\<not> isCompressed PF_R8G8B8 \<and> unat (getNumElemBytes PF_R8G8B8) = 3 \<and>
   unat (640 :: u32) * unat (480 :: u32) * unat (getNumElemBytes PF_R8G8B8) < 2 ^ 32 \<and>
   (\<exists>n. getMemorySize 640 480 1 PF_R8G8B8 = Inr n \<and> unat n = 921600) \<and>
   PF_DXT5 \<in> {PF_DXT2, PF_DXT3, PF_DXT4, PF_DXT5} \<and>
   getMemorySize 5 5 1 PF_DXT5 = Inr 64 \<and>
   getMemorySize 8 8 2 PF_DXT5 = Inr 128"
  using C7_getMemorySize [of PF_R8G8B8 640 480 2]
        C7_getMemorySize [of PF_DXT5 8 8 2]
  by (simp add: flag_tests getNumElemBytes_def getDescriptionFor_simps row_def)

section \<open>Bulk conversion\<close>

lemmas pd_defs = bufferAt_def setExternalBuffer_def newPixelData_def getWidth_def getHeight_def
  getDepth_def getFormat_def getData_def getLeft_def getTop_def getFront_def getRight_def
  getBottom_def getBack_def getRowPitch_def getSlicePitch_def getRowSkip_def getSliceSkip_def
  isConsecutive_def getConsecutiveSize_def


lemma loadLE_zero: "loadLE (\<lambda>a. 0) p n = 0"
  by (induction n arbitrary: p) auto

lemma storeLE_at:
  "p \<le> a \<Longrightarrow> a < p + n \<Longrightarrow> storeLE p n v mem a = ucast (drop_bit (8 * (a - p)) v)"
proof (induction n arbitrary: p v mem)
  case 0
  then show ?case by simp
next
  case (Suc n)
  show ?case
  proof cases
    assume "a = p"
    then show ?thesis by (simp add: storeLE_below)
  next
    assume "a \<noteq> p"
    then have "Suc p \<le> a" "a < Suc p + n" using Suc.prems by simp_all
    from Suc.IH [OF this] have "storeLE (Suc p) n (drop_bit 8 v) (mem(p := ucast v)) a
        = ucast (drop_bit (8 * (a - Suc p)) (drop_bit 8 v))" .
    moreover have "8 * (a - Suc p) + 8 = 8 * (a - p)" using \<open>Suc p \<le> a\<close> by simp
    ultimately show ?thesis by (simp add: drop_bit_drop_bit add.commute)
  qed
qed


lemma bulk_to_padded:
  assumes "getWidth src = getWidth dst" "getHeight src = getHeight dst"
      "getDepth src = getDepth dst"
    and "\<not> isCompressed (getFormat src)" "getFormat src \<noteq> getFormat dst"
    and "getFormat dst = PF_X8R8G8B8 \<or> getFormat dst = PF_X8B8G8R8"
  shows "bulkPixelConversion fc src dst mem =
           bulkPixelConversion fc src
             (newPixelData (getWidth dst) (getHeight dst) (getDepth dst)
                (paddedToAlpha (getFormat dst))) mem"
  using assms
  by (subst bulkPixelConversion.simps) (auto simp add: Let_def flag_tests)

lemma bulk_general:
  assumes "getWidth src = getWidth dst" "getHeight src = getHeight dst"
      "getDepth src = getDepth dst"
    and "\<not> isCompressed (getFormat src)" "\<not> isCompressed (getFormat dst)"
    and "getFormat src \<noteq> getFormat dst"
    and "getFormat dst \<notin> {PF_X8R8G8B8, PF_X8B8G8R8}"
    and "getFormat src \<notin> {PF_X8R8G8B8, PF_X8B8G8R8}"
  shows "bulkPixelConversion fc src dst mem =
        (let srcPixelSize = getNumElemBytes (getFormat src);
             dstPixelSize = getNumElemBytes (getFormat dst);
             srcptr = ptrAdd (getData src)
               (unat ((getLeft src + getTop src * getRowPitch src
                       + getFront src * getSlicePitch src) * srcPixelSize));
             dstptr = ptrAdd (getData dst)
               (unat ((getLeft dst + getTop dst * getRowPitch dst
                       + getFront dst * getSlicePitch dst) * dstPixelSize));
             srcRowSkipBytes = getRowSkip src * srcPixelSize;
             srcSliceSkipBytes = getSliceSkip src * srcPixelSize;
             dstRowSkipBytes = getRowSkip dst * dstPixelSize;
             dstSliceSkipBytes = getSliceSkip dst * dstPixelSize
         in case convertSlices fc (getFormat src) (getFormat dst)
                   (unat srcPixelSize) (unat dstPixelSize)
                   (unat (getRight src) - unat (getLeft src))
                   (unat srcRowSkipBytes) (unat dstRowSkipBytes)
                   (unat (getBottom src) - unat (getTop src))
                   (unat srcSliceSkipBytes) (unat dstSliceSkipBytes)
                   (unat (getBack src) - unat (getFront src)) (srcptr, dstptr, mem) of
              Inl e \<Rightarrow> Inl e
            | Inr (sp, dp, mem') \<Rightarrow> Inr mem')"
  using assms
  by (subst bulkPixelConversion.simps) (simp add: Let_def)

lemma unpack_zero_R8G8B8: "unpackColor fc PF_R8G8B8 0 zeroMemory = Inr (0, 0, 0, 1)"
  by (simp add: unpackColor_def Let_def getDescriptionFor_simps row_def flag_defs bindE_def
      fixedToFloat8 intRead_def zeroMemory_def loadLE_zero)

lemma pack_A8R8G8B8_opaque_black:
  "packColor fc 0 0 0 1 PF_A8R8G8B8 p mem = Inr (storeLE p 4 0xFF mem)"
  by (simp add: packColor_def Let_def getDescriptionFor_simps row_def flag_defs intWrite_def
      floatToFixed_def)



text \<open>
  C2: the branch for a destination in \<open>PF_X8R8G8B8\<close> or \<open>PF_X8B8G8R8\<close> builds the
  substitute descriptor with the constructor and never attaches the destination memory
  to it (the branch for a padded source does, with \<open>setExternalBuffer\<close>). Converting one
  \<open>PF_R8G8B8\<close> pixel into a \<open>PF_X8R8G8B8\<close> buffer at address 16 therefore writes
  through a null pointer and leaves the destination bytes as they were, while the same
  memory described as \<open>PF_A8R8G8B8\<close> receives the bytes FF 00 00 00.
\<close>

theorem C2_padded_destination_unwritten:
  "bulkPixelConversion sampleCodec (bufferAt 0 1 1 1 PF_R8G8B8) (bufferAt 16 1 1 1 PF_X8R8G8B8)
     zeroMemory = Inl (NullPointerAccess, zeroMemory) \<and>
   map_sum id (\<lambda>m. map m [16, 17, 18, 19])
     (bulkPixelConversion sampleCodec (bufferAt 0 1 1 1 PF_R8G8B8)
        (bufferAt 16 1 1 1 PF_A8R8G8B8) zeroMemory) = Inr [0xFF, 0, 0, 0]"
proof -
  have a: "bulkPixelConversion sampleCodec (bufferAt 0 1 1 1 PF_R8G8B8)
      (bufferAt 16 1 1 1 PF_X8R8G8B8) zeroMemory = Inl (NullPointerAccess, zeroMemory)"
    apply (subst bulk_to_padded)
          apply (simp_all add: pd_defs flag_tests)[6]
    apply (subst bulk_general)
            apply (simp_all add: pd_defs flag_tests paddedToAlpha_def)[8]
    apply (simp add: pd_defs paddedToAlpha_def Let_def getNumElemBytes_def
        getDescriptionFor_simps row_def unpackColorAt_def packColorAt_def ptrAdd_def
        unpack_zero_R8G8B8 codecImplemented_def flag_defs)
    done
  have b: "map_sum id (\<lambda>m. map m [16, 17, 18, 19])
     (bulkPixelConversion sampleCodec (bufferAt 0 1 1 1 PF_R8G8B8)
        (bufferAt 16 1 1 1 PF_A8R8G8B8) zeroMemory) = Inr [0xFF, 0, 0, 0]"
    apply (subst bulk_general)
            apply (simp_all add: pd_defs flag_tests)[8]
    apply (simp add: pd_defs Let_def getNumElemBytes_def
        getDescriptionFor_simps row_def unpackColorAt_def packColorAt_def ptrAdd_def
        unpack_zero_R8G8B8 pack_A8R8G8B8_opaque_black storeLE_at)
    done
  show ?thesis using a b by simp
qed

section \<open>Gamma correction: what is written\<close>





section \<open>Sample coordinates of the resampling kernels\<close>

text \<open>The kernels walk each axis with a 16.48 fixed-point coordinate that starts at
  \<^term>\<open>startCoord step\<close> and advances by \<^term>\<open>step\<close> per destination pixel;
  \<^term>\<open>walkAt\<close> is its value at destination pixel i.\<close>

lemma walkAt_loop:
  "walkAt srcExtent dstExtent 0 = startCoord (fixedStep srcExtent dstExtent)"
  "walkAt srcExtent dstExtent (Suc i) = walkAt srcExtent dstExtent i + fixedStep srcExtent dstExtent"
  by (simp_all add: walkAt_def algebra_simps)

lemma unat_ucast_32_64: "unat (ucast (s :: u32) :: u64) = unat s"
proof -
  have "unat s < 2 ^ 32" using unsigned_less [of s, where ?'a = nat] by simp
  then have "unat s < 2 ^ 64" by simp
  then show ?thesis by (simp add: unsigned_ucast_eq take_bit_nat_eq_self_iff)
qed

lemma unat_u32_bound: "unat (s :: u32) < 4294967296"
  using unsigned_less [of s, where ?'a = nat] by simp

lemma unat_u64_bound: "unat (s :: u64) < 18446744073709551616"
  using unsigned_less [of s, where ?'a = nat] by simp

lemma unat_fixedStep:
  "unat (fixedStep s d) = ((unat s mod 65536) * 281474976710656) div unat d"
proof -
  have "unat (push_bit 48 (ucast s :: u64)) = (unat s * 2 ^ 48) mod 2 ^ 64"
    by (simp add: push_bit_eq_mult unat_word_ariths unat_ucast_32_64)
  also have "\<dots> = (unat s mod 2 ^ 16) * 2 ^ 48"
    using mult_mod_left [of "unat s" "2 ^ 16" "2 ^ 48"] by (simp add: mult.commute)
  finally have b: "unat (push_bit 48 (ucast s :: u64)) = (unat s mod 65536) * 281474976710656"
    by simp
  show ?thesis by (simp add: fixedStep_def unat_div b unat_ucast_32_64)
qed

lemma unat_startCoord:
  "unat (startCoord step) = (unat step div 2 + 18446744073709551615) mod 18446744073709551616"
proof -
  have a: "unat (drop_bit (Suc 0) step) = unat step div 2"
    by (simp add: drop_bit_eq_div unat_div)
  have "startCoord step = drop_bit 1 step + (- 1)" by (simp add: startCoord_def)
  then show ?thesis by (simp add: unat_word_ariths a unsigned_minus_1_eq_mask mask_eq_exp_minus_1
        del: add_uminus_conv_diff)
qed

lemma walk_high:
  assumes s: "srcExtent \<noteq> 0" and d: "dstExtent \<noteq> 0" and i: "i < unat dstExtent"
  shows "unat (walkAt srcExtent dstExtent i) div 281474976710656 < unat srcExtent"
proof -
  define S where "S = unat srcExtent"
  define D where "D = unat dstExtent"
  define st where "st = unat (fixedStep srcExtent dstExtent)"
  have S0: "0 < S" using s by (simp add: S_def unat_gt_0)
  have D0: "0 < D" using d by (simp add: D_def unat_gt_0)
  have Db: "D < 4294967296" by (simp add: D_def unat_u32_bound)
  have st: "st = ((S mod 65536) * 281474976710656) div D"
    by (simp add: st_def unat_fixedStep S_def D_def)
  have cur: "unat (walkAt srcExtent dstExtent i)
      = ((st div 2 + 18446744073709551615) mod 18446744073709551616 + i * st)
          mod 18446744073709551616"
  proof -
    have "unat (of_nat i * fixedStep srcExtent dstExtent :: u64)
        = (i mod 18446744073709551616 * st) mod 18446744073709551616"
      by (simp add: unat_word_ariths st_def unat_of_nat)
    also have "\<dots> = (i * st) mod 18446744073709551616"
      by (simp add: mod_mult_left_eq)
    finally show ?thesis
      by (simp add: walkAt_def unat_word_ariths unat_startCoord st_def [symmetric]
          mod_add_right_eq)
  qed
  show ?thesis
  proof cases
    assume z: "S mod 65536 = 0"
    then have "st = 0" by (simp add: st)
    then have "unat (walkAt srcExtent dstExtent i) = 18446744073709551615"
      by (simp add: cur)
    moreover have "65536 \<le> S" using z S0 by (meson dvd_imp_le mod_eq_0_iff_dvd)
    ultimately show ?thesis by (simp add: S_def)
  next
    assume nz: "S mod 65536 \<noteq> 0"
    define m where "m = S mod 65536"
    have m: "1 \<le> m" "m \<le> S" "m < 65536" using nz by (simp_all add: m_def)
    have stD: "D * st \<le> m * 281474976710656"
      unfolding st m_def [symmetric] by simp
    have "281474976710656 div D \<le> st"
      unfolding st m_def [symmetric] using m(1)
      by (intro div_le_mono) simp
    moreover have "65536 \<le> (281474976710656 :: nat) div D"
    proof -
      have "65536 * D \<le> 281474976710656" using Db by simp
      then show ?thesis using D0 by (simp add: less_eq_div_iff_mult_less_eq)
    qed
    ultimately have st2: "2 \<le> st" by linarith
    have i': "Suc i \<le> D" using i by (simp add: D_def)
    have "st div 2 + i * st < Suc i * st" using st2 by simp
    also have "\<dots> \<le> D * st" using i' by (intro mult_right_mono) auto
    finally have lt: "st div 2 + i * st < m * 281474976710656 + 1" using stD by linarith
    have mb: "m * 281474976710656 < 18446744073709551616" using m(3) by simp
    have h: "1 \<le> st div 2" using st2 by simp
    have "(st div 2 + 18446744073709551615) mod 18446744073709551616 = st div 2 - 1"
    proof -
      have "st div 2 + 18446744073709551615 = (st div 2 - 1) + 1 * 18446744073709551616"
        using h by simp
      moreover have "st div 2 - 1 < 18446744073709551616" using lt mb by linarith
      ultimately show ?thesis by (metis mod_less mod_mult_self1)
    qed
    then have "unat (walkAt srcExtent dstExtent i)
        = (st div 2 - 1 + i * st) mod 18446744073709551616" by (simp add: cur)
    also have "\<dots> = st div 2 - 1 + i * st" using lt mb h by simp
    finally have c: "unat (walkAt srcExtent dstExtent i) = st div 2 - 1 + i * st" .
    have "st div 2 - 1 + i * st < m * 281474976710656" using lt h by linarith
    then have "(st div 2 - 1 + i * st) div 281474976710656 < m"
      by (simp add: less_mult_imp_div_less)
    then show ?thesis using m(2) by (simp add: c S_def)
  qed
qed

lemma unat_nearestCoord:
  "unat (nearestCoord cur) = unat cur div 281474976710656"
proof -
  have "unat cur div 281474976710656 < 65536"
    using unat_u64_bound [of cur] by (simp add: div_less_iff_less_mult)
  then show ?thesis
    by (simp add: nearestCoord_def unsigned_ucast_eq unat_drop_bit_eq drop_bit_eq_div
        take_bit_nat_eq_self_iff unat_div)
qed

lemma unat_sub_sat:
  fixes t c :: u32
  shows "unat (if t > c then t - c else 0) = unat t - unat c"
  by (auto simp add: word_less_nat_alt unat_sub word_le_nat_alt)

lemma linearSample_parts:
  "linearSample cur e =
     (drop_bit 16 (if (ucast (drop_bit 32 cur) :: u32) > 0x8000
                   then ucast (drop_bit 32 cur) - 0x8000 else 0),
      min (drop_bit 16 (if (ucast (drop_bit 32 cur) :: u32) > 0x8000
                        then ucast (drop_bit 32 cur) - 0x8000 else 0) + 1) (e - 1),
      (if (ucast (drop_bit 32 cur) :: u32) > 0x8000
       then ucast (drop_bit 32 cur) - 0x8000 else 0) AND 0xFFFF)"
  by (simp add: linearSample_def Let_def)

lemma byteSample_parts:
  "byteSample cur e =
     (drop_bit 12 (if (ucast (drop_bit 36 cur) :: u32) > 0x800
                   then ucast (drop_bit 36 cur) - 0x800 else 0),
      min (drop_bit 12 (if (ucast (drop_bit 36 cur) :: u32) > 0x800
                        then ucast (drop_bit 36 cur) - 0x800 else 0) + 1) (e - 1),
      (if (ucast (drop_bit 36 cur) :: u32) > 0x800
       then ucast (drop_bit 36 cur) - 0x800 else 0) AND 0xFFF)"
  by (simp add: byteSample_def Let_def)

lemma unat_high32: "unat (ucast (drop_bit 32 (cur :: u64)) :: u32) = unat cur div 4294967296"
proof -
  have "unat cur div 4294967296 < 4294967296"
    using unat_u64_bound [of cur] by (simp add: div_less_iff_less_mult)
  then show ?thesis
    by (simp add: unsigned_ucast_eq drop_bit_eq_div take_bit_nat_eq_self_iff unat_div)
qed

lemma unat_high28: "unat (ucast (drop_bit 36 (cur :: u64)) :: u32) = unat cur div 68719476736"
proof -
  have "unat cur div 68719476736 < 4294967296"
    using unat_u64_bound [of cur] by (simp add: div_less_iff_less_mult)
  then show ?thesis
    by (simp add: unsigned_ucast_eq drop_bit_eq_div take_bit_nat_eq_self_iff unat_div)
qed

lemma sat_coord16:
  fixes t :: u32
  shows "unat (drop_bit 16 (if t > 0x8000 then t - 0x8000 else 0)) = (unat t - 32768) div 65536"
proof -
  have h: "unat (drop_bit 16 x) = unat x div 65536" for x :: u32
    by (simp add: drop_bit_eq_div unat_div)
  have "unat (if t > 0x8000 then t - 0x8000 else 0) = unat t - unat (0x8000 :: u32)"
    by (rule unat_sub_sat)
  then show ?thesis by (simp only: h) simp
qed

lemma sat_coord12:
  fixes t :: u32
  shows "unat (drop_bit 12 (if t > 0x800 then t - 0x800 else 0)) = (unat t - 2048) div 4096"
proof -
  have h: "unat (drop_bit 12 x) = unat x div 4096" for x :: u32
    by (simp add: drop_bit_eq_div unat_div)
  have "unat (if t > 0x800 then t - 0x800 else 0) = unat t - unat (0x800 :: u32)"
    by (rule unat_sub_sat)
  then show ?thesis by (simp only: h) simp
qed

lemma unat_linear_coord1:
  "unat (fst (linearSample cur e)) = (unat cur div 4294967296 - 32768) div 65536"
  by (simp only: linearSample_parts fst_conv sat_coord16 unat_high32)

lemma unat_byte_coord1:
  "unat (fst (byteSample cur e)) = (unat cur div 68719476736 - 2048) div 4096"
  by (simp only: byteSample_parts fst_conv sat_coord12 unat_high28)

lemma second_coord_clamped:
  fixes c e :: u32
  assumes "e \<noteq> 0"
  shows "min (c + 1) (e - 1) < e"
proof -
  have "e - 1 < e" using assms by (simp add: word_less_nat_alt unat_minus_one unat_gt_0)
  moreover have "min (c + 1) (e - 1) \<le> e - 1" by simp
  ultimately show ?thesis by (rule order.strict_trans1 [rotated])
qed

lemma coord1_le_high:
  "(unat (cur :: u64) div 4294967296 - 32768) div 65536 \<le> unat cur div 281474976710656"
  "(unat cur div 68719476736 - 2048) div 4096 \<le> unat cur div 281474976710656"
proof -
  have "(unat cur div 4294967296 - 32768) div 65536 \<le> (unat cur div 4294967296) div 65536"
    by (intro div_le_mono) simp
  then show "(unat cur div 4294967296 - 32768) div 65536 \<le> unat cur div 281474976710656"
    by (simp add: div_mult2_eq [symmetric])
  have "(unat cur div 68719476736 - 2048) div 4096 \<le> (unat cur div 68719476736) div 4096"
    by (intro div_le_mono) simp
  then show "(unat cur div 68719476736 - 2048) div 4096 \<le> unat cur div 281474976710656"
    by (simp add: div_mult2_eq [symmetric])
qed

lemma sample_coordinates:
  assumes s: "srcExtent \<noteq> 0" and d: "dstExtent \<noteq> 0" and i: "i < unat dstExtent"
  defines "cur \<equiv> walkAt srcExtent dstExtent i"
  shows "nearestCoord cur < srcExtent
       \<and> (case linearSample cur srcExtent of (c1, c2, w) \<Rightarrow>
            c1 < srcExtent \<and> c2 = min (c1 + 1) (srcExtent - 1) \<and> c2 < srcExtent)
       \<and> (case byteSample cur srcExtent of (c1, c2, w) \<Rightarrow>
            c1 < srcExtent \<and> c2 = min (c1 + 1) (srcExtent - 1) \<and> c2 < srcExtent)
       \<and> (srcExtent = 1 \<longrightarrow>
            nearestCoord cur = 0
            \<and> fst (linearSample cur srcExtent) = 0 \<and> fst (snd (linearSample cur srcExtent)) = 0
            \<and> fst (byteSample cur srcExtent) = 0 \<and> fst (snd (byteSample cur srcExtent)) = 0
            \<and> getSourceData source sourceData ses (nearestCoord cur) 0 0 = sourceData
            \<and> getSourceData source sourceData ses (fst (linearSample cur srcExtent)) 0 0
                = sourceData
            \<and> getSourceData source sourceData ses (fst (snd (linearSample cur srcExtent))) 0 0
                = sourceData)"
proof -
  have hi: "unat cur div 281474976710656 < unat srcExtent"
    unfolding cur_def by (rule walk_high [OF s d i])
  have n: "nearestCoord cur < srcExtent"
    using hi by (simp add: word_less_nat_alt unat_nearestCoord)
  have l1: "fst (linearSample cur srcExtent) < srcExtent"
    using hi coord1_le_high(1) [of cur]
    by (simp add: word_less_nat_alt unat_linear_coord1 del: linearSample_parts)
  have b1: "fst (byteSample cur srcExtent) < srcExtent"
    using hi coord1_le_high(2) [of cur]
    by (simp add: word_less_nat_alt unat_byte_coord1)
  have l2: "fst (snd (linearSample cur srcExtent))
      = min (fst (linearSample cur srcExtent) + 1) (srcExtent - 1)"
    by (simp add: linearSample_def Let_def)
  have b2: "fst (snd (byteSample cur srcExtent))
      = min (fst (byteSample cur srcExtent) + 1) (srcExtent - 1)"
    by (simp add: byteSample_def Let_def)
  have l3: "fst (snd (linearSample cur srcExtent)) < srcExtent"
    unfolding l2 by (rule second_coord_clamped [OF s])
  have b3: "fst (snd (byteSample cur srcExtent)) < srcExtent"
    unfolding b2 by (rule second_coord_clamped [OF s])
  have one: "x = 0" if "x < srcExtent" "srcExtent = 1" for x :: u32
    using that by (simp add: word_less_nat_alt unat_eq_0 [symmetric] del: unat_eq_0)
  show ?thesis
    using n l1 l2 l3 b1 b2 b3 one [OF n] one [OF l1] one [OF l3] one [OF b1] one [OF b3]
    by (auto simp add: case_prod_unfold getSourceData_def)
qed

section \<open>The reads of the resampling kernels\<close>

lemma iter_rel:
  assumes body: "\<And>j dp m1 m2. j0 \<le> j \<Longrightarrow> j < j0 + n \<Longrightarrow> sameWrites R mem1 mem2 m1 m2 \<Longrightarrow>
            sameStep R mem1 mem2 (body j dp m1) (body j dp m2)"
    and P: "sameWrites R mem1 mem2 m1 m2"
  shows "sameStep R mem1 mem2 (iter body skip n j0 dp m1) (iter body skip n j0 dp m2)"
  using body P
proof (induction n arbitrary: j0 dp m1 m2)
  case 0
  then show ?case by (simp add: sameStep_def)
next
  case (Suc n)
  obtain d1 k1 where b1: "body j0 dp m1 = (d1, k1)" by fastforce
  obtain d2 k2 where b2: "body j0 dp m2 = (d2, k2)" by fastforce
  have s: "d1 = d2" "sameWrites R mem1 mem2 k1 k2"
    using Suc.prems(1) [of j0 m1 m2 dp] Suc.prems(2) by (simp_all add: b1 b2 sameStep_def)
  have "sameStep R mem1 mem2 (iter body skip n (Suc j0) (d1 + skip) k1)
      (iter body skip n (Suc j0) (d1 + skip) k2)"
  proof (rule Suc.IH)
    show "sameWrites R mem1 mem2 k1 k2" by (rule s(2))
    show "sameStep R mem1 mem2 (body j dp' a1) (body j dp' a2)"
      if "Suc j0 \<le> j" "j < Suc j0 + n" "sameWrites R mem1 mem2 a1 a2" for j dp' a1 a2
      using Suc.prems(1) [of j a1 a2 dp'] that by simp
  qed
  then show ?case by (simp add: b1 b2 s(1) [symmetric])
qed

lemma iterE_rel:
  assumes body: "\<And>j dp m1 m2. j0 \<le> j \<Longrightarrow> j < j0 + n \<Longrightarrow> sameWrites R mem1 mem2 m1 m2 \<Longrightarrow>
            sameWalk R mem1 mem2 (body j dp m1) (body j dp m2)"
    and P: "sameWrites R mem1 mem2 m1 m2"
  shows "sameWalk R mem1 mem2 (iterE body skip n j0 dp m1) (iterE body skip n j0 dp m2)"
  using body P
proof (induction n arbitrary: j0 dp m1 m2)
  case 0
  then show ?case by (simp add: sameWalk_def)
next
  case (Suc n)
  have b: "sameWalk R mem1 mem2 (body j0 dp m1) (body j0 dp m2)"
    using Suc.prems(1) [of j0 m1 m2 dp] Suc.prems(2) by simp
  show ?case
  proof (cases "body j0 dp m1")
    case (Inl e1)
    then show ?thesis using b by (auto simp add: sameWalk_def split: sum.splits prod.splits)
  next
    case (Inr x1)
    obtain d1 k1 where x1: "x1 = (d1, k1)" by fastforce
    from b Inr x1 obtain k2 where b2: "body j0 dp m2 = Inr (d1, k2)"
      and k: "sameWrites R mem1 mem2 k1 k2"
      by (auto simp add: sameWalk_def split: sum.splits prod.splits)
    have "sameWalk R mem1 mem2 (iterE body skip n (Suc j0) (d1 + skip) k1)
        (iterE body skip n (Suc j0) (d1 + skip) k2)"
    proof (rule Suc.IH)
      show "sameWrites R mem1 mem2 k1 k2" by (rule k)
      show "sameWalk R mem1 mem2 (body j dp' a1) (body j dp' a2)"
        if "Suc j0 \<le> j" "j < Suc j0 + n" "sameWrites R mem1 mem2 a1 a2" for j dp' a1 a2
        using Suc.prems(1) [of j a1 a2 dp'] that by simp
    qed
    then show ?thesis by (simp add: Inr x1 b2)
  qed
qed

lemma sameWrites_refl: "(\<forall>a \<in> R. mem1 a = mem2 a) \<Longrightarrow> sameWrites R mem1 mem2 mem1 mem2"
  by (simp add: sameWrites_def)

lemma sameWrites_upd:
  "sameWrites R mem1 mem2 m1 m2 \<Longrightarrow> sameWrites R mem1 mem2 (m1(w := v)) (m2(w := v))"
  by (simp add: sameWrites_def)

lemma sameWrites_read: "sameWrites R mem1 mem2 m1 m2 \<Longrightarrow> a \<in> R \<Longrightarrow> m1 a = m2 a"
  by (simp add: sameWrites_def)

lemma sameWrites_memcpy:
  assumes "sameWrites R mem1 mem2 m1 m2" and "\<And>k. k < n \<Longrightarrow> s + k \<in> R"
  shows "sameWrites R mem1 mem2 (memcpy d s n m1) (memcpy d s n m2)"
proof -
  have c: "m1 (s + (a - d)) = m2 (s + (a - d))" if "d \<le> a" "a < d + n" for a
  proof -
    have "a - d < n" using that by simp
    then have "s + (a - d) \<in> R" by (rule assms(2))
    then show ?thesis using assms(1) by (simp add: sameWrites_def)
  qed
  show ?thesis
    using assms(1) c unfolding sameWrites_def memcpy_def by auto
qed

lemma sameWrites_storeLE:
  "sameWrites R mem1 mem2 m1 m2 \<Longrightarrow>
     sameWrites R mem1 mem2 (storeLE p n v m1) (storeLE p n v m2)"
  by (induction n arbitrary: p v m1 m2) (simp_all add: sameWrites_upd)

lemma offset_le:
  fixes x y z w h d rp sp es :: nat
  assumes "x < w" "w \<le> rp" "y < h" "rp * h \<le> sp" "z < d"
  shows "es * (x + y * rp + z * sp) \<le> es * (sp * d)"
proof -
  have "Suc y * rp \<le> h * rp" using assms(3) by (intro mult_le_mono1) simp
  then have a: "x + y * rp < sp" using assms(1,2,4) by (simp add: mult.commute)
  have "Suc z * sp \<le> d * sp" using assms(5) by (intro mult_le_mono1) simp
  then have "x + y * rp + z * sp \<le> sp * d" using a by (simp add: mult.commute)
  then show ?thesis by (rule mult_le_mono2)
qed

lemma unat_offset:
  fixes RP SP :: u32
  assumes "es * (x + y * unat RP + z * unat SP) < 4294967296"
  shows "unat ((of_nat es :: u32) * (of_nat x + of_nat y * RP + of_nat z * SP))
       = es * (x + y * unat RP + z * unat SP)"
proof -
  have "(of_nat es :: u32) * (of_nat x + of_nat y * RP + of_nat z * SP)
      = of_nat (es * (x + y * unat RP + z * unat SP))" by simp
  then show ?thesis using assms by (simp add: unat_of_nat del: of_nat_mult of_nat_add)
qed

lemma count_le: "unat (r :: u32) - unat l \<le> unat (r - l)"
proof (cases "l \<le> r")
  case True
  then show ?thesis by (simp add: unat_sub)
next
  case False
  then have "unat r - unat l = 0" by (simp add: word_le_nat_alt)
  then show ?thesis by simp
qed

lemma source_offset:
  fixes X Y Z :: u32
  assumes fit: "pitchesFit src"
    and c: "X < getWidth src" "Y < getHeight src" "Z < getDepth src"
  shows "unat (getNumElemBytes (getFormat src)
               * (X + Y * getRowPitch src + Z * getSlicePitch src))
       = unat (getNumElemBytes (getFormat src))
           * (unat X + unat Y * unat (getRowPitch src) + unat Z * unat (getSlicePitch src))"
proof -
  let ?es = "unat (getNumElemBytes (getFormat src))"
  let ?RP = "getRowPitch src" and ?SP = "getSlicePitch src"
  have "?es * (unat X + unat Y * unat ?RP + unat Z * unat ?SP)
      \<le> ?es * (unat ?SP * unat (getDepth src))"
    using fit c
    by (intro offset_le [where w = "unat (getWidth src)" and h = "unat (getHeight src)"])
       (simp_all add: pitchesFit_def word_less_nat_alt)
  moreover have "?es * (unat ?SP * unat (getDepth src)) < 4294967296"
    using fit by (simp add: pitchesFit_def byteSize_def)
  ultimately have "?es * (unat X + unat Y * unat ?RP + unat Z * unat ?SP) < 4294967296"
    by (rule le_less_trans)
  from unat_offset [OF this] show ?thesis by simp
qed

lemma source_address:
  fixes X Y Z :: u32
  assumes fit: "pitchesFit src"
    and c: "X < getWidth src" "Y < getHeight src" "Z < getDepth src"
    and k: "k < unat (getNumElemBytes (getFormat src))"
  shows "getSourceData src sd (getNumElemBytes (getFormat src)) X Y Z + k \<in> sourceBytes src sd"
proof -
  have "getSourceData src sd (getNumElemBytes (getFormat src)) X Y Z + k
      = pixelByte src sd (unat X) (unat Y) (unat Z) k"
    by (simp add: getSourceData_def pixelByte_def source_offset [OF fit c])
  moreover have "pixelByte src sd (unat X) (unat Y) (unat Z) k \<in> sourceBytes src sd"
    unfolding sourceBytes_def using c k by (auto simp add: word_less_nat_alt)
  ultimately show ?thesis by simp
qed

lemma axis_coords:
  assumes "S \<noteq> 0" "D \<noteq> 0" "i < unat D"
  shows "nearestCoord (walkAt S D i) < S"
    "fst (linearSample (walkAt S D i) S) < S" "fst (snd (linearSample (walkAt S D i) S)) < S"
    "fst (byteSample (walkAt S D i) S) < S" "fst (snd (byteSample (walkAt S D i) S)) < S"
  using sample_coordinates [OF assms, of undefined undefined undefined]
  by (auto simp add: case_prod_unfold)

lemma nearestRow_iter:
  "nearestRow es sd offY offZ (fixedStep S D) n (walkAt S D i) dp mem
     = iter (\<lambda>i dp mem. (dp + es,
               memcpy dp (sd + unat ((of_nat es :: u32) * (nearestCoord (walkAt S D i) + offY + offZ)))
                 es mem)) 0 n i dp mem"
  by (induction n arbitrary: i dp mem) (simp_all add: Let_def walkAt_loop(2) [symmetric])

lemma nearestRows_iter:
  "nearestRows es source dest sd offZ stepX (fixedStep S D) n (walkAt S D j) dp mem
     = iter (\<lambda>j dp mem. nearestRow es sd (nearestCoord (walkAt S D j) * getRowPitch source) offZ
               stepX (unat (getRight dest) - unat (getLeft dest)) (startCoord stepX) dp mem)
         (unat ((of_nat es :: u32) * getRowSkip dest)) n j dp mem"
  by (induction n arbitrary: j dp mem)
     (simp_all add: Let_def walkAt_loop(2) [symmetric] split: prod.splits)

lemma nearestSlices_iter:
  "nearestSlices es source dest sd stepX stepY (fixedStep S D) n (walkAt S D z) dp mem
     = iter (\<lambda>z dp mem. nearestRows es source dest sd
               (nearestCoord (walkAt S D z) * getSlicePitch source) stepX stepY
               (unat (getBottom dest) - unat (getTop dest)) (startCoord stepY) dp mem)
         (unat ((of_nat es :: u32) * getSliceSkip dest)) n z dp mem"
  by (induction n arbitrary: z dp mem)
     (simp_all add: Let_def walkAt_loop(2) [symmetric] split: prod.splits)

lemma nearestRow_rel:
  fixes Y Z :: u32
  assumes fit: "pitchesFit src" and es: "es = unat (getNumElemBytes (getFormat src))"
    and S: "getWidth src \<noteq> 0" and D: "D \<noteq> 0" and n: "n \<le> unat D"
    and yz: "Y < getHeight src" "Z < getDepth src"
    and P: "sameWrites (sourceBytes src sd) mem1 mem2 m1 m2"
  shows "sameStep (sourceBytes src sd) mem1 mem2
     (nearestRow es sd (Y * getRowPitch src) (Z * getSlicePitch src)
        (fixedStep (getWidth src) D) n (startCoord (fixedStep (getWidth src) D)) dp m1)
     (nearestRow es sd (Y * getRowPitch src) (Z * getSlicePitch src)
        (fixedStep (getWidth src) D) n (startCoord (fixedStep (getWidth src) D)) dp m2)"
proof -
  let ?S = "getWidth src"
  let ?body = "\<lambda>i dp mem. (dp + es,
      memcpy dp (sd + unat ((of_nat es :: u32)
        * (nearestCoord (walkAt ?S D i) + Y * getRowPitch src + Z * getSlicePitch src))) es mem)"
  have eq: "nearestRow es sd (Y * getRowPitch src) (Z * getSlicePitch src)
                (fixedStep ?S D) n (startCoord (fixedStep ?S D)) dp m
          = iter ?body 0 n 0 dp m" for m
    using nearestRow_iter [of es sd "Y * getRowPitch src" "Z * getSlicePitch src" ?S D n 0 dp m]
    by (simp add: walkAt_loop(1))
  have ES: "(of_nat es :: u32) = getNumElemBytes (getFormat src)" by (simp add: es)
  show ?thesis
    unfolding eq
  proof (rule iter_rel [OF _ P])
    fix i dp' a1 a2
    assume i: "i < 0 + n" and a: "sameWrites (sourceBytes src sd) mem1 mem2 a1 a2"
    have x: "nearestCoord (walkAt ?S D i) < ?S"
      using i n by (intro axis_coords(1) [OF S D]) simp
    have "sameWrites (sourceBytes src sd) mem1 mem2
        (memcpy dp' (getSourceData src sd (getNumElemBytes (getFormat src))
                       (nearestCoord (walkAt ?S D i)) Y Z) es a1)
        (memcpy dp' (getSourceData src sd (getNumElemBytes (getFormat src))
                       (nearestCoord (walkAt ?S D i)) Y Z) es a2)"
      using a
    proof (rule sameWrites_memcpy)
      fix k assume "k < es"
      then show "getSourceData src sd (getNumElemBytes (getFormat src))
                       (nearestCoord (walkAt ?S D i)) Y Z + k \<in> sourceBytes src sd"
        using source_address [OF fit x yz] by (simp add: es)
    qed
    then show "sameStep (sourceBytes src sd) mem1 mem2 (?body i dp' a1) (?body i dp' a2)"
      by (simp add: sameStep_def ES getSourceData_def)
  qed
qed

lemma nearestRows_rel:
  fixes Z :: u32
  assumes fit: "pitchesFit src" and es: "es = unat (getNumElemBytes (getFormat src))"
    and S: "getWidth src \<noteq> 0" "getHeight src \<noteq> 0"
    and D: "getWidth dst \<noteq> 0" "DY \<noteq> 0" and n: "n \<le> unat DY"
    and z: "Z < getDepth src"
    and P: "sameWrites (sourceBytes src sd) mem1 mem2 m1 m2"
  shows "sameStep (sourceBytes src sd) mem1 mem2
     (nearestRows es src dst sd (Z * getSlicePitch src) (fixedStep (getWidth src) (getWidth dst))
        (fixedStep (getHeight src) DY) n (startCoord (fixedStep (getHeight src) DY)) dp m1)
     (nearestRows es src dst sd (Z * getSlicePitch src) (fixedStep (getWidth src) (getWidth dst))
        (fixedStep (getHeight src) DY) n (startCoord (fixedStep (getHeight src) DY)) dp m2)"
proof -
  let ?S = "getHeight src"
  let ?stepX = "fixedStep (getWidth src) (getWidth dst)"
  let ?body = "\<lambda>j dp mem. nearestRow es sd (nearestCoord (walkAt ?S DY j) * getRowPitch src)
      (Z * getSlicePitch src) ?stepX (unat (getRight dst) - unat (getLeft dst))
      (startCoord ?stepX) dp mem"
  have eq: "nearestRows es src dst sd (Z * getSlicePitch src) ?stepX
                (fixedStep ?S DY) n (startCoord (fixedStep ?S DY)) dp m
          = iter ?body (unat ((of_nat es :: u32) * getRowSkip dst)) n 0 dp m" for m
    using nearestRows_iter [of es src dst sd "Z * getSlicePitch src" ?stepX ?S DY n 0 dp m]
    by (simp add: walkAt_loop(1))
  have cnt: "unat (getRight dst) - unat (getLeft dst) \<le> unat (getWidth dst)"
    using count_le [of "getRight dst" "getLeft dst"]
    by (simp add: getWidth_def getRight_def getLeft_def)
  show ?thesis
    unfolding eq
  proof (rule iter_rel [OF _ P])
    fix j dp' a1 a2
    assume j: "j < 0 + n" and a: "sameWrites (sourceBytes src sd) mem1 mem2 a1 a2"
    have y: "nearestCoord (walkAt ?S DY j) < ?S"
      using j n by (intro axis_coords(1) [OF S(2) D(2)]) simp
    show "sameStep (sourceBytes src sd) mem1 mem2 (?body j dp' a1) (?body j dp' a2)"
      by (rule nearestRow_rel [OF fit es S(1) D(1) cnt y z a])
  qed
qed

lemma nearestSlices_rel:
  assumes fit: "pitchesFit src" and es: "es = unat (getNumElemBytes (getFormat src))"
    and S: "getWidth src \<noteq> 0" "getHeight src \<noteq> 0" "getDepth src \<noteq> 0"
    and D: "getWidth dst \<noteq> 0" "getHeight dst \<noteq> 0" "DZ \<noteq> 0" and n: "n \<le> unat DZ"
    and P: "sameWrites (sourceBytes src sd) mem1 mem2 m1 m2"
  shows "sameStep (sourceBytes src sd) mem1 mem2
     (nearestSlices es src dst sd (fixedStep (getWidth src) (getWidth dst))
        (fixedStep (getHeight src) (getHeight dst))
        (fixedStep (getDepth src) DZ) n (startCoord (fixedStep (getDepth src) DZ)) dp m1)
     (nearestSlices es src dst sd (fixedStep (getWidth src) (getWidth dst))
        (fixedStep (getHeight src) (getHeight dst))
        (fixedStep (getDepth src) DZ) n (startCoord (fixedStep (getDepth src) DZ)) dp m2)"
proof -
  let ?S = "getDepth src"
  let ?stepX = "fixedStep (getWidth src) (getWidth dst)"
  let ?stepY = "fixedStep (getHeight src) (getHeight dst)"
  let ?body = "\<lambda>z dp mem. nearestRows es src dst sd
      (nearestCoord (walkAt ?S DZ z) * getSlicePitch src) ?stepX ?stepY
      (unat (getBottom dst) - unat (getTop dst)) (startCoord ?stepY) dp mem"
  have eq: "nearestSlices es src dst sd ?stepX ?stepY
                (fixedStep ?S DZ) n (startCoord (fixedStep ?S DZ)) dp m
          = iter ?body (unat ((of_nat es :: u32) * getSliceSkip dst)) n 0 dp m" for m
    using nearestSlices_iter [of es src dst sd ?stepX ?stepY ?S DZ n 0 dp m]
    by (simp add: walkAt_loop(1))
  have cnt: "unat (getBottom dst) - unat (getTop dst) \<le> unat (getHeight dst)"
    using count_le [of "getBottom dst" "getTop dst"]
    by (simp add: getHeight_def getBottom_def getTop_def)
  show ?thesis
    unfolding eq
  proof (rule iter_rel [OF _ P])
    fix j dp' a1 a2
    assume j: "j < 0 + n" and a: "sameWrites (sourceBytes src sd) mem1 mem2 a1 a2"
    have z: "nearestCoord (walkAt ?S DZ j) < ?S"
      using j n by (intro axis_coords(1) [OF S(3) D(3)]) simp
    show "sameStep (sourceBytes src sd) mem1 mem2 (?body j dp' a1) (?body j dp' a2)"
      by (rule nearestRows_rel [OF fit es S(1,2) D(1,2) cnt z a])
  qed
qed

lemma sameOutcome_Inl:
  "\<forall>a \<in> R. mem1 a = mem2 a \<Longrightarrow> sameOutcome R mem1 mem2 (Inl (e, mem1)) (Inl (e, mem2))"
  by (simp add: sameOutcome_def sameWrites_def)

lemma sameOutcome_Inr:
  "sameWrites R mem1 mem2 m1 m2 \<Longrightarrow> sameOutcome R mem1 mem2 (Inr m1) (Inr m2)"
  by (simp add: sameOutcome_def)

lemma NearestResampler_rel:
  assumes fit: "pitchesFit src"
    and S: "getWidth src \<noteq> 0" "getHeight src \<noteq> 0" "getDepth src \<noteq> 0"
    and dat: "getData src = Some sd"
    and agree: "\<forall>a \<in> sourceBytes src sd. mem1 a = mem2 a"
  shows "sameOutcome (sourceBytes src sd) mem1 mem2
     (NearestResampler_scale (unat (getNumElemBytes (getFormat src))) src dst mem1)
     (NearestResampler_scale (unat (getNumElemBytes (getFormat src))) src dst mem2)"
proof -
  note P = sameWrites_refl [OF agree]
  have cnt: "unat (getBack dst) - unat (getFront dst) \<le> unat (getDepth dst)"
    using count_le [of "getBack dst" "getFront dst"]
    by (simp add: getDepth_def getBack_def getFront_def)
  show ?thesis
  proof (cases "getWidth dst = 0 \<or> getHeight dst = 0 \<or> getDepth dst = 0")
    case True
    then show ?thesis
      using sameOutcome_Inl [OF agree] by (simp add: NearestResampler_scale_def)
  next
    case False
    then have D: "getWidth dst \<noteq> 0" "getHeight dst \<noteq> 0" "getDepth dst \<noteq> 0" by simp_all
    show ?thesis
    proof (cases "regionEmpty dst")
      case True
      then show ?thesis
        using D sameOutcome_Inr [OF P] by (simp add: NearestResampler_scale_def Let_def)
    next
      case ne: False
      show ?thesis
      proof (cases "getData dst")
        case None
        then show ?thesis
          using D ne sameOutcome_Inl [OF agree]
          by (simp add: NearestResampler_scale_def Let_def dat)
      next
        case (Some dp)
        have "sameStep (sourceBytes src sd) mem1 mem2
           (nearestSlices (unat (getNumElemBytes (getFormat src))) src dst sd
              (fixedStep (getWidth src) (getWidth dst)) (fixedStep (getHeight src) (getHeight dst))
              (fixedStep (getDepth src) (getDepth dst)) (unat (getBack dst) - unat (getFront dst))
              (startCoord (fixedStep (getDepth src) (getDepth dst))) dp mem1)
           (nearestSlices (unat (getNumElemBytes (getFormat src))) src dst sd
              (fixedStep (getWidth src) (getWidth dst)) (fixedStep (getHeight src) (getHeight dst))
              (fixedStep (getDepth src) (getDepth dst)) (unat (getBack dst) - unat (getFront dst))
              (startCoord (fixedStep (getDepth src) (getDepth dst))) dp mem2)"
          by (rule nearestSlices_rel [OF fit refl S D cnt P])
        then show ?thesis
          using D ne
          by (simp add: NearestResampler_scale_def Let_def dat Some sameStep_def sameOutcome_def)
      qed
    qed
  qed
qed

lemma unpackColor_cong:
  assumes "\<And>k. k < unat (getNumElemBytes f) \<Longrightarrow> m1 (p + k) = m2 (p + k)"
  shows "unpackColor fc f p m1 = unpackColor fc f p m2"
proof -
  have L: "loadLE m1 (p + c) n = loadLE m2 (p + c) n"
    if "c + n \<le> unat (getNumElemBytes f)" for c n
  proof (rule loadLE_cong)
    fix a assume a: "p + c \<le> a" "a < p + c + n"
    then have "a - p < unat (getNumElemBytes f)" using that by simp
    from assms [OF this] show "m1 a = m2 a" using a by simp
  qed
  have L0: "loadLE m1 p n = loadLE m2 p n" if "n \<le> unat (getNumElemBytes f)" for n
    using L [of 0 n] that by simp
  have L2: "loadLE m1 (Suc (Suc p)) n = loadLE m2 (Suc (Suc p)) n"
    if "2 + n \<le> unat (getNumElemBytes f)" for n
    using L [of 2 n] that by simp
  have B: "m1 p = m2 p" if "0 < unat (getNumElemBytes f)"
    using assms [of 0] that by simp
  have B1: "m1 (Suc p) = m2 (Suc p)" if "1 < unat (getNumElemBytes f)"
    using assms [of 1] that by simp
  show ?thesis
    by (cases f)
       (simp_all add: unpackColor_def Let_def getDescriptionFor_simps row_def flag_defs
          intRead_def loadFloat_def loadHalf_def L L0 L2 B B1 getNumElemBytes_def)
qed

lemma packColor_rel:
  assumes "sameWrites R mem1 mem2 m1 m2"
  shows "(\<exists>e. packColor fc r g b a f dp m1 = Inl e \<and> packColor fc r g b a f dp m2 = Inl e)
       \<or> (\<exists>k1 k2. packColor fc r g b a f dp m1 = Inr k1 \<and> packColor fc r g b a f dp m2 = Inr k2
             \<and> sameWrites R mem1 mem2 k1 k2)"
  using assms
  by (simp add: packColor_def Let_def intWrite_def storeFloat_def storeHalf_def
      sameWrites_storeLE sameWrites_upd split: PixelFormat.splits)

lemma sameWalk_cases:
  assumes "sameWalk R mem1 mem2 w1 w2"
  obtains (err) e k1 k2 where "w1 = Inl (e, k1)" "w2 = Inl (e, k2)" "sameWrites R mem1 mem2 k1 k2"
    | (ok) d k1 k2 where "w1 = Inr (d, k1)" "w2 = Inr (d, k2)" "sameWrites R mem1 mem2 k1 k2"
proof (cases w1)
  case (Inl a)
  obtain e k1 where a: "a = (e, k1)" by (cases a) auto
  from assms Inl a obtain k2 where "w2 = Inl (e, k2)" "sameWrites R mem1 mem2 k1 k2"
    by (cases w2) (auto simp add: sameWalk_def)
  then show ?thesis using err Inl a by simp
next
  case (Inr b)
  obtain d k1 where b: "b = (d, k1)" by (cases b) auto
  from assms Inr b obtain k2 where "w2 = Inr (d, k2)" "sameWrites R mem1 mem2 k1 k2"
    by (cases w2) (auto simp add: sameWalk_def)
  then show ?thesis using ok Inr b by simp
qed

lemma sameWalk_Inl: "sameWrites R mem1 mem2 k1 k2 \<Longrightarrow> sameWalk R mem1 mem2 (Inl (e, k1)) (Inl (e, k2))"
  by (simp add: sameWalk_def)

lemma linearPixel_cong:
  assumes fit: "pitchesFit src"
    and P: "sameWrites (sourceBytes src sd) mem1 mem2 m1 m2"
    and x: "fst sx < getWidth src" "fst (snd sx) < getWidth src"
    and y: "fst sy < getHeight src" "fst (snd sy) < getHeight src"
    and z: "fst sz < getDepth src" "fst (snd sz) < getDepth src"
  shows "linearPixel fc src sd sx sy sz m1 = linearPixel fc src sd sx sy sz m2"
proof -
  have g: "unpackColor fc (getFormat src)
             (getSourceData src sd (getNumElemBytes (getFormat src)) X Y Z) m1
         = unpackColor fc (getFormat src)
             (getSourceData src sd (getNumElemBytes (getFormat src)) X Y Z) m2"
    if "X < getWidth src" "Y < getHeight src" "Z < getDepth src" for X Y Z
  proof (rule unpackColor_cong)
    fix k assume "k < unat (getNumElemBytes (getFormat src))"
    from source_address [OF fit that this]
    show "m1 (getSourceData src sd (getNumElemBytes (getFormat src)) X Y Z + k)
        = m2 (getSourceData src sd (getNumElemBytes (getFormat src)) X Y Z + k)"
      by (rule sameWrites_read [OF P])
  qed
  obtain x1 x2 fx where sx: "sx = (x1, x2, fx)" by (cases sx) auto
  obtain y1 y2 fy where sy: "sy = (y1, y2, fy)" by (cases sy) auto
  obtain z1 z2 fz where sz: "sz = (z1, z2, fz)" by (cases sz) auto
  have c: "x1 < getWidth src" "x2 < getWidth src" "y1 < getHeight src" "y2 < getHeight src"
    "z1 < getDepth src" "z2 < getDepth src"
    using x y z by (simp_all add: sx sy sz)
  show ?thesis
    unfolding linearPixel_def sx sy sz prod.case Let_def
    by (simp only: g [OF c(1) c(3) c(5)] g [OF c(2) c(3) c(5)] g [OF c(1) c(4) c(5)]
        g [OF c(2) c(4) c(5)] g [OF c(1) c(3) c(6)] g [OF c(2) c(3) c(6)] g [OF c(1) c(4) c(6)]
        g [OF c(2) c(4) c(6)])
qed

lemma linearRow_rel:
  assumes fit: "pitchesFit src" and S: "getWidth src \<noteq> 0" and D: "D \<noteq> 0"
    and y: "fst sy < getHeight src" "fst (snd sy) < getHeight src"
    and z: "fst sz < getDepth src" "fst (snd sz) < getDepth src"
  shows "j + n \<le> unat D \<Longrightarrow> sameWrites (sourceBytes src sd) mem1 mem2 m1 m2 \<Longrightarrow>
     sameWalk (sourceBytes src sd) mem1 mem2
       (linearRow fc src dst sd sy sz (fixedStep (getWidth src) D) n
          (walkAt (getWidth src) D j) dp m1)
       (linearRow fc src dst sd sy sz (fixedStep (getWidth src) D) n
          (walkAt (getWidth src) D j) dp m2)"
proof (induction n arbitrary: j dp m1 m2)
  case 0
  then show ?case by (simp add: sameWalk_def)
next
  case (Suc n)
  let ?W = "getWidth src"
  let ?sx = "linearSample (walkAt ?W D j) ?W"
  have j: "j < unat D" using Suc.prems(1) by simp
  have px: "linearPixel fc src sd ?sx sy sz m1 = linearPixel fc src sd ?sx sy sz m2"
    by (rule linearPixel_cong [OF fit Suc.prems(2) axis_coords(2) [OF S D j]
          axis_coords(3) [OF S D j] y z])
  show ?case
  proof (cases "linearPixel fc src sd ?sx sy sz m2")
    case (Inl e)
    then show ?thesis using px Suc.prems(2) by (simp add: sameWalk_def)
  next
    case (Inr accum)
    obtain r g b a where accum: "accum = (r, g, b, a)" by (cases accum) auto
    from packColor_rel [OF Suc.prems(2), of fc r g b a "getFormat dst" dp]
    show ?thesis
    proof (elim disjE exE conjE)
      fix e
      assume "packColor fc r g b a (getFormat dst) dp m1 = Inl e"
        "packColor fc r g b a (getFormat dst) dp m2 = Inl e"
      then show ?thesis
        using px Inr accum Suc.prems(2) by (simp add: sameWalk_def)
    next
      fix k1 k2
      assume pk: "packColor fc r g b a (getFormat dst) dp m1 = Inr k1"
        "packColor fc r g b a (getFormat dst) dp m2 = Inr k2"
        and k: "sameWrites (sourceBytes src sd) mem1 mem2 k1 k2"
      have "Suc j + n \<le> unat D" using Suc.prems(1) by simp
      from Suc.IH [OF this k]
      show ?thesis
        using px Inr accum pk by (simp add: walkAt_loop(2))
    qed
  qed
qed

lemma linearRows_rel:
  assumes fit: "pitchesFit src" and S: "getWidth src \<noteq> 0" "getHeight src \<noteq> 0"
    and D: "getWidth dst \<noteq> 0" "D \<noteq> 0"
    and z: "fst sz < getDepth src" "fst (snd sz) < getDepth src"
  shows "j + n \<le> unat D \<Longrightarrow> sameWrites (sourceBytes src sd) mem1 mem2 m1 m2 \<Longrightarrow>
     sameWalk (sourceBytes src sd) mem1 mem2
       (linearRows fc src dst sd sz (fixedStep (getWidth src) (getWidth dst))
          (fixedStep (getHeight src) D) n (walkAt (getHeight src) D j) dp m1)
       (linearRows fc src dst sd sz (fixedStep (getWidth src) (getWidth dst))
          (fixedStep (getHeight src) D) n (walkAt (getHeight src) D j) dp m2)"
proof (induction n arbitrary: j dp m1 m2)
  case 0
  then show ?case by (simp add: sameWalk_def)
next
  case (Suc n)
  let ?H = "getHeight src"
  let ?sy = "linearSample (walkAt ?H D j) ?H"
  let ?stepX = "fixedStep (getWidth src) (getWidth dst)"
  have j: "j < unat D" using Suc.prems(1) by simp
  have cnt: "0 + (unat (getRight dst) - unat (getLeft dst)) \<le> unat (getWidth dst)"
    using count_le [of "getRight dst" "getLeft dst"]
    by (simp add: getWidth_def getRight_def getLeft_def)
  have row: "sameWalk (sourceBytes src sd) mem1 mem2
       (linearRow fc src dst sd ?sy sz ?stepX (unat (getRight dst) - unat (getLeft dst))
          (startCoord ?stepX) dp m1)
       (linearRow fc src dst sd ?sy sz ?stepX (unat (getRight dst) - unat (getLeft dst))
          (startCoord ?stepX) dp m2)"
    using linearRow_rel [OF fit S(1) D(1) axis_coords(2) [OF S(2) D(2) j]
        axis_coords(3) [OF S(2) D(2) j] z cnt Suc.prems(2), of fc dst dp]
    by (simp add: walkAt_loop(1))
  from row show ?case
  proof (cases rule: sameWalk_cases)
    case (err e k1 k2)
    then show ?thesis by (simp add: sameWalk_def)
  next
    case (ok d k1 k2)
    have "Suc j + n \<le> unat D" using Suc.prems(1) by simp
    from Suc.IH [OF this ok(3)]
    show ?thesis using ok(1,2) by (simp add: walkAt_loop(2))
  qed
qed

lemma linearSlices_rel:
  assumes fit: "pitchesFit src"
    and S: "getWidth src \<noteq> 0" "getHeight src \<noteq> 0" "getDepth src \<noteq> 0"
    and D: "getWidth dst \<noteq> 0" "getHeight dst \<noteq> 0" "D \<noteq> 0"
  shows "j + n \<le> unat D \<Longrightarrow> sameWrites (sourceBytes src sd) mem1 mem2 m1 m2 \<Longrightarrow>
     sameWalk (sourceBytes src sd) mem1 mem2
       (linearSlices fc src dst sd (fixedStep (getWidth src) (getWidth dst))
          (fixedStep (getHeight src) (getHeight dst))
          (fixedStep (getDepth src) D) n (walkAt (getDepth src) D j) dp m1)
       (linearSlices fc src dst sd (fixedStep (getWidth src) (getWidth dst))
          (fixedStep (getHeight src) (getHeight dst))
          (fixedStep (getDepth src) D) n (walkAt (getDepth src) D j) dp m2)"
proof (induction n arbitrary: j dp m1 m2)
  case 0
  then show ?case by (simp add: sameWalk_def)
next
  case (Suc n)
  let ?Z = "getDepth src"
  let ?sz = "linearSample (walkAt ?Z D j) ?Z"
  let ?stepX = "fixedStep (getWidth src) (getWidth dst)"
  let ?stepY = "fixedStep (getHeight src) (getHeight dst)"
  have j: "j < unat D" using Suc.prems(1) by simp
  have cnt: "0 + (unat (getBottom dst) - unat (getTop dst)) \<le> unat (getHeight dst)"
    using count_le [of "getBottom dst" "getTop dst"]
    by (simp add: getHeight_def getBottom_def getTop_def)
  have rows: "sameWalk (sourceBytes src sd) mem1 mem2
       (linearRows fc src dst sd ?sz ?stepX ?stepY (unat (getBottom dst) - unat (getTop dst))
          (startCoord ?stepY) dp m1)
       (linearRows fc src dst sd ?sz ?stepX ?stepY (unat (getBottom dst) - unat (getTop dst))
          (startCoord ?stepY) dp m2)"
    using linearRows_rel [OF fit S(1,2) D(1,2) axis_coords(2) [OF S(3) D(3) j]
        axis_coords(3) [OF S(3) D(3) j] cnt Suc.prems(2), of fc dp]
    by (simp add: walkAt_loop(1))
  from rows show ?case
  proof (cases rule: sameWalk_cases)
    case (err e k1 k2)
    then show ?thesis by (simp add: sameWalk_def)
  next
    case (ok d k1 k2)
    have "Suc j + n \<le> unat D" using Suc.prems(1) by simp
    from Suc.IH [OF this ok(3)]
    show ?thesis using ok(1,2) by (simp add: walkAt_loop(2))
  qed
qed

lemma LinearResampler_rel:
  assumes fit: "pitchesFit src"
    and S: "getWidth src \<noteq> 0" "getHeight src \<noteq> 0" "getDepth src \<noteq> 0"
    and dat: "getData src = Some sd"
    and agree: "\<forall>a \<in> sourceBytes src sd. mem1 a = mem2 a"
  shows "sameOutcome (sourceBytes src sd) mem1 mem2
     (LinearResampler_scale fc src dst mem1) (LinearResampler_scale fc src dst mem2)"
proof -
  note P = sameWrites_refl [OF agree]
  have cnt: "0 + (unat (getBack dst) - unat (getFront dst)) \<le> unat (getDepth dst)"
    using count_le [of "getBack dst" "getFront dst"]
    by (simp add: getDepth_def getBack_def getFront_def)
  show ?thesis
  proof (cases "getWidth dst = 0 \<or> getHeight dst = 0 \<or> getDepth dst = 0")
    case True
    then show ?thesis
      using sameOutcome_Inl [OF agree] by (simp add: LinearResampler_scale_def)
  next
    case False
    then have D: "getWidth dst \<noteq> 0" "getHeight dst \<noteq> 0" "getDepth dst \<noteq> 0" by simp_all
    show ?thesis
    proof (cases "regionEmpty dst")
      case True
      then show ?thesis
        using D sameOutcome_Inr [OF P] by (simp add: LinearResampler_scale_def Let_def)
    next
      case ne: False
      show ?thesis
      proof (cases "getData dst")
        case None
        then show ?thesis
          using D ne sameOutcome_Inl [OF agree]
          by (simp add: LinearResampler_scale_def Let_def dat)
      next
        case (Some dp)
        have "sameWalk (sourceBytes src sd) mem1 mem2
           (linearSlices fc src dst sd
              (fixedStep (getWidth src) (getWidth dst)) (fixedStep (getHeight src) (getHeight dst))
              (fixedStep (getDepth src) (getDepth dst)) (unat (getBack dst) - unat (getFront dst))
              (startCoord (fixedStep (getDepth src) (getDepth dst))) dp mem1)
           (linearSlices fc src dst sd
              (fixedStep (getWidth src) (getWidth dst)) (fixedStep (getHeight src) (getHeight dst))
              (fixedStep (getDepth src) (getDepth dst)) (unat (getBack dst) - unat (getFront dst))
              (startCoord (fixedStep (getDepth src) (getDepth dst))) dp mem2)"
          using linearSlices_rel [OF fit S D cnt P, of fc dp] by (simp add: walkAt_loop(1))
        then show ?thesis
        proof (cases rule: sameWalk_cases)
          case (err e k1 k2)
          then show ?thesis
            using D ne by (simp add: LinearResampler_scale_def Let_def dat Some sameOutcome_def)
        next
          case (ok d k1 k2)
          then show ?thesis
            using D ne by (simp add: LinearResampler_scale_def Let_def dat Some sameOutcome_def)
        qed
      qed
    qed
  qed
qed

lemma index_lt:
  fixes x y z w h d rp sp :: nat
  assumes "x < w" "w \<le> rp" "y < h" "rp * h \<le> sp" "z < d"
  shows "Suc (x + y * rp + z * sp) \<le> sp * d"
proof -
  have "Suc y * rp \<le> h * rp" using assms(3) by (intro mult_le_mono1) simp
  then have a: "x + y * rp < sp" using assms(1,2,4) by (simp add: mult.commute)
  have "Suc z * sp \<le> d * sp" using assms(5) by (intro mult_le_mono1) simp
  then show ?thesis using a by (simp add: mult.commute)
qed

lemma source_index:
  fixes X Y Z :: u32
  assumes fit: "pitchesFit src"
    and c: "X < getWidth src" "Y < getHeight src" "Z < getDepth src"
  shows "unat (getNumElemBytes (getFormat src))
           * Suc (unat X + unat Y * unat (getRowPitch src) + unat Z * unat (getSlicePitch src))
         < 4294967296"
proof -
  let ?es = "unat (getNumElemBytes (getFormat src))"
  let ?RP = "getRowPitch src" and ?SP = "getSlicePitch src"
  have "Suc (unat X + unat Y * unat ?RP + unat Z * unat ?SP) \<le> unat ?SP * unat (getDepth src)"
    using fit c
    by (intro index_lt [where w = "unat (getWidth src)" and h = "unat (getHeight src)"])
       (simp_all add: pitchesFit_def word_less_nat_alt)
  then have "?es * Suc (unat X + unat Y * unat ?RP + unat Z * unat ?SP)
      \<le> ?es * (unat ?SP * unat (getDepth src))" by (rule mult_le_mono2)
  moreover have "?es * (unat ?SP * unat (getDepth src)) < 4294967296"
    using fit by (simp add: pitchesFit_def byteSize_def)
  ultimately show ?thesis by (rule le_less_trans)
qed

lemma unat_channel_index:
  fixes X Y Z N :: u32
  assumes "(idx * unat N + c) < 4294967296"
    and "idx = unat X + unat Y * unat RP + unat Z * unat SP"
  shows "unat ((X + Y * RP + Z * SP) * N + of_nat c) = idx * unat N + c"
proof -
  have "(X + Y * RP + Z * SP) * N + of_nat c = (of_nat (idx * unat N + c) :: u32)"
    by (simp add: assms(2))
  then show ?thesis using assms(1) by (simp add: unat_of_nat del: of_nat_mult of_nat_add)
qed

lemma float_channel_address:
  fixes X Y Z :: u32
  assumes fit: "pitchesFit src"
    and f: "getFormat src \<in> {PF_FLOAT32_RGB, PF_FLOAT32_RGBA}"
    and c: "X < getWidth src" "Y < getHeight src" "Z < getDepth src"
    and ch: "ch < unat (getNumElemBytes (getFormat src) div 4)" and k: "k < 4"
  shows "sd + 4 * unat ((X + Y * getRowPitch src + Z * getSlicePitch src)
                          * (getNumElemBytes (getFormat src) div 4) + of_nat ch) + k
         \<in> sourceBytes src sd"
proof -
  let ?N = "getNumElemBytes (getFormat src) div 4"
  let ?es = "unat (getNumElemBytes (getFormat src))"
  define idx where "idx = unat X + unat Y * unat (getRowPitch src) + unat Z * unat (getSlicePitch src)"
  have es: "?es = 4 * unat ?N"
    using f by (auto simp add: getNumElemBytes_def getDescriptionFor_simps row_def)
  have b: "?es * Suc idx < 4294967296"
    unfolding idx_def by (rule source_index [OF fit c])
  have "idx * unat ?N + ch < Suc idx * unat ?N" using ch by simp
  also have "\<dots> \<le> ?es * Suc idx" by (simp add: es)
  finally have lt: "idx * unat ?N + ch < 4294967296" using b by simp
  have u: "unat ((X + Y * getRowPitch src + Z * getSlicePitch src) * ?N + of_nat ch)
      = idx * unat ?N + ch"
    by (rule unat_channel_index [OF lt idx_def])
  have "sd + 4 * (idx * unat ?N + ch) + k = pixelByte src sd (unat X) (unat Y) (unat Z) (4 * ch + k)"
    by (simp add: pixelByte_def es idx_def algebra_simps)
  moreover have "4 * ch + k < ?es" using ch k by (simp add: es)
  then have "pixelByte src sd (unat X) (unat Y) (unat Z) (4 * ch + k) \<in> sourceBytes src sd"
    unfolding sourceBytes_def using c by (auto simp add: word_less_nat_alt)
  ultimately show ?thesis by (simp only: u)
qed

lemma loadFloat_cong:
  assumes "\<And>k. k < 4 \<Longrightarrow> m1 (p + 4 * i + k) = m2 (p + 4 * i + k)"
  shows "loadFloat fc m1 p i = loadFloat fc m2 p i"
proof -
  have "loadLE m1 (p + 4 * i) 4 = loadLE m2 (p + 4 * i) 4"
  proof (rule loadLE_cong)
    fix a assume a: "p + 4 * i \<le> a" "a < p + 4 * i + 4"
    then have "a - (p + 4 * i) < 4" by simp
    from assms [OF this] show "m1 a = m2 a" using a by simp
  qed
  then show ?thesis by (simp add: loadFloat_def)
qed

lemma accumSample_cong:
  fixes X Y Z :: u32
  assumes fit: "pitchesFit src"
    and f: "getFormat src \<in> {PF_FLOAT32_RGB, PF_FLOAT32_RGBA}"
    and P: "sameWrites (sourceBytes src sd) mem1 mem2 m1 m2"
    and n: "n \<le> unat (getNumElemBytes (getFormat src) div 4)"
    and c: "X < getWidth src" "Y < getHeight src" "Z < getDepth src"
  shows "accumSample fc src sd (getNumElemBytes (getFormat src) div 4) n m1 accum X Y Z w
       = accumSample fc src sd (getNumElemBytes (getFormat src) div 4) n m2 accum X Y Z w"
proof -
  let ?N = "getNumElemBytes (getFormat src) div 4"
  have l: "loadFloat fc m1 sd (unat ((X + Y * getRowPitch src + Z * getSlicePitch src) * ?N
                + of_nat ch))
         = loadFloat fc m2 sd (unat ((X + Y * getRowPitch src + Z * getSlicePitch src) * ?N
                + of_nat ch))" if "ch < n" for ch
  proof (rule loadFloat_cong)
    fix k :: nat assume k: "k < 4"
    have "ch < unat ?N" using that n by simp
    from float_channel_address [OF fit f c this k]
    show "m1 (sd + 4 * unat ((X + Y * getRowPitch src + Z * getSlicePitch src) * ?N
                + of_nat ch) + k)
        = m2 (sd + 4 * unat ((X + Y * getRowPitch src + Z * getSlicePitch src) * ?N
                + of_nat ch) + k)"
      by (rule sameWrites_read [OF P])
  qed
  show ?thesis
    unfolding accumSample_def Let_def
    by (rule map_cong [OF refl]) (auto simp add: l)
qed

lemma float32Pixel_cong:
  assumes fit: "pitchesFit src"
    and f: "getFormat src \<in> {PF_FLOAT32_RGB, PF_FLOAT32_RGBA}"
    and P: "sameWrites (sourceBytes src sd) mem1 mem2 m1 m2"
    and x: "fst sx < getWidth src" "fst (snd sx) < getWidth src"
    and y: "fst sy < getHeight src" "fst (snd sy) < getHeight src"
    and z: "fst sz < getDepth src" "fst (snd sz) < getDepth src"
  shows "float32Pixel fc src sd (getNumElemBytes (getFormat src) div 4) ndc sx sy sz m1
       = float32Pixel fc src sd (getNumElemBytes (getFormat src) div 4) ndc sx sy sz m2"
proof -
  let ?N = "getNumElemBytes (getFormat src) div 4"
  let ?n = "if ?N = 3 \<or> ndc = 3 then 3 else 4 :: nat"
  have n: "?n \<le> unat ?N"
    using f by (auto simp add: getNumElemBytes_def getDescriptionFor_simps row_def)
  note a = accumSample_cong [OF fit f P n]
  obtain x1 x2 fx where sx: "sx = (x1, x2, fx)" by (cases sx) auto
  obtain y1 y2 fy where sy: "sy = (y1, y2, fy)" by (cases sy) auto
  obtain z1 z2 fz where sz: "sz = (z1, z2, fz)" by (cases sz) auto
  have c: "x1 < getWidth src" "x2 < getWidth src" "y1 < getHeight src" "y2 < getHeight src"
    "z1 < getDepth src" "z2 < getDepth src"
    using x y z by (simp_all add: sx sy sz)
  show ?thesis
    unfolding float32Pixel_def sx sy sz prod.case Let_def
    by (simp only: a [OF c(1) c(3) c(5)] a [OF c(2) c(3) c(5)] a [OF c(1) c(4) c(5)]
        a [OF c(2) c(4) c(5)] a [OF c(1) c(3) c(6)] a [OF c(2) c(3) c(6)] a [OF c(1) c(4) c(6)]
        a [OF c(2) c(4) c(6)])
qed

lemma storeFloats_rel:
  assumes "sameWrites R mem1 mem2 m1 m2"
  shows "sameWrites R mem1 mem2 (storeFloats fc dp n accum m1) (storeFloats fc dp n accum m2)"
proof -
  have "sameWrites R mem1 mem2 (foldl (\<lambda>m (c, v). storeFloat fc dp c v m) m1 xs)
      (foldl (\<lambda>m (c, v). storeFloat fc dp c v m) m2 xs)"
    if "sameWrites R mem1 mem2 m1 m2" for xs :: "(nat \<times> real) list" and m1 m2
    using that
    by (induction xs arbitrary: m1 m2)
       (auto simp add: storeFloat_def sameWrites_storeLE simp del: storeLE.simps)
  from this [OF assms] show ?thesis by (simp add: storeFloats_def)
qed

lemma sameStep_cases:
  assumes "sameStep R mem1 mem2 r1 r2"
  obtains d k1 k2 where "r1 = (d, k1)" "r2 = (d, k2)" "sameWrites R mem1 mem2 k1 k2"
  using assms by (cases r1; cases r2) (simp add: sameStep_def)

lemma float32Row_rel:
  assumes fit: "pitchesFit src" and f: "getFormat src \<in> {PF_FLOAT32_RGB, PF_FLOAT32_RGBA}"
    and S: "getWidth src \<noteq> 0" and D: "D \<noteq> 0"
    and y: "fst sy < getHeight src" "fst (snd sy) < getHeight src"
    and z: "fst sz < getDepth src" "fst (snd sz) < getDepth src"
  shows "j + n \<le> unat D \<Longrightarrow> sameWrites (sourceBytes src sd) mem1 mem2 m1 m2 \<Longrightarrow>
     sameStep (sourceBytes src sd) mem1 mem2
       (float32Row fc src sd (getNumElemBytes (getFormat src) div 4) ndc sy sz
          (fixedStep (getWidth src) D) n (walkAt (getWidth src) D j) dp m1)
       (float32Row fc src sd (getNumElemBytes (getFormat src) div 4) ndc sy sz
          (fixedStep (getWidth src) D) n (walkAt (getWidth src) D j) dp m2)"
proof (induction n arbitrary: j dp m1 m2)
  case 0
  then show ?case by (simp add: sameStep_def)
next
  case (Suc n)
  let ?W = "getWidth src"
  let ?sx = "linearSample (walkAt ?W D j) ?W"
  let ?N = "getNumElemBytes (getFormat src) div 4"
  have j: "j < unat D" using Suc.prems(1) by simp
  have px: "float32Pixel fc src sd ?N ndc ?sx sy sz m1 = float32Pixel fc src sd ?N ndc ?sx sy sz m2"
    by (rule float32Pixel_cong [OF fit f Suc.prems(2) axis_coords(2) [OF S D j]
          axis_coords(3) [OF S D j] y z])
  have st: "sameWrites (sourceBytes src sd) mem1 mem2
      (storeFloats fc dp (unat ndc) (float32Pixel fc src sd ?N ndc ?sx sy sz m2) m1)
      (storeFloats fc dp (unat ndc) (float32Pixel fc src sd ?N ndc ?sx sy sz m2) m2)"
    by (rule storeFloats_rel [OF Suc.prems(2)])
  have "Suc j + n \<le> unat D" using Suc.prems(1) by simp
  from Suc.IH [OF this st]
  show ?case by (simp add: Let_def px walkAt_loop(2))
qed

lemma float32Rows_rel:
  assumes fit: "pitchesFit src" and f: "getFormat src \<in> {PF_FLOAT32_RGB, PF_FLOAT32_RGBA}"
    and S: "getWidth src \<noteq> 0" "getHeight src \<noteq> 0"
    and D: "getWidth dst \<noteq> 0" "D \<noteq> 0"
    and z: "fst sz < getDepth src" "fst (snd sz) < getDepth src"
  shows "j + n \<le> unat D \<Longrightarrow> sameWrites (sourceBytes src sd) mem1 mem2 m1 m2 \<Longrightarrow>
     sameStep (sourceBytes src sd) mem1 mem2
       (float32Rows fc src dst sd (getNumElemBytes (getFormat src) div 4) ndc sz
          (fixedStep (getWidth src) (getWidth dst))
          (fixedStep (getHeight src) D) n (walkAt (getHeight src) D j) dp m1)
       (float32Rows fc src dst sd (getNumElemBytes (getFormat src) div 4) ndc sz
          (fixedStep (getWidth src) (getWidth dst))
          (fixedStep (getHeight src) D) n (walkAt (getHeight src) D j) dp m2)"
proof (induction n arbitrary: j dp m1 m2)
  case 0
  then show ?case by (simp add: sameStep_def)
next
  case (Suc n)
  let ?H = "getHeight src"
  let ?sy = "linearSample (walkAt ?H D j) ?H"
  let ?stepX = "fixedStep (getWidth src) (getWidth dst)"
  let ?N = "getNumElemBytes (getFormat src) div 4"
  have j: "j < unat D" using Suc.prems(1) by simp
  have cnt: "0 + (unat (getRight dst) - unat (getLeft dst)) \<le> unat (getWidth dst)"
    using count_le [of "getRight dst" "getLeft dst"]
    by (simp add: getWidth_def getRight_def getLeft_def)
  have row: "sameStep (sourceBytes src sd) mem1 mem2
       (float32Row fc src sd ?N ndc ?sy sz ?stepX (unat (getRight dst) - unat (getLeft dst))
          (startCoord ?stepX) dp m1)
       (float32Row fc src sd ?N ndc ?sy sz ?stepX (unat (getRight dst) - unat (getLeft dst))
          (startCoord ?stepX) dp m2)"
    using float32Row_rel [OF fit f S(1) D(1) axis_coords(2) [OF S(2) D(2) j]
        axis_coords(3) [OF S(2) D(2) j] z cnt Suc.prems(2), of fc ndc dp]
    by (simp add: walkAt_loop(1))
  from row show ?case
  proof (cases rule: sameStep_cases)
    case (1 d k1 k2)
    have "Suc j + n \<le> unat D" using Suc.prems(1) by simp
    from Suc.IH [OF this 1(3)]
    show ?thesis using 1(1,2) by (simp add: walkAt_loop(2))
  qed
qed

lemma float32Slices_rel:
  assumes fit: "pitchesFit src" and f: "getFormat src \<in> {PF_FLOAT32_RGB, PF_FLOAT32_RGBA}"
    and S: "getWidth src \<noteq> 0" "getHeight src \<noteq> 0" "getDepth src \<noteq> 0"
    and D: "getWidth dst \<noteq> 0" "getHeight dst \<noteq> 0" "D \<noteq> 0"
  shows "j + n \<le> unat D \<Longrightarrow> sameWrites (sourceBytes src sd) mem1 mem2 m1 m2 \<Longrightarrow>
     sameStep (sourceBytes src sd) mem1 mem2
       (float32Slices fc src dst sd (getNumElemBytes (getFormat src) div 4) ndc
          (fixedStep (getWidth src) (getWidth dst)) (fixedStep (getHeight src) (getHeight dst))
          (fixedStep (getDepth src) D) n (walkAt (getDepth src) D j) dp m1)
       (float32Slices fc src dst sd (getNumElemBytes (getFormat src) div 4) ndc
          (fixedStep (getWidth src) (getWidth dst)) (fixedStep (getHeight src) (getHeight dst))
          (fixedStep (getDepth src) D) n (walkAt (getDepth src) D j) dp m2)"
proof (induction n arbitrary: j dp m1 m2)
  case 0
  then show ?case by (simp add: sameStep_def)
next
  case (Suc n)
  let ?Z = "getDepth src"
  let ?sz = "linearSample (walkAt ?Z D j) ?Z"
  let ?stepX = "fixedStep (getWidth src) (getWidth dst)"
  let ?stepY = "fixedStep (getHeight src) (getHeight dst)"
  let ?N = "getNumElemBytes (getFormat src) div 4"
  have j: "j < unat D" using Suc.prems(1) by simp
  have cnt: "0 + (unat (getBottom dst) - unat (getTop dst)) \<le> unat (getHeight dst)"
    using count_le [of "getBottom dst" "getTop dst"]
    by (simp add: getHeight_def getBottom_def getTop_def)
  have rows: "sameStep (sourceBytes src sd) mem1 mem2
       (float32Rows fc src dst sd ?N ndc ?sz ?stepX ?stepY
          (unat (getBottom dst) - unat (getTop dst)) (startCoord ?stepY) dp m1)
       (float32Rows fc src dst sd ?N ndc ?sz ?stepX ?stepY
          (unat (getBottom dst) - unat (getTop dst)) (startCoord ?stepY) dp m2)"
    using float32Rows_rel [OF fit f S(1,2) D(1,2) axis_coords(2) [OF S(3) D(3) j]
        axis_coords(3) [OF S(3) D(3) j] cnt Suc.prems(2), of fc ndc dp]
    by (simp add: walkAt_loop(1))
  from rows show ?case
  proof (cases rule: sameStep_cases)
    case (1 d k1 k2)
    have "Suc j + n \<le> unat D" using Suc.prems(1) by simp
    from Suc.IH [OF this 1(3)]
    show ?thesis using 1(1,2) by (simp add: walkAt_loop(2))
  qed
qed

lemma LinearResampler_Float32_rel:
  assumes fit: "pitchesFit src" and f: "getFormat src \<in> {PF_FLOAT32_RGB, PF_FLOAT32_RGBA}"
    and S: "getWidth src \<noteq> 0" "getHeight src \<noteq> 0" "getDepth src \<noteq> 0"
    and dat: "getData src = Some sd"
    and agree: "\<forall>a \<in> sourceBytes src sd. mem1 a = mem2 a"
  shows "sameOutcome (sourceBytes src sd) mem1 mem2
     (LinearResampler_Float32_scale fc src dst mem1)
     (LinearResampler_Float32_scale fc src dst mem2)"
proof -
  note P = sameWrites_refl [OF agree]
  have cnt: "0 + (unat (getBack dst) - unat (getFront dst)) \<le> unat (getDepth dst)"
    using count_le [of "getBack dst" "getFront dst"]
    by (simp add: getDepth_def getBack_def getFront_def)
  show ?thesis
  proof (cases "getWidth dst = 0 \<or> getHeight dst = 0 \<or> getDepth dst = 0")
    case True
    then show ?thesis
      using sameOutcome_Inl [OF agree] by (simp add: LinearResampler_Float32_scale_def)
  next
    case False
    then have D: "getWidth dst \<noteq> 0" "getHeight dst \<noteq> 0" "getDepth dst \<noteq> 0" by simp_all
    show ?thesis
    proof (cases "regionEmpty dst")
      case True
      then show ?thesis
        using D sameOutcome_Inr [OF P] by (simp add: LinearResampler_Float32_scale_def Let_def)
    next
      case ne: False
      show ?thesis
      proof (cases "getData dst")
        case None
        then show ?thesis
          using D ne sameOutcome_Inl [OF agree]
          by (simp add: LinearResampler_Float32_scale_def Let_def dat)
      next
        case (Some dp)
        have "sameStep (sourceBytes src sd) mem1 mem2
           (float32Slices fc src dst sd (getNumElemBytes (getFormat src) div 4)
              (getNumElemBytes (getFormat dst) div 4)
              (fixedStep (getWidth src) (getWidth dst)) (fixedStep (getHeight src) (getHeight dst))
              (fixedStep (getDepth src) (getDepth dst)) (unat (getBack dst) - unat (getFront dst))
              (startCoord (fixedStep (getDepth src) (getDepth dst))) dp mem1)
           (float32Slices fc src dst sd (getNumElemBytes (getFormat src) div 4)
              (getNumElemBytes (getFormat dst) div 4)
              (fixedStep (getWidth src) (getWidth dst)) (fixedStep (getHeight src) (getHeight dst))
              (fixedStep (getDepth src) (getDepth dst)) (unat (getBack dst) - unat (getFront dst))
              (startCoord (fixedStep (getDepth src) (getDepth dst))) dp mem2)"
          using float32Slices_rel [OF fit f S D cnt P, of fc _ dp] by (simp add: walkAt_loop(1))
        then show ?thesis
          using D ne
          by (simp add: LinearResampler_Float32_scale_def Let_def dat Some sameStep_def
              sameOutcome_def)
      qed
    qed
  qed
qed

lemma byte_address:
  fixes X Y k :: u32
  assumes fit: "pitchesFit src"
    and c: "X < getWidth src" "Y < getHeight src" "getDepth src \<noteq> 0"
    and k: "k < getNumElemBytes (getFormat src)"
  shows "sd + unat ((X + Y * getRowPitch src) * getNumElemBytes (getFormat src) + k)
         \<in> sourceBytes src sd"
proof -
  let ?N = "getNumElemBytes (getFormat src)"
  define idx where "idx = unat X + unat Y * unat (getRowPitch src) + unat (0 :: u32) * unat (getSlicePitch src)"
  have z: "(0 :: u32) < getDepth src" using c(3) by (simp add: word_greater_zero_iff)
  have b: "unat ?N * Suc idx < 4294967296"
    unfolding idx_def by (rule source_index [OF fit c(1,2) z])
  have kk: "unat k < unat ?N" using k by (simp add: word_less_nat_alt)
  then have "idx * unat ?N + unat k < unat ?N * Suc idx" by (simp add: mult.commute)
  from less_trans [OF this b] have lt: "idx * unat ?N + unat k < 4294967296" .
  have "unat ((X + Y * getRowPitch src + 0 * getSlicePitch src) * ?N + of_nat (unat k))
      = idx * unat ?N + unat k"
    by (rule unat_channel_index [OF lt idx_def])
  then have u: "unat ((X + Y * getRowPitch src) * ?N + k) = idx * unat ?N + unat k" by simp
  have "sd + (idx * unat ?N + unat k) = pixelByte src sd (unat X) (unat Y) 0 (unat k)"
    by (simp add: pixelByte_def idx_def algebra_simps)
  moreover have "pixelByte src sd (unat X) (unat Y) 0 (unat k) \<in> sourceBytes src sd"
    unfolding sourceBytes_def using c(1,2) z kk by (auto simp add: word_less_nat_alt)
  ultimately show ?thesis by (simp only: u)
qed

lemma byteChannel_cong:
  fixes x1 x2 y1 y2 k :: u32
  assumes fit: "pitchesFit src" and P: "sameWrites (sourceBytes src sd) mem1 mem2 m1 m2"
    and c: "x1 < getWidth src" "x2 < getWidth src" "y1 < getHeight src" "y2 < getHeight src"
      "getDepth src \<noteq> 0"
    and k: "k < getNumElemBytes (getFormat src)"
  shows "byteChannel (getNumElemBytes (getFormat src)) sd m1 x1 x2 (y1 * getRowPitch src)
           (y2 * getRowPitch src) wx wy k
       = byteChannel (getNumElemBytes (getFormat src)) sd m2 x1 x2 (y1 * getRowPitch src)
           (y2 * getRowPitch src) wx wy k"
proof -
  have r: "m1 (sd + unat ((X + Y * getRowPitch src) * getNumElemBytes (getFormat src) + k))
         = m2 (sd + unat ((X + Y * getRowPitch src) * getNumElemBytes (getFormat src) + k))"
    if "X < getWidth src" "Y < getHeight src" for X Y
    by (rule sameWrites_read [OF P byte_address [OF fit that c(5) k]])
  show ?thesis
    unfolding byteChannel_def Let_def
    by (simp only: r [OF c(1) c(3)] r [OF c(2) c(3)] r [OF c(1) c(4)] r [OF c(2) c(4)])
qed

lemma byteChannels_rel:
  fixes y1 y2 :: u32
  assumes fit: "pitchesFit src"
    and c: "fst sx < getWidth src" "fst (snd sx) < getWidth src"
      "y1 < getHeight src" "y2 < getHeight src" "getDepth src \<noteq> 0"
  shows "unat k + n \<le> unat (getNumElemBytes (getFormat src)) \<Longrightarrow>
     sameWrites (sourceBytes src sd) mem1 mem2 m1 m2 \<Longrightarrow>
     sameStep (sourceBytes src sd) mem1 mem2
       (byteChannels (getNumElemBytes (getFormat src)) sd sx (y1 * getRowPitch src)
          (y2 * getRowPitch src) wy n k dp m1)
       (byteChannels (getNumElemBytes (getFormat src)) sd sx (y1 * getRowPitch src)
          (y2 * getRowPitch src) wy n k dp m2)"
proof (induction n arbitrary: k dp m1 m2)
  case 0
  then show ?case by (simp add: sameStep_def)
next
  case (Suc n)
  let ?N = "getNumElemBytes (getFormat src)"
  obtain x1 x2 wx where sx: "sx = (x1, x2, wx)" by (cases sx) auto
  have x: "x1 < getWidth src" "x2 < getWidth src" using c(1,2) by (simp_all add: sx)
  have k: "k < ?N" using Suc.prems(1) by (simp add: word_less_nat_alt)
  have bc: "byteChannel ?N sd m1 x1 x2 (y1 * getRowPitch src) (y2 * getRowPitch src) wx wy k
      = byteChannel ?N sd m2 x1 x2 (y1 * getRowPitch src) (y2 * getRowPitch src) wx wy k"
    by (rule byteChannel_cong [OF fit Suc.prems(2) x c(3,4,5) k])
  have "unat k + 1 < 4294967296"
    using Suc.prems(1) unat_u32_bound [of ?N] by simp
  then have k1: "unat (k + 1) = unat k + 1"
    by (simp add: unat_word_ariths)
  then have nx: "unat (k + 1) + n \<le> unat ?N" using Suc.prems(1) by simp
  have up: "sameWrites (sourceBytes src sd) mem1 mem2
      (m1(dp := byteChannel ?N sd m2 x1 x2 (y1 * getRowPitch src) (y2 * getRowPitch src) wx wy k))
      (m2(dp := byteChannel ?N sd m2 x1 x2 (y1 * getRowPitch src) (y2 * getRowPitch src) wx wy k))"
    by (rule sameWrites_upd [OF Suc.prems(2)])
  have e1: "byteChannels ?N sd sx (y1 * getRowPitch src) (y2 * getRowPitch src) wy (Suc n) k dp m1
      = byteChannels ?N sd sx (y1 * getRowPitch src) (y2 * getRowPitch src) wy n (k + 1) (Suc dp)
      (m1(dp := byteChannel ?N sd m2 x1 x2 (y1 * getRowPitch src) (y2 * getRowPitch src) wx wy k))"
    by (simp add: sx bc)
  have e2: "byteChannels ?N sd sx (y1 * getRowPitch src) (y2 * getRowPitch src) wy (Suc n) k dp m2
      = byteChannels ?N sd sx (y1 * getRowPitch src) (y2 * getRowPitch src) wy n (k + 1) (Suc dp)
      (m2(dp := byteChannel ?N sd m2 x1 x2 (y1 * getRowPitch src) (y2 * getRowPitch src) wx wy k))"
    by (simp add: sx)
  show ?case unfolding e1 e2 by (rule Suc.IH [OF nx up])
qed

lemma byteRow_rel:
  fixes y1 y2 :: u32
  assumes fit: "pitchesFit src" and S: "getWidth src \<noteq> 0" "getDepth src \<noteq> 0" and D: "D \<noteq> 0"
    and y: "y1 < getHeight src" "y2 < getHeight src"
  shows "j + n \<le> unat D \<Longrightarrow> sameWrites (sourceBytes src sd) mem1 mem2 m1 m2 \<Longrightarrow>
     sameStep (sourceBytes src sd) mem1 mem2
       (byteRow (getNumElemBytes (getFormat src)) src sd (y1 * getRowPitch src)
          (y2 * getRowPitch src) wy (fixedStep (getWidth src) D) n
          (walkAt (getWidth src) D j) dp m1)
       (byteRow (getNumElemBytes (getFormat src)) src sd (y1 * getRowPitch src)
          (y2 * getRowPitch src) wy (fixedStep (getWidth src) D) n
          (walkAt (getWidth src) D j) dp m2)"
proof (induction n arbitrary: j dp m1 m2)
  case 0
  then show ?case by (simp add: sameStep_def)
next
  case (Suc n)
  let ?W = "getWidth src"
  let ?N = "getNumElemBytes (getFormat src)"
  let ?sx = "byteSample (walkAt ?W D j) ?W"
  have w: "getRight src - getLeft src = ?W"
    by (simp add: getWidth_def getRight_def getLeft_def)
  have j: "j < unat D" using Suc.prems(1) by simp
  have px: "sameStep (sourceBytes src sd) mem1 mem2
       (byteChannels ?N sd ?sx (y1 * getRowPitch src) (y2 * getRowPitch src) wy (unat ?N) 0 dp m1)
       (byteChannels ?N sd ?sx (y1 * getRowPitch src) (y2 * getRowPitch src) wy (unat ?N) 0 dp m2)"
    by (rule byteChannels_rel [OF fit axis_coords(4) [OF S(1) D j] axis_coords(5) [OF S(1) D j]
          y S(2) _ Suc.prems(2)]) simp
  from px show ?case
  proof (cases rule: sameStep_cases)
    case (1 d k1 k2)
    have "Suc j + n \<le> unat D" using Suc.prems(1) by simp
    from Suc.IH [OF this 1(3)]
    show ?thesis using 1(1,2) by (simp add: w walkAt_loop(2))
  qed
qed

lemma byteRows_rel:
  assumes fit: "pitchesFit src"
    and S: "getWidth src \<noteq> 0" "getHeight src \<noteq> 0" "getDepth src \<noteq> 0"
    and D: "getWidth dst \<noteq> 0" "D \<noteq> 0"
  shows "j + n \<le> unat D \<Longrightarrow> sameWrites (sourceBytes src sd) mem1 mem2 m1 m2 \<Longrightarrow>
     sameStep (sourceBytes src sd) mem1 mem2
       (byteRows (getNumElemBytes (getFormat src)) src dst sd
          (fixedStep (getWidth src) (getWidth dst))
          (fixedStep (getHeight src) D) n (walkAt (getHeight src) D j) dp m1)
       (byteRows (getNumElemBytes (getFormat src)) src dst sd
          (fixedStep (getWidth src) (getWidth dst))
          (fixedStep (getHeight src) D) n (walkAt (getHeight src) D j) dp m2)"
proof (induction n arbitrary: j dp m1 m2)
  case 0
  then show ?case by (simp add: sameStep_def)
next
  case (Suc n)
  let ?H = "getHeight src"
  let ?N = "getNumElemBytes (getFormat src)"
  let ?stepX = "fixedStep (getWidth src) (getWidth dst)"
  have h: "getBottom src - getTop src = ?H"
    by (simp add: getHeight_def getBottom_def getTop_def)
  obtain y1 y2 wy where sy: "byteSample (walkAt ?H D j) ?H = (y1, y2, wy)"
    by (cases "byteSample (walkAt ?H D j) ?H") auto
  have j: "j < unat D" using Suc.prems(1) by simp
  have y: "y1 < ?H" "y2 < ?H"
    using axis_coords(4) [OF S(2) D(2) j] axis_coords(5) [OF S(2) D(2) j] by (simp_all add: sy)
  have cnt: "0 + (unat (getRight dst) - unat (getLeft dst)) \<le> unat (getWidth dst)"
    using count_le [of "getRight dst" "getLeft dst"]
    by (simp add: getWidth_def getRight_def getLeft_def)
  have row: "sameStep (sourceBytes src sd) mem1 mem2
       (byteRow ?N src sd (y1 * getRowPitch src) (y2 * getRowPitch src) wy ?stepX
          (unat (getRight dst) - unat (getLeft dst)) (startCoord ?stepX) dp m1)
       (byteRow ?N src sd (y1 * getRowPitch src) (y2 * getRowPitch src) wy ?stepX
          (unat (getRight dst) - unat (getLeft dst)) (startCoord ?stepX) dp m2)"
    using byteRow_rel [OF fit S(1,3) D(1) y cnt Suc.prems(2), of wy dp]
    by (simp add: walkAt_loop(1))
  from row show ?case
  proof (cases rule: sameStep_cases)
    case (1 d k1 k2)
    have "Suc j + n \<le> unat D" using Suc.prems(1) by simp
    from Suc.IH [OF this 1(3)]
    show ?thesis using 1(1,2) by (simp add: h sy walkAt_loop(2))
  qed
qed

lemma LinearResampler_Byte_rel:
  assumes fit: "pitchesFit src"
    and S: "getWidth src \<noteq> 0" "getHeight src \<noteq> 0" "getDepth src \<noteq> 0"
    and dat: "getData src = Some sd"
    and agree: "\<forall>a \<in> sourceBytes src sd. mem1 a = mem2 a"
  shows "sameOutcome (sourceBytes src sd) mem1 mem2
     (LinearResampler_Byte_scale fc (getNumElemBytes (getFormat src)) src dst mem1)
     (LinearResampler_Byte_scale fc (getNumElemBytes (getFormat src)) src dst mem2)"
proof -
  note P = sameWrites_refl [OF agree]
  have cnt: "0 + (unat (getBottom dst) - unat (getTop dst)) \<le> unat (getHeight dst)"
    using count_le [of "getBottom dst" "getTop dst"]
    by (simp add: getHeight_def getBottom_def getTop_def)
  show ?thesis
  proof (cases "getDepth src > 1 \<or> getDepth dst > 1")
    case True
    then show ?thesis
      using LinearResampler_rel [OF fit S dat agree, of fc dst]
      by (simp add: LinearResampler_Byte_scale_def)
  next
    case deep: False
    show ?thesis
    proof (cases "getWidth dst = 0 \<or> getHeight dst = 0")
      case True
      then show ?thesis
        using deep sameOutcome_Inl [OF agree] by (simp add: LinearResampler_Byte_scale_def)
    next
      case False
      then have D: "getWidth dst \<noteq> 0" "getHeight dst \<noteq> 0" by simp_all
      show ?thesis
      proof (cases "unat (getRight dst) - unat (getLeft dst) = 0
               \<or> unat (getBottom dst) - unat (getTop dst) = 0")
        case True
        then show ?thesis
          using deep D sameOutcome_Inr [OF P]
          by (simp add: LinearResampler_Byte_scale_def Let_def)
      next
        case ne: False
        show ?thesis
        proof (cases "getData dst")
          case None
          then show ?thesis
            using deep D ne sameOutcome_Inl [OF agree]
            by (simp add: LinearResampler_Byte_scale_def Let_def dat)
        next
          case (Some dp)
          have "sameStep (sourceBytes src sd) mem1 mem2
             (byteRows (getNumElemBytes (getFormat src)) src dst sd
                (fixedStep (getWidth src) (getWidth dst))
                (fixedStep (getHeight src) (getHeight dst))
                (unat (getBottom dst) - unat (getTop dst))
                (startCoord (fixedStep (getHeight src) (getHeight dst))) dp mem1)
             (byteRows (getNumElemBytes (getFormat src)) src dst sd
                (fixedStep (getWidth src) (getWidth dst))
                (fixedStep (getHeight src) (getHeight dst))
                (unat (getBottom dst) - unat (getTop dst))
                (startCoord (fixedStep (getHeight src) (getHeight dst))) dp mem2)"
            using byteRows_rel [OF fit S D cnt P, of dp] by (simp add: walkAt_loop(1))
          then show ?thesis
            using deep D ne
            by (simp add: LinearResampler_Byte_scale_def Let_def dat Some sameStep_def
                sameOutcome_def)
        qed
      qed
    qed
  qed
qed

lemma single_pixel_bytes:
  assumes "getWidth src = 1" "getHeight src = 1" "getDepth src = 1"
  shows "sourceBytes src sd = {sd ..< sd + unat (getNumElemBytes (getFormat src))}"
proof (rule set_eqI)
  fix a
  have "a \<in> sourceBytes src sd \<longleftrightarrow> (\<exists>k < unat (getNumElemBytes (getFormat src)). a = sd + k)"
    by (auto simp add: sourceBytes_def pixelByte_def assms)
  also have "\<dots> \<longleftrightarrow> a \<in> {sd ..< sd + unat (getNumElemBytes (getFormat src))}"
  proof
    assume "\<exists>k < unat (getNumElemBytes (getFormat src)). a = sd + k"
    then show "a \<in> {sd ..< sd + unat (getNumElemBytes (getFormat src))}" by auto
  next
    assume a: "a \<in> {sd ..< sd + unat (getNumElemBytes (getFormat src))}"
    then have "a - sd < unat (getNumElemBytes (getFormat src))" "a = sd + (a - sd)" by auto
    then show "\<exists>k < unat (getNumElemBytes (getFormat src)). a = sd + k" by blast
  qed
  finally show "a \<in> sourceBytes src sd
      \<longleftrightarrow> a \<in> {sd ..< sd + unat (getNumElemBytes (getFormat src))}" .
qed

lemma nearest_steps:
  "fixedStep 0 1 = 0" "fixedStep 1 1 = 281474976710656" "fixedStep 1 2 = 140737488355328"
  "startCoord 0 = 18446744073709551615" "startCoord 281474976710656 = 140737488355327"
  "startCoord 140737488355328 = 70368744177663"
  "nearestCoord 18446744073709551615 = 65535" "nearestCoord 140737488355327 = 0"
  "nearestCoord 70368744177663 = 0" "nearestCoord 211106232532991 = 0"
  by (simp_all add: fixedStep_def startCoord_def nearestCoord_def drop_bit_eq_div)

text \<open>
  C9, the claim as written fails for a source without pixels: with a source extent of 0
  the step is 0 and the walk starts at \<open>(0 >> 1) - 1\<close>, which wraps to
  \<open>2 ^ 64 - 1\<close>, so the nearest kernel takes the source coordinate \<open>0xFFFF\<close>.
  Scaling a \<open>PF_R8\<close> source of width 0 at address 0 into one pixel at address 100
  copies the byte at offset 65535 from the source address, while no byte belongs to
  the source.
\<close>

theorem C9_empty_source_counterexample:
  "isAccessible PF_R8 \<and> getWidth (bufferAt 0 0 1 1 PF_R8) = 0 \<and>
   sourceBytes (bufferAt 0 0 1 1 PF_R8) 0 = {} \<and>
   scale sampleCodec 64 (bufferAt 0 0 1 1 PF_R8) (bufferAt 100 1 1 1 PF_R8) FILTER_NEAREST
     (zeroMemory(65535 := 7)) = Inr (zeroMemory(65535 := 7, 100 := 7)) \<and>
   scale sampleCodec 64 (bufferAt 0 0 1 1 PF_R8) (bufferAt 100 1 1 1 PF_R8) FILTER_NEAREST
     zeroMemory = Inr (zeroMemory(100 := 0))"
proof -
  have g: "getWidth (bufferAt p w 1 1 f) = w" "getHeight (bufferAt p w 1 1 f) = 1"
    "getDepth (bufferAt p w 1 1 f) = 1" "getFormat (bufferAt p w 1 1 f) = f"
    "getData (bufferAt p w 1 1 f) = Some p"
    "getLeft (bufferAt p w 1 1 f) = 0" "getRight (bufferAt p w 1 1 f) = w"
    "getTop (bufferAt p w 1 1 f) = 0" "getBottom (bufferAt p w 1 1 f) = 1"
    "getFront (bufferAt p w 1 1 f) = 0" "getBack (bufferAt p w 1 1 f) = 1"
    "getRowPitch (bufferAt p w 1 1 f) = w" "getSlicePitch (bufferAt p w 1 1 f) = w"
    "getRowSkip (bufferAt p w 1 1 f) = 0" "getSliceSkip (bufferAt p w 1 1 f) = 0" for p w f
    by (simp_all add: pd_defs)
  have es: "getNumElemBytes PF_R8 = 1"
    by (simp add: getNumElemBytes_def getDescriptionFor_simps row_def)
  have cp: "memcpy 100 65535 (Suc 0) mem = mem(100 := mem 65535)" for mem
    by (rule ext) (simp add: memcpy_def)
  have k: "NearestResampler_scale 1 (bufferAt 0 0 1 1 PF_R8) (bufferAt 100 1 1 1 PF_R8) mem
      = Inr (mem(100 := mem 65535))" for mem
    by (simp add: NearestResampler_scale_def g regionEmpty_def nearest_steps Let_def cp)
  have s: "scale sampleCodec 64 (bufferAt 0 0 1 1 PF_R8) (bufferAt 100 1 1 1 PF_R8)
      FILTER_NEAREST mem = Inr (mem(100 := mem 65535))" for mem
    by (simp add: scale_def accessible_formats g es scaleTemp_def scaleBlit_def Let_def
        k [unfolded One_nat_def])
  have e: "sourceBytes (bufferAt 0 0 1 1 PF_R8) 0 = {}"
    by (simp add: sourceBytes_def g)
  show ?thesis
    using s [of "zeroMemory(65535 := 7)"] s [of zeroMemory] e
    by (simp add: accessible_formats g zeroMemory_def)
qed

text \<open>
  C9 (amended): for a source with a pixel on every axis whose pitches fit (a row fits
  the row pitch, the rows of a slice fit the slice pitch, and the byte offsets of the
  buffer fit \<open>UINT32\<close>), every one of the four kernels (nearest, generic linear, float32
  linear on a float32 RGB or RGBA source, byte linear) reads the source only at the
  bytes of pixels inside the source extents: two runs from memories that agree on
  those bytes, whatever they hold elsewhere, raise the same error or write the same
  bytes to the same addresses, for every destination. The second sample coordinate of
  the linear kernels is the first plus one, clamped to the source extent minus one. For a
  1x1x1 source the bytes read are those of the single pixel at offset 0.
\<close>

theorem C9_reads_within_source:
  assumes fit: "pitchesFit src"
    and S: "getWidth src \<noteq> 0" "getHeight src \<noteq> 0" "getDepth src \<noteq> 0"
    and dat: "getData src = Some sd"
    and agree: "\<forall>a \<in> sourceBytes src sd. mem1 a = mem2 a"
  shows "sameOutcome (sourceBytes src sd) mem1 mem2
           (NearestResampler_scale (unat (getNumElemBytes (getFormat src))) src dst mem1)
           (NearestResampler_scale (unat (getNumElemBytes (getFormat src))) src dst mem2)
       \<and> sameOutcome (sourceBytes src sd) mem1 mem2
           (LinearResampler_scale fc src dst mem1) (LinearResampler_scale fc src dst mem2)
       \<and> (getFormat src \<in> {PF_FLOAT32_RGB, PF_FLOAT32_RGBA} \<longrightarrow>
            sameOutcome (sourceBytes src sd) mem1 mem2
              (LinearResampler_Float32_scale fc src dst mem1)
              (LinearResampler_Float32_scale fc src dst mem2))
       \<and> sameOutcome (sourceBytes src sd) mem1 mem2
           (LinearResampler_Byte_scale fc (getNumElemBytes (getFormat src)) src dst mem1)
           (LinearResampler_Byte_scale fc (getNumElemBytes (getFormat src)) src dst mem2)
       \<and> fst (snd (linearSample cur ext)) = min (fst (linearSample cur ext) + 1) (ext - 1)
       \<and> fst (snd (byteSample cur ext)) = min (fst (byteSample cur ext) + 1) (ext - 1)
       \<and> (getWidth src = 1 \<and> getHeight src = 1 \<and> getDepth src = 1 \<longrightarrow>
            sourceBytes src sd = {sd ..< sd + unat (getNumElemBytes (getFormat src))})"
proof -
  have l: "fst (snd (linearSample cur ext)) = min (fst (linearSample cur ext) + 1) (ext - 1)"
    by (simp add: linearSample_def Let_def)
  have b: "fst (snd (byteSample cur ext)) = min (fst (byteSample cur ext) + 1) (ext - 1)"
    by (simp add: byteSample_def Let_def)
  show ?thesis
    using NearestResampler_rel [OF fit S dat agree, of dst]
      LinearResampler_rel [OF fit S dat agree, of fc dst]
      LinearResampler_Float32_rel [OF fit _ S dat agree, of fc dst]
      LinearResampler_Byte_rel [OF fit S dat agree, of fc dst]
      l b single_pixel_bytes [of src sd]
    by blast
qed

theorem C9_reads_within_source_witness:
  "pitchesFit (bufferAt 0 1 1 1 PF_R8) \<and> getWidth (bufferAt 0 1 1 1 PF_R8) = 1 \<and>
   getHeight (bufferAt 0 1 1 1 PF_R8) = 1 \<and> getDepth (bufferAt 0 1 1 1 PF_R8) = 1 \<and>
   getData (bufferAt 0 1 1 1 PF_R8) = Some 0 \<and>
   sourceBytes (bufferAt 0 1 1 1 PF_R8) 0 = {0 ..< 1} \<and>
   (zeroMemory(0 := 7)) 0 = (zeroMemory(0 := 7, 1 := 9)) 0 \<and>
   sameOutcome {0 ..< 1} (zeroMemory(0 := 7)) (zeroMemory(0 := 7, 1 := 9))
     (NearestResampler_scale 1 (bufferAt 0 1 1 1 PF_R8) (bufferAt 100 2 1 1 PF_R8)
        (zeroMemory(0 := 7)))
     (NearestResampler_scale 1 (bufferAt 0 1 1 1 PF_R8) (bufferAt 100 2 1 1 PF_R8)
        (zeroMemory(0 := 7, 1 := 9))) \<and>
   sameOutcome {0 ..< 1} (zeroMemory(0 := 7)) (zeroMemory(0 := 7, 1 := 9))
     (LinearResampler_Byte_scale sampleCodec 1 (bufferAt 0 1 1 1 PF_R8)
        (bufferAt 100 2 1 1 PF_R8) (zeroMemory(0 := 7)))
     (LinearResampler_Byte_scale sampleCodec 1 (bufferAt 0 1 1 1 PF_R8)
        (bufferAt 100 2 1 1 PF_R8) (zeroMemory(0 := 7, 1 := 9))) \<and>
   NearestResampler_scale 1 (bufferAt 0 1 1 1 PF_R8) (bufferAt 100 2 1 1 PF_R8)
        (zeroMemory(0 := 7, 1 := 9)) = Inr (zeroMemory(0 := 7, 1 := 9, 100 := 7, 101 := 7))"
proof -
  let ?src = "bufferAt 0 1 1 1 PF_R8"
  have g: "getWidth (bufferAt p w 1 1 f) = w" "getHeight (bufferAt p w 1 1 f) = 1"
    "getDepth (bufferAt p w 1 1 f) = 1" "getFormat (bufferAt p w 1 1 f) = f"
    "getData (bufferAt p w 1 1 f) = Some p"
    "getLeft (bufferAt p w 1 1 f) = 0" "getRight (bufferAt p w 1 1 f) = w"
    "getTop (bufferAt p w 1 1 f) = 0" "getBottom (bufferAt p w 1 1 f) = 1"
    "getFront (bufferAt p w 1 1 f) = 0" "getBack (bufferAt p w 1 1 f) = 1"
    "getRowPitch (bufferAt p w 1 1 f) = w" "getSlicePitch (bufferAt p w 1 1 f) = w"
    "getRowSkip (bufferAt p w 1 1 f) = 0" "getSliceSkip (bufferAt p w 1 1 f) = 0" for p w f
    by (simp_all add: pd_defs)
  have es: "getNumElemBytes PF_R8 = 1"
    by (simp add: getNumElemBytes_def getDescriptionFor_simps row_def)
  have fit: "pitchesFit ?src" by (simp add: pitchesFit_def byteSize_def g es)
  have sb: "sourceBytes ?src 0 = {0 ..< 1}"
    using single_pixel_bytes [of ?src 0] by (simp add: g es)
  have agree: "\<forall>a \<in> sourceBytes ?src 0. (zeroMemory(0 := 7)) a = (zeroMemory(0 := 7, 1 := 9)) a"
    by (simp add: sb)
  have cp: "memcpy d 0 (Suc 0) mem = mem(d := mem 0)" for mem d
    by (rule ext) (simp add: memcpy_def)
  have row: "nearestRow (Suc 0) 0 0 0 140737488355328 (Suc (Suc 0)) 70368744177663 100 mem
      = (102, mem(100 := mem 0, 101 := mem 0))" for mem
    by (simp add: nearest_steps Let_def cp)
  have row2: "nearestRow (Suc 0) 0 0 0 140737488355328 2 70368744177663 100 mem
      = (102, mem(100 := mem 0, 101 := mem 0))" for mem
    using row [of mem] by (simp only: numeral_2_eq_2)
  have k: "NearestResampler_scale 1 ?src (bufferAt 100 2 1 1 PF_R8) mem
      = Inr (mem(100 := mem 0, 101 := mem 0))" for mem
    by (simp add: NearestResampler_scale_def g regionEmpty_def nearest_steps Let_def row2)
  have u: "getNumElemBytes (getFormat ?src) = 1" "unat (1 :: u32) = 1"
    by (simp_all add: g es)
  have S: "getWidth ?src \<noteq> 0" "getHeight ?src \<noteq> 0" "getDepth ?src \<noteq> 0"
    "getData ?src = Some 0"
    by (simp_all add: g)
  note t = C9_reads_within_source [OF fit S agree, where dst = "bufferAt 100 2 1 1 PF_R8"
        and fc = sampleCodec and cur = 0 and ext = 1, unfolded sb u]
  have m: "(zeroMemory(0 := 7)) 0 = (zeroMemory(0 := 7, 1 := 9)) 0" by simp
  have k': "NearestResampler_scale 1 ?src (bufferAt 100 2 1 1 PF_R8) (zeroMemory(0 := 7, 1 := 9))
      = Inr (zeroMemory(0 := 7, 1 := 9, 100 := 7, 101 := 7))"
    unfolding k by simp
  have c8: "sameOutcome {0 ..< 1} (zeroMemory(0 := 7)) (zeroMemory(0 := 7, 1 := 9))
     (NearestResampler_scale 1 (bufferAt 0 1 1 1 PF_R8) (bufferAt 100 2 1 1 PF_R8)
        (zeroMemory(0 := 7)))
     (NearestResampler_scale 1 (bufferAt 0 1 1 1 PF_R8) (bufferAt 100 2 1 1 PF_R8)
        (zeroMemory(0 := 7, 1 := 9)))"
    by (rule t [THEN conjunct1])
  have c9: "sameOutcome {0 ..< 1} (zeroMemory(0 := 7)) (zeroMemory(0 := 7, 1 := 9))
     (LinearResampler_Byte_scale sampleCodec 1 (bufferAt 0 1 1 1 PF_R8)
        (bufferAt 100 2 1 1 PF_R8) (zeroMemory(0 := 7)))
     (LinearResampler_Byte_scale sampleCodec 1 (bufferAt 0 1 1 1 PF_R8)
        (bufferAt 100 2 1 1 PF_R8) (zeroMemory(0 := 7, 1 := 9)))"
    by (rule t [THEN conjunct2, THEN conjunct2, THEN conjunct2, THEN conjunct1])
  show ?thesis
    by (intro conjI)
       (rule fit, rule g(1), rule g(2), rule g(3), rule g(5), rule sb, rule m,
        rule c8, rule c9, rule k')
qed

end
